(* ===== verification/Hinawa_Prelude.thy ===== *)
theory Hinawa_Prelude
  imports Main "HOL-Library.Word"
begin

unbundle bit_operations_syntax

text \<open>
  What every component of the model shares.

  \<^item> The machine types of the C sources (\<open>guint8\<close>, \<open>guint16\<close>, \<open>guint32\<close>/\<open>guint\<close>,
    \<open>guint64\<close>/\<open>gsize\<close> on an LP64 target), and \<open>G_MAXUINT\<close>.
  \<^item> \<open>'a run\<close>: the outcome of a piece of C code, either a value or a fault (a behaviour that the
    C language leaves undefined: a dereferenced null pointer, an access outside an object, an
    access to an object whose lifetime has ended). \<open>bind_run\<close> sequences two pieces.
  \<^item> The errno values of Linux that the sources compare with.
  \<^item> \<open>memcpy\<close>/\<open>memset\<close> on byte buffers, with their bounds.
  \<^item> Lemmas on words and lists used by several components, and the collection
    \<open>run_simps\<close> of rewrite rules for faults.
\<close>

named_theorems run_simps \<open>evaluation of sequenced, possibly faulting code\<close>

subsection \<open>Machine types\<close>

type_synonym u8 = "8 word"
type_synonym u16 = "16 word"
type_synonym u32 = "32 word"
type_synonym u64 = "64 word"

type_synonym bytes = "u8 list"

abbreviation G_MAXUINT :: u32 where
  "G_MAXUINT \<equiv> 0xffffffff"

subsection \<open>Faults\<close>

datatype fault = Null_Deref | Out_Of_Bounds | Dangling

datatype 'a run = Ret 'a | Fault fault

primrec bind_run :: "'a run \<Rightarrow> ('a \<Rightarrow> 'b run) \<Rightarrow> 'b run" where
  "bind_run (Ret x) f = f x"
| "bind_run (Fault e) f = Fault e"

lemma bind_run_Ret_iff [run_simps]:
  "bind_run m f = Ret y \<longleftrightarrow> (\<exists>x. m = Ret x \<and> f x = Ret y)"
  by (cases m) auto

lemma bind_run_Fault_iff [run_simps]:
  "bind_run m f = Fault e \<longleftrightarrow> m = Fault e \<or> (\<exists>x. m = Ret x \<and> f x = Fault e)"
  by (cases m) auto

lemma bind_run_assoc:
  "bind_run (bind_run m f) g = bind_run m (\<lambda>x. bind_run (f x) g)"
  by (cases m) simp_all

subsection \<open>The errno values the sources name\<close>

abbreviation ENXIO :: int where "ENXIO \<equiv> 6"
abbreviation EAGAIN :: int where "EAGAIN \<equiv> 11"
abbreviation EBUSY :: int where "EBUSY \<equiv> 16"
abbreviation ENODEV :: int where "ENODEV \<equiv> 19"
abbreviation EINVAL :: int where "EINVAL \<equiv> 22"

subsection \<open>Byte buffers\<close>

text \<open>\<open>memcpy dst src n\<close> faults unless both objects have \<open>n\<close> bytes.\<close>

definition memcpy :: "bytes \<Rightarrow> bytes \<Rightarrow> nat \<Rightarrow> bytes run" where
  "memcpy dst src n =
     (if n \<le> length dst \<and> n \<le> length src then Ret (take n src @ drop n dst)
      else Fault Out_Of_Bounds)"

definition memset :: "bytes \<Rightarrow> u8 \<Rightarrow> nat \<Rightarrow> bytes run" where
  "memset dst c n =
     (if n \<le> length dst then Ret (replicate n c @ drop n dst) else Fault Out_Of_Bounds)"

lemma memcpy_ok [run_simps]:
  "n \<le> length dst \<Longrightarrow> n \<le> length src \<Longrightarrow> memcpy dst src n = Ret (take n src @ drop n dst)"
  by (simp add: memcpy_def)

lemma memcpy_Ret_iff:
  "memcpy dst src n = Ret b \<longleftrightarrow>
     n \<le> length dst \<and> n \<le> length src \<and> b = take n src @ drop n dst"
  by (auto simp: memcpy_def)

lemma memcpy_length: "memcpy dst src n = Ret b \<Longrightarrow> length b = length dst"
  by (auto simp: memcpy_Ret_iff)

lemma memset_ok [run_simps]:
  "n \<le> length dst \<Longrightarrow> memset dst c n = Ret (replicate n c @ drop n dst)"
  by (simp add: memset_def)

lemma memset_all [run_simps]: "memset dst c (length dst) = Ret (replicate (length dst) c)"
  by (simp add: memset_def)

text \<open>Reading or writing one element of an array.\<close>

definition read_at :: "'a list \<Rightarrow> nat \<Rightarrow> 'a run" where
  "read_at xs i = (if i < length xs then Ret (xs ! i) else Fault Out_Of_Bounds)"

definition write_at :: "'a list \<Rightarrow> nat \<Rightarrow> 'a \<Rightarrow> 'a list run" where
  "write_at xs i v = (if i < length xs then Ret (xs[i := v]) else Fault Out_Of_Bounds)"

lemma read_at_ok [run_simps]: "i < length xs \<Longrightarrow> read_at xs i = Ret (xs ! i)"
  by (simp add: read_at_def)

lemma write_at_ok [run_simps]: "i < length xs \<Longrightarrow> write_at xs i v = Ret (xs[i := v])"
  by (simp add: write_at_def)

subsection \<open>Words\<close>

lemma unat_bit_field:
  fixes x :: "'a::len word"
  shows "unat (take_bit n (drop_bit m x)) = unat x div 2 ^ m mod 2 ^ n"
  by (simp only: unsigned_take_bit_eq unat_drop_bit_eq) (simp add: drop_bit_eq_div take_bit_eq_mod)

lemma unat_low_bits:
  fixes x :: "'a::len word"
  shows "unat (take_bit n x) = unat x mod 2 ^ n"
  by (simp only: unsigned_take_bit_eq) (simp add: take_bit_eq_mod)

lemma unat_u32_of_nat: "n < 2 ^ 32 \<Longrightarrow> unat (word_of_nat n :: u32) = n"
  by (simp only: unsigned_of_nat len_num1 len_bit0) (simp add: take_bit_nat_eq_self)

lemma unat_u32_to_u64 [simp]: "unat (ucast (x :: u32) :: u64) = unat x"
proof -
  have "unat x < 2 ^ 32" using unsigned_less [of x] by simp
  then have "unat x < 2 ^ 64" by (rule less_trans) simp
  then show ?thesis by (simp add: unsigned_ucast_eq take_bit_nat_eq_self)
qed

lemma nat_or_low:
  fixes x t :: nat
  assumes "t < 8"
  shows "x OR t = 8 * (x div 8) + ((x mod 8) OR t)"
proof -
  have t: "take_bit 3 t = t" and t0: "drop_bit 3 t = 0"
    using assms by (simp_all add: take_bit_nat_eq_self_iff drop_bit_eq_div)
  have hi: "drop_bit 3 (x OR t) = drop_bit 3 x" and lo: "take_bit 3 (x OR t) = take_bit 3 x OR t"
    by (simp_all add: t0 t)
  have "x OR t = push_bit 3 (drop_bit 3 (x OR t)) + take_bit 3 (x OR t)"
    by (simp only: bits_ident)
  also have "\<dots> = push_bit 3 (drop_bit 3 x) + (take_bit 3 x OR t)"
    by (simp only: hi lo)
  finally show ?thesis
    by (simp add: push_bit_eq_mult drop_bit_eq_div take_bit_eq_mod)
qed

lemma window_of_8:
  fixes q r m low :: nat
  assumes "r < 8" and "low < 8"
  shows "8 * q + r \<le> 8 * m + low \<and> 8 * m + low < 8 * q + r + 8 \<longleftrightarrow>
    m = q + (if low < r then 1 else 0)"
  using assms by (cases "low < r") (simp; arith)+

lemma div_mod_8_iff: "low < 8 \<Longrightarrow> (n::nat) div 8 = m \<and> n mod 8 = low \<longleftrightarrow> n = 8 * m + low"
proof
  show "n = 8 * m + low" if "n div 8 = m \<and> n mod 8 = low"
    using that mult_div_mod_eq [of 8 n] by simp
qed simp

lemma nat_or_less_8: "a < 8 \<Longrightarrow> b < 8 \<Longrightarrow> (a OR b) < (8::nat)"
  using OR_upper [of "int a" 3 "int b"] by (simp flip: of_nat_or_eq)

end
