(* ===== verification/Hinawa_Types.thy ===== *)
theory Hinawa_Types
  imports Hinawa_Prelude
begin

text \<open>
  The enumerations of \<open>src/hinawa_enum_types.h\<close> as datatypes with the source's enumerators, and
  the error reports (\<open>GError\<close>) the library generates.

  The numbers behind the enumerators of transaction and response codes are the macros of the kernel
  header \<open>linux/firewire-constants.h\<close>, which is not part of the repository: they are a parameter
  \<open>fw_constants\<close> of the definitions that need them. What the code relies on of them is
  \<open>constants_ok\<close>: the macros are pairwise distinct, and no response code is \<open>G_MAXUINT\<close>.

  A location \<open>GError **error\<close> is \<open>NullErr\<close> (a null pointer: the caller wants no report) or
  \<open>Err e\<close> where \<open>e\<close> is the report stored there; \<open>*error == NULL\<close> is \<open>e = None\<close>. When a report is
  stored already, \<open>g_set_error\<close> and \<open>g_set_error_literal\<close> of GLib write a warning to the log and drop
  the new one.
\<close>

subsection \<open>Enumerations\<close>

datatype HinawaFwTcode =
    HINAWA_FW_TCODE_WRITE_QUADLET_REQUEST
  | HINAWA_FW_TCODE_WRITE_BLOCK_REQUEST
  | HINAWA_FW_TCODE_WRITE_RESPONSE
  | HINAWA_FW_TCODE_READ_QUADLET_REQUEST
  | HINAWA_FW_TCODE_READ_BLOCK_REQUEST
  | HINAWA_FW_TCODE_READ_QUADLET_RESPONSE
  | HINAWA_FW_TCODE_READ_BLOCK_RESPONSE
  | HINAWA_FW_TCODE_CYCLE_START
  | HINAWA_FW_TCODE_LOCK_REQUEST
  | HINAWA_FW_TCODE_STREAM_DATA
  | HINAWA_FW_TCODE_LOCK_RESPONSE
  | HINAWA_FW_TCODE_LOCK_MASK_SWAP
  | HINAWA_FW_TCODE_LOCK_COMPARE_SWAP
  | HINAWA_FW_TCODE_LOCK_FETCH_ADD
  | HINAWA_FW_TCODE_LOCK_LITTLE_ADD
  | HINAWA_FW_TCODE_LOCK_BOUNDED_ADD
  | HINAWA_FW_TCODE_LOCK_WRAP_ADD
  | HINAWA_FW_TCODE_LOCK_VENDOR_DEPENDENT

datatype HinawaFwRcode =
    HINAWA_FW_RCODE_COMPLETE
  | HINAWA_FW_RCODE_CONFLICT_ERROR
  | HINAWA_FW_RCODE_DATA_ERROR
  | HINAWA_FW_RCODE_TYPE_ERROR
  | HINAWA_FW_RCODE_ADDRESS_ERROR
  | HINAWA_FW_RCODE_SEND_ERROR
  | HINAWA_FW_RCODE_CANCELLED
  | HINAWA_FW_RCODE_BUSY
  | HINAWA_FW_RCODE_GENERATION
  | HINAWA_FW_RCODE_NO_ACK
  | HINAWA_FW_RCODE_INVALID

datatype HinawaFwReqError =
    HINAWA_FW_REQ_ERROR_CONFLICT_ERROR
  | HINAWA_FW_REQ_ERROR_DATA_ERROR
  | HINAWA_FW_REQ_ERROR_TYPE_ERROR
  | HINAWA_FW_REQ_ERROR_ADDRESS_ERROR
  | HINAWA_FW_REQ_ERROR_SEND_ERROR
  | HINAWA_FW_REQ_ERROR_CANCELLED
  | HINAWA_FW_REQ_ERROR_BUSY
  | HINAWA_FW_REQ_ERROR_GENERATION
  | HINAWA_FW_REQ_ERROR_NO_ACK
  | HINAWA_FW_REQ_ERROR_INVALID

datatype HinawaFwNodeError =
    HINAWA_FW_NODE_ERROR_DISCONNECTED
  | HINAWA_FW_NODE_ERROR_OPENED
  | HINAWA_FW_NODE_ERROR_NOT_OPENED
  | HINAWA_FW_NODE_ERROR_FAILED

datatype HinawaFwRespError =
    HINAWA_FW_RESP_ERROR_FAILED
  | HINAWA_FW_RESP_ERROR_RESERVED
  | HINAWA_FW_RESP_ERROR_ADDR_SPACE_USED

datatype HinawaFwFcpError =
    HINAWA_FW_FCP_ERROR_TIMEOUT
  | HINAWA_FW_FCP_ERROR_LARGE_RESP
  | HINAWA_FW_FCP_ERROR_ABORTED

text \<open>The response codes the kernel names, in the order of the header (without \<open>INVALID\<close>,
  which the library adds).\<close>

definition kernel_rcodes :: "HinawaFwRcode list" where
  "kernel_rcodes =
     [HINAWA_FW_RCODE_COMPLETE, HINAWA_FW_RCODE_CONFLICT_ERROR, HINAWA_FW_RCODE_DATA_ERROR,
      HINAWA_FW_RCODE_TYPE_ERROR, HINAWA_FW_RCODE_ADDRESS_ERROR, HINAWA_FW_RCODE_SEND_ERROR,
      HINAWA_FW_RCODE_CANCELLED, HINAWA_FW_RCODE_BUSY, HINAWA_FW_RCODE_GENERATION,
      HINAWA_FW_RCODE_NO_ACK]"

instantiation HinawaFwRcode :: enum
begin

definition enum_HinawaFwRcode :: "HinawaFwRcode list" where
  "enum_HinawaFwRcode = kernel_rcodes @ [HINAWA_FW_RCODE_INVALID]"

definition enum_all_HinawaFwRcode :: "(HinawaFwRcode \<Rightarrow> bool) \<Rightarrow> bool" where
  "enum_all_HinawaFwRcode P = list_all P (kernel_rcodes @ [HINAWA_FW_RCODE_INVALID])"

definition enum_ex_HinawaFwRcode :: "(HinawaFwRcode \<Rightarrow> bool) \<Rightarrow> bool" where
  "enum_ex_HinawaFwRcode P = list_ex P (kernel_rcodes @ [HINAWA_FW_RCODE_INVALID])"

instance
proof
  have all: "(UNIV :: HinawaFwRcode set) = set (kernel_rcodes @ [HINAWA_FW_RCODE_INVALID])"
    unfolding kernel_rcodes_def by (auto intro: HinawaFwRcode.exhaust)
  show "(UNIV :: HinawaFwRcode set) = set enum_class.enum"
    unfolding enum_HinawaFwRcode_def by (rule all)
  show "distinct (enum_class.enum :: HinawaFwRcode list)"
    by (simp add: enum_HinawaFwRcode_def kernel_rcodes_def)
  show "enum_class.enum_all P \<longleftrightarrow> Ball UNIV P" for P :: "HinawaFwRcode \<Rightarrow> bool"
    unfolding enum_all_HinawaFwRcode_def all list_all_iff ..
  show "enum_class.enum_ex P \<longleftrightarrow> Bex UNIV P" for P :: "HinawaFwRcode \<Rightarrow> bool"
    unfolding enum_ex_HinawaFwRcode_def all list_ex_iff ..
qed

end

subsection \<open>The constants of the kernel header\<close>

record fw_constants =
  TCODE :: "HinawaFwTcode \<Rightarrow> u32"
  RCODE :: "HinawaFwRcode \<Rightarrow> u32"

text \<open>\<open>HINAWA_FW_RCODE_INVALID\<close> has no initialiser, so C gives it the successor of the
  enumerator before it.\<close>

definition rcode_value :: "fw_constants \<Rightarrow> HinawaFwRcode \<Rightarrow> u32" where
  "rcode_value c r =
     (if r = HINAWA_FW_RCODE_INVALID then RCODE c HINAWA_FW_RCODE_NO_ACK + 1 else RCODE c r)"

definition constants_ok :: "fw_constants \<Rightarrow> bool" where
  "constants_ok c \<longleftrightarrow> inj (TCODE c) \<and> distinct (map (RCODE c) kernel_rcodes) \<and>
     G_MAXUINT \<notin> RCODE c ` set kernel_rcodes"

text \<open>The error code of a transaction that a response code other than \<open>COMPLETE\<close> stands for:
  the two enumerations give them the same number.\<close>

fun req_error_of_rcode :: "HinawaFwRcode \<Rightarrow> HinawaFwReqError" where
  "req_error_of_rcode HINAWA_FW_RCODE_CONFLICT_ERROR = HINAWA_FW_REQ_ERROR_CONFLICT_ERROR"
| "req_error_of_rcode HINAWA_FW_RCODE_DATA_ERROR = HINAWA_FW_REQ_ERROR_DATA_ERROR"
| "req_error_of_rcode HINAWA_FW_RCODE_TYPE_ERROR = HINAWA_FW_REQ_ERROR_TYPE_ERROR"
| "req_error_of_rcode HINAWA_FW_RCODE_ADDRESS_ERROR = HINAWA_FW_REQ_ERROR_ADDRESS_ERROR"
| "req_error_of_rcode HINAWA_FW_RCODE_SEND_ERROR = HINAWA_FW_REQ_ERROR_SEND_ERROR"
| "req_error_of_rcode HINAWA_FW_RCODE_CANCELLED = HINAWA_FW_REQ_ERROR_CANCELLED"
| "req_error_of_rcode HINAWA_FW_RCODE_BUSY = HINAWA_FW_REQ_ERROR_BUSY"
| "req_error_of_rcode HINAWA_FW_RCODE_GENERATION = HINAWA_FW_REQ_ERROR_GENERATION"
| "req_error_of_rcode HINAWA_FW_RCODE_NO_ACK = HINAWA_FW_REQ_ERROR_NO_ACK"
| "req_error_of_rcode _ = HINAWA_FW_REQ_ERROR_INVALID"

subsection \<open>Error reports\<close>

datatype gerror_code =
    FW_NODE_ERROR HinawaFwNodeError
  | FW_REQ_ERROR HinawaFwReqError
  | FW_RESP_ERROR HinawaFwRespError
  | FW_FCP_ERROR HinawaFwFcpError
  | FILE_ERROR int

text \<open>A message is a literal, or text followed by an errno value and its description.\<close>

datatype gerror_message = Literal string | With_Errno string int

record gerror =
  error_code :: gerror_code
  error_message :: gerror_message

datatype gerror_ptr = NullErr | Err "gerror option"

primrec g_set_error :: "gerror_ptr \<Rightarrow> gerror \<Rightarrow> gerror_ptr" where
  "g_set_error NullErr e = NullErr"
| "g_set_error (Err stored) e = Err (case stored of None \<Rightarrow> Some e | Some d \<Rightarrow> Some d)"

text \<open>The guard \<open>error == NULL || *error == NULL\<close> of the public functions.\<close>

primrec error_unset :: "gerror_ptr \<Rightarrow> bool" where
  "error_unset NullErr = True"
| "error_unset (Err stored) = (stored = None)"

text \<open>The expression \<open>*error == NULL\<close>, which reads through the pointer.\<close>

primrec deref_is_null :: "gerror_ptr \<Rightarrow> bool run" where
  "deref_is_null NullErr = Fault Null_Deref"
| "deref_is_null (Err stored) = Ret (stored = None)"

text \<open>Whether a report is stored.\<close>

primrec error_stored :: "gerror_ptr \<Rightarrow> bool" where
  "error_stored NullErr = False"
| "error_stored (Err stored) = (stored \<noteq> None)"

lemma error_unset_iff: "error_unset p \<longleftrightarrow> p = NullErr \<or> p = Err None"
  by (cases p) auto

lemma g_set_error_eq_Null [simp]: "g_set_error p e = NullErr \<longleftrightarrow> p = NullErr"
  by (cases p) auto

lemma kernel_rcodes_iff: "r \<in> set kernel_rcodes \<longleftrightarrow> r \<noteq> HINAWA_FW_RCODE_INVALID"
  by (cases r) (simp_all add: kernel_rcodes_def)

lemma constants_ok_rcode_eq:
  assumes "constants_ok c" and "r \<noteq> HINAWA_FW_RCODE_INVALID" and "s \<noteq> HINAWA_FW_RCODE_INVALID"
  shows "RCODE c r = RCODE c s \<longleftrightarrow> r = s"
  using assms kernel_rcodes_iff [of r] kernel_rcodes_iff [of s]
  unfolding constants_ok_def distinct_map by (auto dest: inj_onD)

lemma constants_ok_rcode_max:
  "constants_ok c \<Longrightarrow> r \<noteq> HINAWA_FW_RCODE_INVALID \<Longrightarrow> RCODE c r \<noteq> G_MAXUINT"
  using kernel_rcodes_iff [of r] unfolding constants_ok_def by (metis image_eqI)

lemma constants_ok_tcode_eq: "constants_ok c \<Longrightarrow> TCODE c t = TCODE c u \<longleftrightarrow> t = u"
  unfolding constants_ok_def by (auto dest: injD)

text \<open>A numbering of the constants by position, for closed instances of statements about any
  numbering.\<close>

definition numbered_constants :: fw_constants where
  "numbered_constants =
     \<lparr>TCODE = (\<lambda>t. case t of
          HINAWA_FW_TCODE_WRITE_QUADLET_REQUEST \<Rightarrow> 0
        | HINAWA_FW_TCODE_WRITE_BLOCK_REQUEST \<Rightarrow> 1
        | HINAWA_FW_TCODE_WRITE_RESPONSE \<Rightarrow> 2
        | HINAWA_FW_TCODE_READ_QUADLET_REQUEST \<Rightarrow> 3
        | HINAWA_FW_TCODE_READ_BLOCK_REQUEST \<Rightarrow> 4
        | HINAWA_FW_TCODE_READ_QUADLET_RESPONSE \<Rightarrow> 5
        | HINAWA_FW_TCODE_READ_BLOCK_RESPONSE \<Rightarrow> 6
        | HINAWA_FW_TCODE_CYCLE_START \<Rightarrow> 7
        | HINAWA_FW_TCODE_LOCK_REQUEST \<Rightarrow> 8
        | HINAWA_FW_TCODE_STREAM_DATA \<Rightarrow> 9
        | HINAWA_FW_TCODE_LOCK_RESPONSE \<Rightarrow> 10
        | HINAWA_FW_TCODE_LOCK_MASK_SWAP \<Rightarrow> 11
        | HINAWA_FW_TCODE_LOCK_COMPARE_SWAP \<Rightarrow> 12
        | HINAWA_FW_TCODE_LOCK_FETCH_ADD \<Rightarrow> 13
        | HINAWA_FW_TCODE_LOCK_LITTLE_ADD \<Rightarrow> 14
        | HINAWA_FW_TCODE_LOCK_BOUNDED_ADD \<Rightarrow> 15
        | HINAWA_FW_TCODE_LOCK_WRAP_ADD \<Rightarrow> 16
        | HINAWA_FW_TCODE_LOCK_VENDOR_DEPENDENT \<Rightarrow> 17),
      RCODE = (\<lambda>r. case r of
          HINAWA_FW_RCODE_COMPLETE \<Rightarrow> 0
        | HINAWA_FW_RCODE_CONFLICT_ERROR \<Rightarrow> 1
        | HINAWA_FW_RCODE_DATA_ERROR \<Rightarrow> 2
        | HINAWA_FW_RCODE_TYPE_ERROR \<Rightarrow> 3
        | HINAWA_FW_RCODE_ADDRESS_ERROR \<Rightarrow> 4
        | HINAWA_FW_RCODE_SEND_ERROR \<Rightarrow> 5
        | HINAWA_FW_RCODE_CANCELLED \<Rightarrow> 6
        | HINAWA_FW_RCODE_BUSY \<Rightarrow> 7
        | HINAWA_FW_RCODE_GENERATION \<Rightarrow> 8
        | HINAWA_FW_RCODE_NO_ACK \<Rightarrow> 9
        | HINAWA_FW_RCODE_INVALID \<Rightarrow> 0)\<rparr>"

lemma numbered_constants_ok: "constants_ok numbered_constants"
proof -
  have "inj (TCODE numbered_constants)"
  proof (rule injI)
    show "x = y" if "TCODE numbered_constants x = TCODE numbered_constants y" for x y
      using that by (cases x; cases y) (simp_all add: numbered_constants_def)
  qed
  then show ?thesis
    by (simp add: constants_ok_def kernel_rcodes_def numbered_constants_def)
qed

end
