(* ===== verification/Cycle_Time.thy ===== *)
theory Cycle_Time
  imports Hinawa_Prelude
begin

unbundle bit_operations_syntax

text \<open>
  The boxed structure \<open>HinawaCycleTime\<close> (\<open>src/cycle_time.c\<close>): the value of the CYCLE_TIME
  register of 1394 OHCI together with a system time, the accessors, and the two functions that
  read the 16-bit time stamps of the asynchronous contexts.

  The register is 7 bits of seconds, 13 bits of cycles and 12 bits of offset; a time stamp is the
  low 3 bits of the seconds and the 13 bits of cycles. The lemmas give each accessor as a
  quotient and remainder of the register, the round trip between the register and its fields, and
  an exact account of \<open>hinawa_cycle_time_compute_tstamp\<close> against what its documentation promises:
  the second count within 8 seconds of the register whose low bits are those of the time stamp.
\<close>

subsection \<open>The structure\<close>

record HinawaCycleTime =
  tv_sec :: u64
  tv_nsec :: u32
  clk_id :: u32
  cycle_timer :: u32

definition hinawa_cycle_time_copy :: "HinawaCycleTime \<Rightarrow> HinawaCycleTime" where
  "hinawa_cycle_time_copy self = self"

definition hinawa_cycle_time_new :: HinawaCycleTime where
  "hinawa_cycle_time_new = \<lparr>tv_sec = 0, tv_nsec = 0, clk_id = 0, cycle_timer = 0\<rparr>"

definition hinawa_cycle_time_get_system_time :: "HinawaCycleTime \<Rightarrow> u64 \<times> u32" where
  "hinawa_cycle_time_get_system_time self = (tv_sec self, tv_nsec self)"

definition hinawa_cycle_time_get_clock_id :: "HinawaCycleTime \<Rightarrow> u32" where
  "hinawa_cycle_time_get_clock_id self = clk_id self"

subsection \<open>The fields of the register\<close>

definition ieee1394_cycle_time_to_sec :: "u32 \<Rightarrow> u32" where
  "ieee1394_cycle_time_to_sec cycle_time = drop_bit 25 (cycle_time AND 0xfe000000)"

definition ieee1394_cycle_time_to_cycle :: "u32 \<Rightarrow> u32" where
  "ieee1394_cycle_time_to_cycle cycle_time = drop_bit 12 (cycle_time AND 0x01fff000)"

definition ieee1394_cycle_time_to_offset :: "u32 \<Rightarrow> u32" where
  "ieee1394_cycle_time_to_offset cycle_time = cycle_time AND 0x00000fff"

definition hinawa_cycle_time_get_fields :: "HinawaCycleTime \<Rightarrow> u16 list" where
  "hinawa_cycle_time_get_fields self =
     [ucast (ieee1394_cycle_time_to_sec (cycle_timer self)),
      ucast (ieee1394_cycle_time_to_cycle (cycle_timer self)),
      ucast (ieee1394_cycle_time_to_offset (cycle_timer self))]"

definition hinawa_cycle_time_get_raw :: "HinawaCycleTime \<Rightarrow> u32" where
  "hinawa_cycle_time_get_raw self = cycle_timer self"

subsection \<open>Time stamps\<close>

definition OHCI1394_TSTAMP_SEC_MASK :: u32 where
  "OHCI1394_TSTAMP_SEC_MASK = 0x0000e000"

definition OHCI1394_TSTAMP_SEC_SHIFT :: nat where
  "OHCI1394_TSTAMP_SEC_SHIFT = 13"

definition OHCI1394_TSTAMP_CYCLE_MASK :: u32 where
  "OHCI1394_TSTAMP_CYCLE_MASK = 0x00001fff"

definition OHCI1394_TSTAMP_CYCLE_SHIFT :: nat where
  "OHCI1394_TSTAMP_CYCLE_SHIFT = 0"

definition IEEE1394_SEC_MAX :: u32 where
  "IEEE1394_SEC_MAX = 128"

definition OHCI1394_SEC_MAX :: u32 where
  "OHCI1394_SEC_MAX = 8"

definition hinawa_cycle_time_compute_tstamp :: "HinawaCycleTime \<Rightarrow> u32 \<Rightarrow> u32 list" where
  "hinawa_cycle_time_compute_tstamp self tstamp =
     (let tstamp_sec_low = drop_bit OHCI1394_TSTAMP_SEC_SHIFT (tstamp AND OHCI1394_TSTAMP_SEC_MASK);
          curr_sec_low = ieee1394_cycle_time_to_sec (cycle_timer self) AND 0x7;
          sec = ieee1394_cycle_time_to_sec (cycle_timer self);
          sec = (if tstamp_sec_low < curr_sec_low then sec + OHCI1394_SEC_MAX else sec);
          sec = sec OR tstamp_sec_low;
          sec = sec mod IEEE1394_SEC_MAX
      in [sec, drop_bit OHCI1394_TSTAMP_CYCLE_SHIFT (tstamp AND OHCI1394_TSTAMP_CYCLE_MASK)])"

definition hinawa_cycle_time_parse_tstamp :: "u32 \<Rightarrow> u32 list" where
  "hinawa_cycle_time_parse_tstamp tstamp =
     [drop_bit OHCI1394_TSTAMP_SEC_SHIFT (tstamp AND OHCI1394_TSTAMP_SEC_MASK),
      drop_bit OHCI1394_TSTAMP_CYCLE_SHIFT (tstamp AND OHCI1394_TSTAMP_CYCLE_MASK)]"

lemmas tstamp_constants = OHCI1394_TSTAMP_SEC_MASK_def OHCI1394_TSTAMP_SEC_SHIFT_def
  OHCI1394_TSTAMP_CYCLE_MASK_def OHCI1394_TSTAMP_CYCLE_SHIFT_def IEEE1394_SEC_MAX_def OHCI1394_SEC_MAX_def

lemmas compute_tstamp_numerals = hinawa_cycle_time_compute_tstamp_def [unfolded tstamp_constants]

lemmas parse_tstamp_numerals = hinawa_cycle_time_parse_tstamp_def [unfolded tstamp_constants]

subsection \<open>The accessors as arithmetic\<close>

lemma to_sec_take_drop: "ieee1394_cycle_time_to_sec x = take_bit 7 (drop_bit 25 x)"
  by (simp add: ieee1394_cycle_time_to_sec_def take_bit_eq_mask mask_eq_exp_minus_1)

lemma to_cycle_take_drop: "ieee1394_cycle_time_to_cycle x = take_bit 13 (drop_bit 12 x)"
  by (simp add: ieee1394_cycle_time_to_cycle_def take_bit_eq_mask mask_eq_exp_minus_1)

lemma to_offset_take: "ieee1394_cycle_time_to_offset x = take_bit 12 x"
  by (simp add: ieee1394_cycle_time_to_offset_def take_bit_eq_mask mask_eq_exp_minus_1)

lemma tstamp_sec_take_drop: "drop_bit 13 (x AND 0x0000e000 :: u32) = take_bit 3 (drop_bit 13 x)"
  by (simp add: take_bit_eq_mask mask_eq_exp_minus_1)

lemma tstamp_cycle_take: "(x AND 0x00001fff :: u32) = take_bit 13 x"
  by (simp add: take_bit_eq_mask mask_eq_exp_minus_1)

lemma unat_to_sec: "unat (ieee1394_cycle_time_to_sec x) = unat x div 2 ^ 25"
proof -
  have "unat x < 2 ^ 32"
    using unsigned_less [of x] by simp
  then have "unat x div 2 ^ 25 < 2 ^ 7"
    by (simp add: less_mult_imp_div_less)
  then show ?thesis
    by (simp only: to_sec_take_drop unat_bit_field) simp
qed

lemma unat_to_cycle: "unat (ieee1394_cycle_time_to_cycle x) = unat x div 2 ^ 12 mod 2 ^ 13"
  by (simp only: to_cycle_take_drop unat_bit_field)

lemma unat_to_offset: "unat (ieee1394_cycle_time_to_offset x) = unat x mod 2 ^ 12"
  by (simp only: to_offset_take unat_low_bits)

lemma unat_tstamp_sec: "unat (drop_bit 13 (x AND 0x0000e000 :: u32)) = unat x div 2 ^ 13 mod 2 ^ 3"
  by (simp only: tstamp_sec_take_drop unat_bit_field)

lemma unat_tstamp_cycle: "unat (x AND 0x00001fff :: u32) = unat x mod 2 ^ 13"
  by (simp only: tstamp_cycle_take unat_low_bits)

lemmas register_fields = unat_to_sec unat_to_cycle unat_to_offset

lemma to_sec_less: "unat (ieee1394_cycle_time_to_sec x) < 128"
  by (simp only: to_sec_take_drop unat_bit_field) simp

lemma get_fields_nth:
  "map unat (hinawa_cycle_time_get_fields self) =
     [unat (cycle_timer self) div 2 ^ 25, unat (cycle_timer self) div 2 ^ 12 mod 2 ^ 13,
      unat (cycle_timer self) mod 2 ^ 12]"
proof -
  have small: "unat (ucast v :: u16) = unat v" if "unat v < 2 ^ 16" for v :: u32
    using that by (simp add: unsigned_ucast_eq take_bit_nat_eq_self)
  have "unat (ieee1394_cycle_time_to_sec (cycle_timer self)) < 2 ^ 16"
    using to_sec_less [of "cycle_timer self"] by simp
  moreover have "unat (ieee1394_cycle_time_to_cycle (cycle_timer self)) < 2 ^ 16"
    by (simp only: unat_to_cycle) (rule less_trans [OF mod_less_divisor], simp_all)
  moreover have "unat (ieee1394_cycle_time_to_offset (cycle_timer self)) < 2 ^ 16"
    by (simp only: unat_to_offset) (rule less_trans [OF mod_less_divisor], simp_all)
  ultimately show ?thesis
    by (simp add: hinawa_cycle_time_get_fields_def small register_fields)
qed

subsection \<open>The second count of a time stamp\<close>

text \<open>
  What the documentation of \<open>hinawa_cycle_time_compute_tstamp\<close> asks for: the instant of the time
  stamp is at most 8 seconds from the read of the register, so its second count is the only one of
  the 8 values from \<open>cur\<close> on, as a 7-bit count, whose low three bits are those of the time stamp.
\<close>

definition tstamp_sec_spec :: "nat \<Rightarrow> nat \<Rightarrow> nat \<Rightarrow> bool" where
  "tstamp_sec_spec cur low s \<longleftrightarrow>
     (\<exists>n \<in> {cur ..< cur + 8}. n mod 8 = low \<and> s = n mod 128)"

lemma tstamp_sec_spec_iff:
  assumes "low < 8"
  shows "tstamp_sec_spec cur low s \<longleftrightarrow>
    s = (8 * (cur div 8 + (if low < cur mod 8 then 1 else 0)) + low) mod 128"
    (is "_ \<longleftrightarrow> s = ?n mod 128")
proof -
  let ?m = "cur div 8 + (if low < cur mod 8 then 1 else 0)"
  have win: "n \<in> {cur ..< cur + 8} \<and> n mod 8 = low \<longleftrightarrow> n = 8 * ?m + low" for n
  proof -
    have "n \<in> {cur ..< cur + 8} \<and> n mod 8 = low \<longleftrightarrow> n div 8 = ?m \<and> n mod 8 = low"
      using window_of_8 [of "cur mod 8" low "cur div 8" "n div 8"] assms
        div_mult_mod_eq [of n 8] div_mult_mod_eq [of cur 8]
      by (metis atLeastLessThan_iff mod_less_divisor mult.commute zero_less_numeral)
    also have "\<dots> \<longleftrightarrow> n = 8 * ?m + low"
      using assms by (rule div_mod_8_iff)
    finally show ?thesis .
  qed
  have "tstamp_sec_spec cur low s \<longleftrightarrow>
      (\<exists>n. (n \<in> {cur ..< cur + 8} \<and> n mod 8 = low) \<and> s = n mod 128)"
    unfolding tstamp_sec_spec_def by blast
  then show ?thesis
    by (simp only: win) blast
qed

text \<open>What the code computes: the low bits of the register are not cleared before the OR.\<close>

lemma unat_compute_tstamp_sec:
  fixes self tstamp
  defines "cur \<equiv> unat (ieee1394_cycle_time_to_sec (cycle_timer self))"
    and "low \<equiv> unat tstamp div 2 ^ 13 mod 2 ^ 3"
  shows "unat (hinawa_cycle_time_compute_tstamp self tstamp ! 0) =
    (8 * (cur div 8 + (if low < cur mod 8 then 1 else 0)) + ((cur mod 8) OR low)) mod 128"
proof -
  let ?c = "ieee1394_cycle_time_to_sec (cycle_timer self)"
  let ?t = "drop_bit 13 (tstamp AND 0x0000e000) :: u32"
  have t: "unat ?t = low" unfolding low_def by (rule unat_tstamp_sec)
  have c: "cur < 128" unfolding cur_def by (rule to_sec_less)
  have c7: "unat (?c AND 7) = cur mod 8"
    using unat_low_bits [of 3 ?c] by (simp add: take_bit_eq_mask mask_eq_exp_minus_1 cur_def)
  have or_mod: "unat ((s OR t) mod 128) = (unat s OR unat t) mod 128" for s t :: u32
    by (simp add: unat_mod unsigned_or_eq)
  have lt: "?t < ?c AND 7 \<longleftrightarrow> low < cur mod 8"
    by (simp only: word_less_nat_alt t c7)
  have "unat (?c + 8) = cur + 8"
    using c unfolding cur_def by (simp add: unat_word_ariths)
  then have "unat (if low < cur mod 8 then ?c + 8 else ?c) =
      8 * (cur div 8 + (if low < cur mod 8 then 1 else 0)) + cur mod 8" (is "unat ?s = ?n")
    unfolding cur_def by simp
  moreover have "unat (hinawa_cycle_time_compute_tstamp self tstamp ! 0) = (unat ?s OR low) mod 128"
    by (simp only: compute_tstamp_numerals Let_def lt nth_Cons_0 or_mod t)
  moreover have "?n OR low = 8 * (?n div 8) + ((?n mod 8) OR low)"
    by (rule nat_or_low) (simp add: low_def)
  ultimately show ?thesis by (simp add: add.commute)
qed

lemma compute_tstamp_low_bits:
  fixes m a b :: nat
  assumes "a < 8" and "b < 8"
  shows "(8 * m + a) mod 128 = (8 * m + b) mod 128 \<longleftrightarrow> a = b"
proof
  assume "(8 * m + a) mod 128 = (8 * m + b) mod 128"
  then have "(8 * m + a) mod 128 mod 8 = (8 * m + b) mod 128 mod 8" by simp
  then show "a = b"
    using assms by (simp add: mod_mod_cancel)
qed simp

subsection \<open>Properties\<close>

text \<open>C33. The three fields that \<open>hinawa_cycle_time_get_fields\<close> stores into 16-bit elements are
  within 7, 13 and 12 bits and lose nothing: they recompose to the raw register value.\<close>

lemma cycle_time_fields_recompose:
  "case map unat (hinawa_cycle_time_get_fields self) of
     [sec, cyc, off] \<Rightarrow> sec < 128 \<and> cyc < 8192 \<and> off < 4096 \<and>
       unat (hinawa_cycle_time_get_raw self) = sec * 2 ^ 25 + cyc * 2 ^ 12 + off
   | _ \<Rightarrow> False"
proof -
  let ?x = "unat (cycle_timer self)"
  have "?x div 2 ^ 25 = ?x div 2 ^ 12 div 2 ^ 13"
    by (simp flip: div_mult2_eq)
  then have "?x div 2 ^ 25 * 2 ^ 13 + ?x div 2 ^ 12 mod 2 ^ 13 = ?x div 2 ^ 12"
    by (simp only: div_mult_mod_eq)
  then have "(?x div 2 ^ 25 * 2 ^ 13 + ?x div 2 ^ 12 mod 2 ^ 13) * 2 ^ 12 + ?x mod 2 ^ 12 = ?x"
    by (simp only: div_mult_mod_eq)
  then have "?x = ?x div 2 ^ 25 * 2 ^ 25 + ?x div 2 ^ 12 mod 2 ^ 13 * 2 ^ 12 + ?x mod 2 ^ 12"
    by (simp add: algebra_simps)
  moreover have "?x div 2 ^ 25 < 128"
    using to_sec_less [of "cycle_timer self"] by (simp only: unat_to_sec)
  ultimately show ?thesis
    unfolding get_fields_nth hinawa_cycle_time_get_raw_def by simp
qed

text \<open>A register value assembled from a second count below 128, a cycle count below 8000 and an
  offset below 3072 (the values of IEEE 1394) reads back as exactly these three fields.\<close>

lemma cycle_time_fields_of_register:
  assumes "sec < 128" and "cyc < 8000" and "off < 3072"
  shows "map unat (hinawa_cycle_time_get_fields
           (self\<lparr>cycle_timer := word_of_nat (sec * 2 ^ 25 + cyc * 2 ^ 12 + off)\<rparr>)) =
         [sec, cyc, off]"
proof -
  let ?n = "sec * 2 ^ 25 + cyc * 2 ^ 12 + off"
  have "?n < 2 ^ 32" using assms by simp
  then have x: "unat (word_of_nat ?n :: u32) = ?n"
    by (rule unat_u32_of_nat)
  have ct: "cycle_timer (self\<lparr>cycle_timer := v\<rparr>) = v" for v
    by simp
  have o: "?n mod 2 ^ 12 = off"
  proof -
    have "?n = (sec * 2 ^ 13 + cyc) * 2 ^ 12 + off" by simp
    then show ?thesis using assms by (simp only: mod_mult_self3) simp
  qed
  have c: "?n div 2 ^ 12 = sec * 2 ^ 13 + cyc"
    using assms by simp
  then have "?n div 2 ^ 12 mod 2 ^ 13 = cyc"
    using assms by (simp only: mod_mult_self3) simp
  moreover have "?n div 2 ^ 25 = sec"
    using assms by simp
  ultimately show ?thesis
    using o by (simp only: get_fields_nth x ct)
qed

text \<open>\<open>hinawa_cycle_time_parse_tstamp\<close> splits the low 16 bits of a time stamp into 3 bits of
  seconds and 13 bits of cycles without loss, and ignores the upper 16 bits.\<close>

lemma parse_tstamp_recompose:
  "case map unat (hinawa_cycle_time_parse_tstamp tstamp) of
     [sec, cyc] \<Rightarrow> sec < 8 \<and> cyc < 8192 \<and> unat tstamp mod 2 ^ 16 = sec * 2 ^ 13 + cyc
   | _ \<Rightarrow> False"
proof -
  have "unat tstamp mod (2 ^ 13 * 2 ^ 3) =
      2 ^ 13 * (unat tstamp div 2 ^ 13 mod 2 ^ 3) + unat tstamp mod 2 ^ 13"
    by (rule mod_mult2_eq)
  then show ?thesis
    unfolding parse_tstamp_numerals list.map drop_bit_0 id_apply
      unat_tstamp_sec unat_tstamp_cycle by simp
qed

text \<open>C32. \<open>hinawa_cycle_time_compute_tstamp\<close> yields the second count that its documentation promises
  exactly when every low bit set in the register's second count is also set in the time stamp;
  otherwise the stale bits survive the OR and the count is another one. The cycle count is always
  that of \<open>hinawa_cycle_time_parse_tstamp\<close>.\<close>

lemma compute_tstamp_correct_iff:
  fixes self tstamp
  defines "cur \<equiv> unat (ieee1394_cycle_time_to_sec (cycle_timer self))"
    and "low \<equiv> unat (hinawa_cycle_time_parse_tstamp tstamp ! 0)"
  shows "(tstamp_sec_spec cur low (unat (hinawa_cycle_time_compute_tstamp self tstamp ! 0)) \<longleftrightarrow>
           (cur mod 8) OR low = low) \<and>
         hinawa_cycle_time_compute_tstamp self tstamp ! 1 = hinawa_cycle_time_parse_tstamp tstamp ! 1"
proof
  have low: "low = unat tstamp div 2 ^ 13 mod 2 ^ 3"
    unfolding low_def parse_tstamp_numerals nth_Cons_0 by (rule unat_tstamp_sec)
  then have l8: "low < 8" by simp
  have or8: "(cur mod 8) OR low < 8" using l8 by (simp add: nat_or_less_8)
  show "tstamp_sec_spec cur low (unat (hinawa_cycle_time_compute_tstamp self tstamp ! 0)) \<longleftrightarrow>
      (cur mod 8) OR low = low"
    unfolding tstamp_sec_spec_iff [OF l8]
      unat_compute_tstamp_sec [of self tstamp, folded cur_def low]
    by (rule compute_tstamp_low_bits [OF or8 l8])
qed (simp add: compute_tstamp_numerals parse_tstamp_numerals Let_def)

end
