(* ===== verification/Fw_Cdev.thy ===== *)
theory Fw_Cdev
  imports Hinawa_Types Cycle_Time
begin

text \<open>
  The interface of the FireWire character device (\<open>include/linux/firewire-cdev.h\<close>): the
  structures of the events read from the device and of the arguments of the ioctl requests the
  library issues. A closure is the address of the object that issued the request (\<open>obj_id\<close>).

  The variable-length member \<open>data\<close> of an event is the list of the bytes from that member to the
  end of the buffer the event was read into; the event's \<open>length\<close> member says how many of them
  belong to the event. A payload pointer of an ioctl argument is the byte buffer it points to,
  \<open>None\<close> for the null pointer.

  The kernel is a parameter: \<open>sys_ioctl\<close> answers an ioctl on a descriptor with an errno value
  (\<open>Inl\<close>) or with the argument as the kernel left it (\<open>Inr\<close>). POSIX promises that errno is
  positive (\<open>errno_ok\<close>).
\<close>

type_synonym obj_id = u64

subsection \<open>Events\<close>

record fw_cdev_event_bus_reset =
  br_closure :: obj_id
  br_node_id :: u32
  br_local_node_id :: u32
  br_bm_node_id :: u32
  br_irm_node_id :: u32
  br_root_node_id :: u32
  br_generation :: u32

record fw_cdev_event_response =
  rs_closure :: obj_id
  rs_rcode :: u32
  rs_length :: u32
  rs_data :: bytes

record fw_cdev_event_response2 =
  rs2_closure :: obj_id
  rs2_rcode :: u32
  rs2_length :: u32
  rs2_request_tstamp :: u32
  rs2_response_tstamp :: u32
  rs2_data :: bytes

record fw_cdev_event_request =
  rq_closure :: obj_id
  rq_tcode :: u32
  rq_offset :: u64
  rq_handle :: u32
  rq_length :: u32
  rq_data :: bytes

record fw_cdev_event_request2 =
  rq2_closure :: obj_id
  rq2_tcode :: u32
  rq2_offset :: u64
  rq2_source_node_id :: u32
  rq2_destination_node_id :: u32
  rq2_card :: u32
  rq2_generation :: u32
  rq2_handle :: u32
  rq2_length :: u32
  rq2_data :: bytes

record fw_cdev_event_request3 =
  rq3_closure :: obj_id
  rq3_tcode :: u32
  rq3_offset :: u64
  rq3_source_node_id :: u32
  rq3_destination_node_id :: u32
  rq3_card :: u32
  rq3_generation :: u32
  rq3_handle :: u32
  rq3_length :: u32
  rq3_tstamp :: u32
  rq3_data :: bytes

text \<open>The union, tagged by the member \<open>common.type\<close>; the types the library does not handle
  share one constructor.\<close>

datatype fw_cdev_event =
    FW_CDEV_EVENT_BUS_RESET fw_cdev_event_bus_reset
  | FW_CDEV_EVENT_RESPONSE fw_cdev_event_response
  | FW_CDEV_EVENT_REQUEST fw_cdev_event_request
  | FW_CDEV_EVENT_REQUEST2 fw_cdev_event_request2
  | FW_CDEV_EVENT_REQUEST3 fw_cdev_event_request3
  | FW_CDEV_EVENT_RESPONSE2 fw_cdev_event_response2
  | FW_CDEV_EVENT_OTHER obj_id u32

primrec event_closure :: "fw_cdev_event \<Rightarrow> obj_id" where
  "event_closure (FW_CDEV_EVENT_BUS_RESET e) = br_closure e"
| "event_closure (FW_CDEV_EVENT_RESPONSE e) = rs_closure e"
| "event_closure (FW_CDEV_EVENT_REQUEST e) = rq_closure e"
| "event_closure (FW_CDEV_EVENT_REQUEST2 e) = rq2_closure e"
| "event_closure (FW_CDEV_EVENT_REQUEST3 e) = rq3_closure e"
| "event_closure (FW_CDEV_EVENT_RESPONSE2 e) = rs2_closure e"
| "event_closure (FW_CDEV_EVENT_OTHER c t) = c"

subsection \<open>Arguments of ioctl requests\<close>

record fw_cdev_get_info =
  gi_version :: u32
  gi_rom_length :: u32
  gi_bus_reset_closure :: obj_id

text \<open>What the kernel hands back for \<open>FW_CDEV_IOC_GET_INFO\<close>: the bytes copied to the buffer
  for the configuration ROM, the length of that ROM, the state of the bus, the card.\<close>

record fw_cdev_info_reply =
  ir_rom :: bytes
  ir_rom_length :: u32
  ir_bus_reset :: fw_cdev_event_bus_reset
  ir_card :: u32

record fw_cdev_send_request =
  sr_tcode :: u32
  sr_length :: u32
  sr_offset :: u64
  sr_closure :: obj_id
  sr_data :: "bytes option"
  sr_generation :: u32

record fw_cdev_send_response =
  sp_rcode :: u32
  sp_length :: u32
  sp_data :: "bytes option"
  sp_handle :: u32

record fw_cdev_allocate =
  al_offset :: u64
  al_closure :: obj_id
  al_length :: u32
  al_handle :: u32
  al_region_end :: u64

record fw_cdev_deallocate =
  de_handle :: u32

datatype fw_ioctl =
    FW_CDEV_IOC_SEND_REQUEST fw_cdev_send_request
  | FW_CDEV_IOC_ALLOCATE fw_cdev_allocate
  | FW_CDEV_IOC_DEALLOCATE fw_cdev_deallocate
  | FW_CDEV_IOC_SEND_RESPONSE fw_cdev_send_response
  | FW_CDEV_IOC_GET_CYCLE_TIMER2 HinawaCycleTime

text \<open>Reading back the argument the caller passed by address.\<close>

fun allocate_arg :: "fw_cdev_allocate \<Rightarrow> fw_ioctl \<Rightarrow> fw_cdev_allocate" where
  "allocate_arg a (FW_CDEV_IOC_ALLOCATE a') = a'"
| "allocate_arg a _ = a"

fun cycle_timer2_arg :: "HinawaCycleTime \<Rightarrow> fw_ioctl \<Rightarrow> HinawaCycleTime" where
  "cycle_timer2_arg t (FW_CDEV_IOC_GET_CYCLE_TIMER2 t') = t'"
| "cycle_timer2_arg t _ = t"

subsection \<open>The kernel\<close>

type_synonym sys_ioctl = "int \<Rightarrow> fw_ioctl \<Rightarrow> int + fw_ioctl"

type_synonym sys_get_info = "int \<Rightarrow> fw_cdev_get_info \<Rightarrow> int + fw_cdev_info_reply"

definition errno_ok :: "sys_ioctl \<Rightarrow> bool" where
  "errno_ok K \<longleftrightarrow> (\<forall>fd a e. K fd a = Inl e \<longrightarrow> 0 < e)"

lemma errno_okD: "errno_ok K \<Longrightarrow> K fd a = Inl e \<Longrightarrow> 0 < e"
  by (auto simp: errno_ok_def)

text \<open>Two concrete kernels: one that grants every request as it is, one that fails every request
  with the same errno.\<close>

definition granting_kernel :: sys_ioctl where
  "granting_kernel fd a = Inr a"

definition failing_kernel :: "int \<Rightarrow> sys_ioctl" where
  "failing_kernel e fd a = Inl e"

lemma errno_ok_granting: "errno_ok granting_kernel"
  by (simp add: errno_ok_def granting_kernel_def)

lemma errno_ok_failing: "0 < e \<Longrightarrow> errno_ok (failing_kernel e)"
  by (simp add: errno_ok_def failing_kernel_def)

end
