(* ===== verification/Hinawa_Interfaces.thy ===== *)
theory Hinawa_Interfaces
  imports Fw_Cdev "HOL-Library.Multiset"
begin

text \<open>
  The contracts between the components, as locales. Each is interpreted on the model's definitions
  in the theory of the component that provides the operations.

  \<^item> \<open>request_registry\<close>: the list of outstanding requests a node keeps, seen as a multiset.
  \<^item> \<open>cdev_ioctl\<close>: what callers of the node's ioctl wrapper may rely on.
  \<^item> \<open>record_history\<close>: a memory of the records inserted most recently, of fixed capacity.
  \<^item> \<open>responder\<close>: a handler of incoming requests which answers every event with exactly one
    response.
\<close>

subsection \<open>Outstanding requests\<close>

locale request_registry =
  fixes pending :: "'s \<Rightarrow> 'r multiset"
    and register :: "'r \<Rightarrow> 's \<Rightarrow> 's"
    and forget :: "'r \<Rightarrow> 's \<Rightarrow> 's"
    and known :: "'r \<Rightarrow> 's \<Rightarrow> bool"
  assumes pending_register: "pending (register r s) = add_mset r (pending s)"
    and pending_forget: "pending (forget r s) = pending s - {#r#}"
    and known_iff: "known r s \<longleftrightarrow> r \<in># pending s"
begin

lemma known_registered: "known r (register r s)"
  by (simp add: known_iff pending_register)

lemma forget_register: "pending (forget r (register r s)) = pending s"
  by (simp add: pending_forget pending_register)

lemma known_forget_other: "q \<noteq> r \<Longrightarrow> known q (forget r s) \<longleftrightarrow> known q s"
  by (simp add: known_iff pending_forget in_diff_count)

lemma known_register_other: "q \<noteq> r \<Longrightarrow> known q (register r s) \<longleftrightarrow> known q s"
  by (simp add: known_iff pending_register)

lemma forget_unknown: "\<not> known r s \<Longrightarrow> pending (forget r s) = pending s"
  by (simp add: known_iff pending_forget diff_single_trivial)

text \<open>A request registered \<open>n\<close> times is known until it was forgotten \<open>n\<close> times.\<close>

lemma pending_forget_times: "pending ((forget r ^^ n) s) = pending s - replicate_mset n r"
proof (induction n)
  case 0
  then show ?case by simp
next
  case (Suc n)
  then show ?case by (simp add: pending_forget diff_add_mset_swap flip: diff_diff_add)
qed

lemma pending_register_times: "pending ((register r ^^ n) s) = pending s + replicate_mset n r"
  by (induction n) (simp_all add: pending_register)

lemma known_after_times:
  assumes "\<not> known r s"
  shows "known r ((forget r ^^ m) ((register r ^^ n) s)) \<longleftrightarrow> m < n"
proof -
  have "count (pending s) r = 0"
    using assms by (simp add: known_iff count_eq_zero_iff)
  then have "count (pending ((forget r ^^ m) ((register r ^^ n) s))) r = n - m"
    by (simp add: pending_forget_times pending_register_times)
  then show ?thesis
    unfolding known_iff count_greater_zero_iff [symmetric] by simp
qed

end

subsection \<open>The ioctl wrapper\<close>

locale cdev_ioctl =
  fixes ioctl :: "sys_ioctl \<Rightarrow> 'n option \<Rightarrow> fw_ioctl \<Rightarrow> gerror_ptr \<Rightarrow>
    int \<times> fw_ioctl \<times> 'n option \<times> gerror_ptr \<times> fw_ioctl list"
  assumes ret_nonneg: "errno_ok K \<Longrightarrow> ioctl K n a p = (r, a', n', p', io) \<Longrightarrow> 0 \<le> r"
    and null_error: "ioctl K n a NullErr = (r, a', n', p', io) \<Longrightarrow> r \<noteq> 0 \<and> p' = NullErr \<and> io = []"
    and reports_kept: "ioctl K n a (Err stored) = (r, a', n', p', io) \<Longrightarrow>
      \<exists>stored'. p' = Err stored' \<and> (stored \<noteq> None \<or> errno_ok K \<and> r = 0 \<longrightarrow> stored' = stored)"
    and same_arg_on_failure: "ioctl K n a p = (r, a', n', p', io) \<Longrightarrow> r \<noteq> 0 \<Longrightarrow> a' = a"
    and issued_once: "ioctl K n a p = (r, a', n', p', io) \<Longrightarrow> io = [] \<or> io = [a]"
begin

text \<open>No caller ever sees a negative result.\<close>

lemma never_negative: "errno_ok K \<Longrightarrow> \<not> fst (ioctl K n a p) < 0"
  by (cases "ioctl K n a p") (auto dest: ret_nonneg)

text \<open>A result of 0 means that the request was accepted and that nothing was reported.\<close>

lemma success_silent:
  assumes "errno_ok K" and "ioctl K n a p = (0, a', n', p', io)"
  shows "p' = p \<and> p \<noteq> NullErr"
proof (cases p)
  case NullErr
  with assms(2) show ?thesis by (auto dest: null_error)
next
  case (Err stored)
  with assms reports_kept [of K n a stored 0 a' n' p' io] show ?thesis by auto
qed

lemma null_stays_null: "ioctl K n a NullErr = (r, a', n', p', io) \<Longrightarrow> p' = NullErr"
  by (auto dest: null_error)

end

subsection \<open>Answering requests\<close>

text \<open>A response declares no more bytes than the buffer it points to holds, none without a buffer.\<close>

definition response_payload_ok :: "fw_cdev_send_response \<Rightarrow> bool" where
  "response_payload_ok r \<longleftrightarrow>
     (case sp_data r of None \<Rightarrow> sp_length r = 0 | Some d \<Rightarrow> unat (sp_length r) \<le> length d)"

text \<open>A sequence of events handled one after the other, with the ioctl requests issued.\<close>

primrec handle_events ::
    "('e \<Rightarrow> 's \<Rightarrow> ('s \<times> fw_ioctl list) run) \<Rightarrow> 'e list \<Rightarrow> 's \<Rightarrow> ('s \<times> fw_ioctl list) run" where
  "handle_events handle [] s = Ret (s, [])"
| "handle_events handle (e # es) s =
     bind_run (handle e s) (\<lambda>(s, io).
     bind_run (handle_events handle es s) (\<lambda>(s, io'). Ret (s, io @ io')))"

locale responder =
  fixes handle :: "'h \<Rightarrow> 'e \<Rightarrow> 's \<Rightarrow> ('s \<times> fw_ioctl list) run"
    and handler_ok :: "'h \<Rightarrow> bool"
    and serving :: "'s \<Rightarrow> bool"
    and handle_of :: "'e \<Rightarrow> u32"
  assumes answers: "handler_ok h \<Longrightarrow> serving s \<Longrightarrow>
    \<exists>s' r. handle h e s = Ret (s', [FW_CDEV_IOC_SEND_RESPONSE r]) \<and> serving s' \<and>
      sp_handle r = handle_of e \<and> response_payload_ok r"
begin

text \<open>Every event of a sequence is answered exactly once, in order.\<close>

lemma answers_all:
  assumes "handler_ok h" and "serving s"
  shows "\<exists>s' rs. handle_events (handle h) es s = Ret (s', map FW_CDEV_IOC_SEND_RESPONSE rs) \<and>
    serving s' \<and> map sp_handle rs = map handle_of es \<and> list_all response_payload_ok rs"
  using assms(2)
proof (induction es arbitrary: s)
  case Nil
  then show ?case by simp
next
  case (Cons e es)
  from answers [OF assms(1) Cons.prems, of e] obtain s' r where
    r: "handle h e s = Ret (s', [FW_CDEV_IOC_SEND_RESPONSE r])" "serving s'"
      "sp_handle r = handle_of e" "response_payload_ok r" by blast
  from Cons.IH [OF r(2)] obtain s'' rs where
    rs: "handle_events (handle h) es s' = Ret (s'', map FW_CDEV_IOC_SEND_RESPONSE rs)" "serving s''"
      "map sp_handle rs = map handle_of es" "list_all response_payload_ok rs" by blast
  from r rs show ?case by (intro exI [of _ s''] exI [of _ "r # rs"]) simp
qed

end

subsection \<open>Recently inserted records\<close>

text \<open>Inserting a record that is not there forgets the oldest one; inserting one that is there
  changes nothing (it does not become the newest).\<close>

definition remember :: "nat \<Rightarrow> 'r \<Rightarrow> 'r list \<Rightarrow> 'r list" where
  "remember n r rs = (if r \<in> set rs then rs else take n (r # rs))"

locale record_history =
  fixes capacity :: nat
    and valid :: "'s \<Rightarrow> bool"
    and view :: "'s \<Rightarrow> 'r list"
    and insert_record :: "'r \<Rightarrow> 's \<Rightarrow> 's run"
    and detect_record :: "'r \<Rightarrow> 's \<Rightarrow> bool run"
  assumes capacity_pos: "0 < capacity"
    and view_length: "valid s \<Longrightarrow> length (view s) = capacity"
    and detects: "valid s \<Longrightarrow> detect_record r s = Ret (r \<in> set (view s))"
    and inserts: "valid s \<Longrightarrow> \<exists>s'. insert_record r s = Ret s' \<and> valid s' \<and>
      view s' = remember capacity r (view s)"
begin

lemma detected_after_insert:
  assumes "valid s"
  shows "bind_run (insert_record r s) (detect_record r) = Ret True"
proof -
  obtain s' where s': "insert_record r s = Ret s'" "valid s'" "view s' = remember capacity r (view s)"
    using inserts [OF assms] by blast
  have "r \<in> set (view s')"
    using capacity_pos by (cases capacity) (auto simp: s'(3) remember_def)
  with s' detects show ?thesis by simp
qed

text \<open>A whole sequence of insertions, oldest first.\<close>

lemma insert_sequence:
  assumes "valid s"
  shows "\<exists>s'. foldl (\<lambda>m r. bind_run m (insert_record r)) (Ret s) rs = Ret s' \<and> valid s' \<and>
    view s' = fold (remember capacity) rs (view s)"
  using assms
proof (induction rs arbitrary: s)
  case Nil
  then show ?case by simp
next
  case (Cons r rs)
  obtain s' where "insert_record r s = Ret s'" "valid s'" "view s' = remember capacity r (view s)"
    using inserts [OF Cons.prems] by blast
  with Cons.IH [of s'] show ?case by simp
qed

text \<open>A record newly inserted survives fewer further insertions than the capacity.\<close>

lemma survives:
  assumes "length rs < capacity" and "r \<in> set (take k xs)" and "k + length rs \<le> capacity"
  shows "r \<in> set (fold (remember capacity) rs xs)"
  using assms
proof (induction rs arbitrary: xs k)
  case Nil
  then show ?case by (auto dest: in_set_takeD)
next
  case (Cons q rs)
  show ?case
  proof (cases "q \<in> set xs")
    case True
    then have "remember capacity q xs = xs" by (simp add: remember_def)
    with Cons.prems Cons.IH [of k xs] show ?thesis by simp
  next
    case False
    have "Suc k \<le> capacity" using Cons.prems by simp
    then have "take (Suc k) (take capacity (q # xs)) = q # take k xs"
      by (simp add: min_def)
    with Cons.prems have "r \<in> set (take (Suc k) (remember capacity q xs))"
      using False by (simp add: remember_def)
    with Cons.prems Cons.IH [of "Suc k" "remember capacity q xs"] show ?thesis by simp
  qed
qed

end

end
