(* ===== verification/Config_Rom.thy ===== *)
theory Config_Rom
  imports Hinawa_Prelude
begin

unbundle bit_operations_syntax

text \<open>
  The byte order of the configuration ROM (\<open>update_info\<close> of \<open>src/fw_node.c\<close>). The kernel copies
  the ROM as an array of 32-bit quadlets in the byte order of the host; the loop of \<open>update_info\<close>
  rewrites each quadlet with \<open>GUINT32_TO_BE\<close>, so that the byte image is big-endian. The byte
  order of the host (\<open>G_BYTE_ORDER\<close>) is the parameter \<open>le\<close>: true for little-endian.
\<close>

definition be_bytes :: "u32 \<Rightarrow> bytes" where
  "be_bytes w = [ucast (drop_bit 24 w), ucast (drop_bit 16 w), ucast (drop_bit 8 w), ucast w]"

text \<open>The bytes of a quadlet stored by the host, and the quadlet loaded from four bytes.\<close>

definition host_bytes :: "bool \<Rightarrow> u32 \<Rightarrow> bytes" where
  "host_bytes le w = (if le then rev (be_bytes w) else be_bytes w)"

fun of_be_bytes :: "bytes \<Rightarrow> u32" where
  "of_be_bytes [a, b, c, d] =
     push_bit 24 (ucast a) OR push_bit 16 (ucast b) OR push_bit 8 (ucast c) OR ucast d"
| "of_be_bytes _ = 0"

definition of_host_bytes :: "bool \<Rightarrow> bytes \<Rightarrow> u32" where
  "of_host_bytes le bs = of_be_bytes (if le then rev bs else bs)"

definition GUINT32_TO_BE :: "bool \<Rightarrow> u32 \<Rightarrow> u32" where
  "GUINT32_TO_BE le w = (if le then of_be_bytes (rev (be_bytes w)) else w)"

text \<open>\<open>rom[i] = GUINT32_TO_BE(rom[i])\<close> on the byte array, faulting outside it.\<close>

definition rom_quadlet_to_be :: "bool \<Rightarrow> bytes \<Rightarrow> nat \<Rightarrow> bytes run" where
  "rom_quadlet_to_be le rom i =
     (if 4 * i + 4 \<le> length rom
      then Ret (take (4 * i) rom @
                host_bytes le (GUINT32_TO_BE le (of_host_bytes le (take 4 (drop (4 * i) rom)))) @
                drop (4 * i + 4) rom)
      else Fault Out_Of_Bounds)"

text \<open>The loop \<open>for (i = 0; i < quads; ++i)\<close>, with the number of rounds left as first argument.\<close>

primrec rom_to_be :: "bool \<Rightarrow> nat \<Rightarrow> nat \<Rightarrow> bytes \<Rightarrow> bytes run" where
  "rom_to_be le 0 i rom = Ret rom"
| "rom_to_be le (Suc n) i rom =
     bind_run (rom_quadlet_to_be le rom i) (\<lambda>rom'. rom_to_be le n (Suc i) rom')"

subsection \<open>Quadlets and bytes\<close>

lemma length_be_bytes [simp]: "length (be_bytes w) = 4"
  by (simp add: be_bytes_def)

lemma length_host_bytes [simp]: "length (host_bytes le w) = 4"
  by (simp add: host_bytes_def)

lemma of_be_bytes_be_bytes [simp]: "of_be_bytes (be_bytes w) = w"
proof (rule bit_word_eqI)
  fix n assume "n < LENGTH(32)"
  then consider "n < 8" | "8 \<le> n" "n < 16" | "16 \<le> n" "n < 24" | "24 \<le> n" "n < 32"
    by fastforce
  then show "bit (of_be_bytes (be_bytes w)) n \<longleftrightarrow> bit w n"
    by cases (auto simp: be_bytes_def bit_simps)
qed

lemma bit_u8_out: "8 \<le> n \<Longrightarrow> \<not> bit (b :: u8) n"
  using bit_imp_le_length [of b n] by auto

lemma be_bytes_of_be_bytes: "length bs = 4 \<Longrightarrow> be_bytes (of_be_bytes bs) = bs"
  by (cases bs rule: of_be_bytes.cases)
     (auto simp: be_bytes_def bit_simps bit_u8_out intro!: bit_word_eqI)

lemma of_host_bytes_host_bytes [simp]: "of_host_bytes le (host_bytes le w) = w"
  by (simp add: of_host_bytes_def host_bytes_def)

text \<open>Storing the converted quadlet stores the big-endian bytes, whatever the host.\<close>

lemma host_bytes_to_be [simp]: "host_bytes le (GUINT32_TO_BE le w) = be_bytes w"
  by (simp add: host_bytes_def GUINT32_TO_BE_def be_bytes_of_be_bytes)

subsection \<open>The loop\<close>

lemma rom_quadlet_to_be_at:
  "length pre = 4 * i \<Longrightarrow>
   rom_quadlet_to_be le (pre @ host_bytes le q @ post) i = Ret (pre @ be_bytes q @ post)"
  by (simp add: rom_quadlet_to_be_def)

lemma rom_to_be_quadlets:
  "length pre = 4 * i \<Longrightarrow>
   rom_to_be le (length qs) i (pre @ concat (map (host_bytes le) qs) @ post) =
     Ret (pre @ concat (map be_bytes qs) @ post)"
proof (induction qs arbitrary: pre i)
  case Nil
  then show ?case by simp
next
  case (Cons q qs)
  have "rom_to_be le (length qs) (Suc i)
          ((pre @ be_bytes q) @ concat (map (host_bytes le) qs) @ post) =
        Ret ((pre @ be_bytes q) @ concat (map be_bytes qs) @ post)"
    using Cons.prems by (intro Cons.IH) simp
  then show ?case
    using rom_quadlet_to_be_at [OF Cons.prems, of le q "concat (map (host_bytes le) qs) @ post"]
    by simp
qed

lemma rom_quadlet_to_be_ok:
  "4 * i + 4 \<le> length rom \<Longrightarrow>
   \<exists>rom'. rom_quadlet_to_be le rom i = Ret rom' \<and> length rom' = length rom"
  by (simp add: rom_quadlet_to_be_def)

text \<open>The loop stays inside the buffer exactly when the buffer has room for the quadlets.\<close>

lemma rom_to_be_no_fault:
  "4 * (i + n) \<le> length rom \<Longrightarrow>
   \<exists>rom'. rom_to_be le n i rom = Ret rom' \<and> length rom' = length rom"
proof (induction n arbitrary: i rom)
  case 0
  then show ?case by simp
next
  case (Suc n)
  then obtain rom' where r: "rom_quadlet_to_be le rom i = Ret rom'" "length rom' = length rom"
    using rom_quadlet_to_be_ok [of i rom le] by auto
  with Suc.prems have "4 * (Suc i + n) \<le> length rom'" by simp
  from Suc.IH [OF this] r show ?case by auto
qed

lemma rom_to_be_fault:
  "length rom < 4 * (i + n) \<Longrightarrow> 0 < n \<Longrightarrow> rom_to_be le n i rom = Fault Out_Of_Bounds"
proof (induction n arbitrary: i rom)
  case 0
  then show ?case by simp
next
  case (Suc n)
  show ?case
  proof (cases "4 * i + 4 \<le> length rom")
    case True
    then obtain rom' where r: "rom_quadlet_to_be le rom i = Ret rom'" "length rom' = length rom"
      using rom_quadlet_to_be_ok [of i rom le] by auto
    with Suc.prems True have "length rom' < 4 * (Suc i + n)" and "0 < n" by auto
    from Suc.IH [OF this] r show ?thesis by simp
  next
    case False
    then show ?thesis by (simp add: rom_quadlet_to_be_def)
  qed
qed

end
