(* ===== verification/Fw_Node.thy ===== *)
theory Fw_Node
  imports Hinawa_Interfaces Config_Rom
begin

text \<open>
  The class \<open>HinawaFwNode\<close> (\<open>src/fw_node.c\<close>) but for its event source, which \<open>Fw_Dispatch\<close>
  models: the node's private state, opening the character device, the cached information about the
  bus and the configuration ROM, the ioctl wrapper the other classes use, and the list of
  outstanding requests.

  Operations take the state and return it updated. System calls are parameters: \<open>sys_open\<close> and
  \<open>sys_get_info\<close> here, \<open>sys_ioctl\<close> for the rest. A pointer that may fail the run-time type check
  \<open>HINAWA_IS_FW_NODE\<close> is an \<open>option\<close>. The wrapper also returns the ioctl requests issued on
  the descriptor.
\<close>

subsection \<open>State\<close>

definition MAX_CONFIG_ROM_LENGTH :: nat where
  "MAX_CONFIG_ROM_LENGTH = 256 * 4"

record HinawaFwNode =
  fd :: int
  config_rom :: bytes
  config_rom_length :: u64
  generation :: fw_cdev_event_bus_reset
  card_id :: u32
  transactions :: "obj_id list"

text \<open>\<open>g_object_new\<close> clears the private structure, then \<open>hinawa_fw_node_init\<close> runs.\<close>

definition hinawa_fw_node_init :: HinawaFwNode where
  "hinawa_fw_node_init =
     \<lparr>fd = -1, config_rom = replicate MAX_CONFIG_ROM_LENGTH 0, config_rom_length = 0,
      generation = \<lparr>br_closure = 0, br_node_id = 0, br_local_node_id = 0, br_bm_node_id = 0,
        br_irm_node_id = 0, br_root_node_id = 0, br_generation = 0\<rparr>,
      card_id = 0, transactions = []\<rparr>"

text \<open>The descriptors closed when the object is finalized.\<close>

definition fw_node_finalize :: "HinawaFwNode \<Rightarrow> int list" where
  "fw_node_finalize self = (if 0 \<le> fd self then [fd self] else [])"

datatype fw_node_prop_type =
    FW_NODE_PROP_TYPE_NODE_ID
  | FW_NODE_PROP_TYPE_LOCAL_NODE_ID
  | FW_NODE_PROP_TYPE_BUS_MANAGER_NODE_ID
  | FW_NODE_PROP_TYPE_IR_MANAGER_NODE_ID
  | FW_NODE_PROP_TYPE_ROOT_NODE_ID
  | FW_NODE_PROP_TYPE_GENERATION
  | FW_NODE_PROP_TYPE_CARD_ID
  | FW_NODE_PROP_TYPE_COUNT

primrec fw_node_get_property :: "HinawaFwNode \<Rightarrow> fw_node_prop_type \<Rightarrow> u32 option" where
  "fw_node_get_property self FW_NODE_PROP_TYPE_NODE_ID = Some (br_node_id (generation self))"
| "fw_node_get_property self FW_NODE_PROP_TYPE_LOCAL_NODE_ID =
     Some (br_local_node_id (generation self))"
| "fw_node_get_property self FW_NODE_PROP_TYPE_BUS_MANAGER_NODE_ID =
     Some (br_bm_node_id (generation self))"
| "fw_node_get_property self FW_NODE_PROP_TYPE_IR_MANAGER_NODE_ID =
     Some (br_irm_node_id (generation self))"
| "fw_node_get_property self FW_NODE_PROP_TYPE_ROOT_NODE_ID =
     Some (br_root_node_id (generation self))"
| "fw_node_get_property self FW_NODE_PROP_TYPE_GENERATION =
     Some (br_generation (generation self))"
| "fw_node_get_property self FW_NODE_PROP_TYPE_CARD_ID = Some (card_id self)"
| "fw_node_get_property self FW_NODE_PROP_TYPE_COUNT = None"

subsection \<open>Error reports\<close>

fun node_err_msgs :: "HinawaFwNodeError \<Rightarrow> string" where
  "node_err_msgs HINAWA_FW_NODE_ERROR_DISCONNECTED =
     ''The associated node is not available for communication''"
| "node_err_msgs HINAWA_FW_NODE_ERROR_OPENED = ''The instance is already associated to node''"
| "node_err_msgs HINAWA_FW_NODE_ERROR_NOT_OPENED = ''The instance is not associated to node''"
| "node_err_msgs HINAWA_FW_NODE_ERROR_FAILED = ''''"

definition node_local_error :: "HinawaFwNodeError \<Rightarrow> gerror" where
  "node_local_error code =
     \<lparr>error_code = FW_NODE_ERROR code, error_message = Literal (node_err_msgs code)\<rparr>"

definition node_file_error :: "int \<Rightarrow> string \<Rightarrow> gerror" where
  "node_file_error code path =
     \<lparr>error_code = FILE_ERROR code, error_message = Literal (''open('' @ path @ '')'')\<rparr>"

definition node_syscall_error :: "int \<Rightarrow> string \<Rightarrow> gerror" where
  "node_syscall_error err_no call =
     \<lparr>error_code = FW_NODE_ERROR HINAWA_FW_NODE_ERROR_FAILED,
      error_message = With_Errno call err_no\<rparr>"

subsection \<open>Opening the character device\<close>

text \<open>\<open>le\<close>: the byte order of the host; \<open>self\<close>: the address of the object.\<close>

definition info_request :: "obj_id \<Rightarrow> fw_cdev_get_info" where
  "info_request self =
     \<lparr>gi_version = 6, gi_rom_length = word_of_nat MAX_CONFIG_ROM_LENGTH,
      gi_bus_reset_closure = self\<rparr>"

definition update_info ::
    "bool \<Rightarrow> sys_get_info \<Rightarrow> obj_id \<Rightarrow> HinawaFwNode \<Rightarrow> (int \<times> HinawaFwNode) run" where
  "update_info le KI self priv =
     (case KI (fd priv) (info_request self) of
        Inl e \<Rightarrow> Ret (e, priv)
      | Inr reply \<Rightarrow>
          bind_run (memcpy (config_rom priv) (ir_rom reply) (length (ir_rom reply))) (\<lambda>rom.
          let quads = (ir_rom_length reply + 3) div 4
          in bind_run (rom_to_be le (unat quads) 0 rom) (\<lambda>rom.
               Ret (0, priv\<lparr>config_rom := rom, config_rom_length := ucast (ir_rom_length reply),
                            generation := ir_bus_reset reply, card_id := ir_card reply\<rparr>))))"

text \<open>\<open>sys_open path flag\<close> is the descriptor or, on failure, errno; \<open>file_error\<close> is
  \<open>g_file_error_from_errno\<close> with \<open>None\<close> for \<open>G_FILE_ERROR_FAILED\<close>. The last component of the
  result lists the descriptors closed.\<close>

type_synonym sys_open = "string \<Rightarrow> int \<Rightarrow> int + int"

definition hinawa_fw_node_open ::
    "bool \<Rightarrow> sys_open \<Rightarrow> sys_get_info \<Rightarrow> (int \<Rightarrow> int option) \<Rightarrow> obj_id \<Rightarrow> HinawaFwNode \<Rightarrow>
     string option \<Rightarrow> int \<Rightarrow> gerror_ptr \<Rightarrow> (bool \<times> HinawaFwNode \<times> gerror_ptr \<times> int list) run" where
  "hinawa_fw_node_open le SO KI file_error self priv path open_flag error =
     (case path of
        None \<Rightarrow> Ret (False, priv, error, [])
      | Some path \<Rightarrow>
        if path = [] \<or> \<not> error_unset error then Ret (False, priv, error, [])
        else if 0 \<le> fd priv then
          Ret (False, priv, g_set_error error (node_local_error HINAWA_FW_NODE_ERROR_OPENED), [])
        else
          (case SO path (or open_flag 0) of
            Inl errno \<Rightarrow>
              Ret (False, priv\<lparr>fd := -1\<rparr>,
                g_set_error error
                  (if errno = ENODEV then node_local_error HINAWA_FW_NODE_ERROR_DISCONNECTED
                   else (case file_error errno of
                           Some code \<Rightarrow> node_file_error code path
                         | None \<Rightarrow> node_syscall_error errno (''open('' @ path @ '')''))),
                [])
          | Inr d \<Rightarrow>
              bind_run (update_info le KI self (priv\<lparr>fd := d\<rparr>)) (\<lambda>(err, priv).
              if 0 < err then
                Ret (False, priv\<lparr>fd := -1\<rparr>,
                  g_set_error error
                    (if err = ENODEV then node_local_error HINAWA_FW_NODE_ERROR_DISCONNECTED
                     else node_syscall_error err ''ioctl(FW_CDEV_IOC_GET_INFO)''),
                  [fd priv])
              else Ret (True, priv, error, []))))"

text \<open>The image is returned with the length; \<open>image_ok\<close> and \<open>length_ok\<close> say whether the two output
  pointers are non-null.\<close>

definition hinawa_fw_node_get_config_rom ::
    "HinawaFwNode \<Rightarrow> bool \<Rightarrow> bool \<Rightarrow> gerror_ptr \<Rightarrow> bool \<times> (bytes \<times> u64) option \<times> gerror_ptr" where
  "hinawa_fw_node_get_config_rom priv image_ok length_ok error =
     (if \<not> image_ok \<or> \<not> length_ok \<or> \<not> error_unset error then (False, None, error)
      else if fd priv < 0 then
        (False, None, g_set_error error (node_local_error HINAWA_FW_NODE_ERROR_NOT_OPENED))
      else (True, Some (config_rom priv, config_rom_length priv), error))"

subsection \<open>Outstanding requests and the ioctl wrapper\<close>

definition register_transaction :: "obj_id \<Rightarrow> HinawaFwNode \<Rightarrow> HinawaFwNode" where
  "register_transaction req priv = priv\<lparr>transactions := req # transactions priv\<rparr>"

definition hinawa_fw_node_invalidate_transaction :: "obj_id \<Rightarrow> HinawaFwNode \<Rightarrow> HinawaFwNode" where
  "hinawa_fw_node_invalidate_transaction req priv =
     (if req \<in> set (transactions priv)
      then priv\<lparr>transactions := remove1 req (transactions priv)\<rparr>
      else priv)"

definition hinawa_fw_node_ioctl ::
    "sys_ioctl \<Rightarrow> HinawaFwNode option \<Rightarrow> fw_ioctl \<Rightarrow> gerror_ptr \<Rightarrow>
     int \<times> fw_ioctl \<times> HinawaFwNode option \<times> gerror_ptr \<times> fw_ioctl list" where
  "hinawa_fw_node_ioctl K self args error =
     (case self of
        None \<Rightarrow> (ENXIO, args, None, error, [])
      | Some priv \<Rightarrow>
        if error = NullErr then (EINVAL, args, Some priv, error, [])
        else if fd priv < 0 then
          (ENXIO, args, Some priv,
           g_set_error error (node_local_error HINAWA_FW_NODE_ERROR_NOT_OPENED), [])
        else
          let priv = (case args of
                        FW_CDEV_IOC_SEND_REQUEST data \<Rightarrow> register_transaction (sr_closure data) priv
                      | _ \<Rightarrow> priv)
          in (case K (fd priv) args of
               Inl errno \<Rightarrow>
                 (errno, args, Some priv,
                  (if errno = ENODEV
                   then g_set_error error (node_local_error HINAWA_FW_NODE_ERROR_DISCONNECTED)
                   else error), [args])
             | Inr args' \<Rightarrow> (0, args', Some priv, error, [args])))"

text \<open>\<open>cycle_time\<close> is the structure the output pointer leads to, \<open>None\<close> for a null pointer.\<close>

definition hinawa_fw_node_read_cycle_time ::
    "sys_ioctl \<Rightarrow> HinawaFwNode option \<Rightarrow> u32 \<Rightarrow> HinawaCycleTime option \<Rightarrow> gerror_ptr \<Rightarrow>
     (bool \<times> HinawaCycleTime option \<times> HinawaFwNode option \<times> gerror_ptr) run" where
  "hinawa_fw_node_read_cycle_time K self clock_id cycle_time error =
     (case cycle_time of
        None \<Rightarrow> Ret (False, None, self, error)
      | Some ct \<Rightarrow>
        let ct = ct\<lparr>clk_id := clock_id\<rparr>;
            (err, args, self, error, io) =
              hinawa_fw_node_ioctl K self (FW_CDEV_IOC_GET_CYCLE_TIMER2 ct) error;
            ct = cycle_timer2_arg ct args
        in if err < 0 then
             bind_run (deref_is_null error) (\<lambda>unset.
               Ret (err = 0, Some ct, self,
                    if unset then g_set_error error
                      (node_syscall_error err ''ioctl(FW_CDEV_IOC_GET_CYCLE_TIMER2)'')
                    else error))
           else Ret (err = 0, Some ct, self, error))"

text \<open>\<open>handle_update\<close> ignores a failure; its caller emits \<open>bus-update\<close> in any case.\<close>

definition handle_update ::
    "bool \<Rightarrow> sys_get_info \<Rightarrow> obj_id \<Rightarrow> HinawaFwNode \<Rightarrow> HinawaFwNode run" where
  "handle_update le KI self priv =
     bind_run (update_info le KI self priv) (\<lambda>(err, priv). Ret priv)"

subsection \<open>The contracts the node provides\<close>

interpretation node_reg: request_registry
  "\<lambda>n. mset (transactions n)" register_transaction hinawa_fw_node_invalidate_transaction
  "\<lambda>r n. r \<in> set (transactions n)"
  by unfold_locales
     (auto simp: register_transaction_def hinawa_fw_node_invalidate_transaction_def
       diff_single_trivial)

text \<open>The wrapper's result, branch by branch.\<close>

lemma node_ioctl_cases:
  assumes "hinawa_fw_node_ioctl K self a p = (r, a', self', p', io)"
  obtains (no_node) "self = None" "r = ENXIO" "a' = a" "self' = None" "p' = p" "io = []"
  | (no_slot) n where "self = Some n" "p = NullErr" "r = EINVAL" "a' = a" "self' = Some n"
      "p' = NullErr" "io = []"
  | (not_opened) n where "self = Some n" "p \<noteq> NullErr" "fd n < 0" "r = ENXIO" "a' = a"
      "self' = Some n" "p' = g_set_error p (node_local_error HINAWA_FW_NODE_ERROR_NOT_OPENED)"
      "io = []"
  | (failed) n e where "self = Some n" "p \<noteq> NullErr" "0 \<le> fd n" "K (fd n) a = Inl e" "r = e"
      "a' = a"
      "p' = (if e = ENODEV then g_set_error p (node_local_error HINAWA_FW_NODE_ERROR_DISCONNECTED)
             else p)" "io = [a]"
      "self' = Some (case a of FW_CDEV_IOC_SEND_REQUEST d \<Rightarrow> register_transaction (sr_closure d) n
                     | _ \<Rightarrow> n)"
  | (granted) n where "self = Some n" "p \<noteq> NullErr" "0 \<le> fd n" "K (fd n) a = Inr a'" "r = 0"
      "p' = p" "io = [a]"
      "self' = Some (case a of FW_CDEV_IOC_SEND_REQUEST d \<Rightarrow> register_transaction (sr_closure d) n
                     | _ \<Rightarrow> n)"
proof (cases self)
  case None
  with assms no_node show ?thesis by (simp add: hinawa_fw_node_ioctl_def)
next
  case (Some n)
  let ?n = "case a of FW_CDEV_IOC_SEND_REQUEST d \<Rightarrow> register_transaction (sr_closure d) n | _ \<Rightarrow> n"
  have fd: "fd ?n = fd n"
    by (simp add: register_transaction_def split: fw_ioctl.split)
  consider "p = NullErr" | "p \<noteq> NullErr" "fd n < 0" | "p \<noteq> NullErr" "0 \<le> fd n"
    by fastforce
  then show ?thesis
  proof cases
    case 1
    show ?thesis
      by (rule no_slot [of n]) (use assms Some 1 in \<open>simp_all add: hinawa_fw_node_ioctl_def\<close>)
  next
    case 2
    show ?thesis
      by (rule not_opened [of n]) (use assms Some 2 in \<open>simp_all add: hinawa_fw_node_ioctl_def\<close>)
  next
    case 3
    then have eq: "(r, a', self', p', io) =
        (case K (fd n) a of
           Inl e \<Rightarrow> (e, a, Some ?n, if e = ENODEV
             then g_set_error p (node_local_error HINAWA_FW_NODE_ERROR_DISCONNECTED) else p, [a])
         | Inr b \<Rightarrow> (0, b, Some ?n, p, [a]))"
      using assms Some fd by (simp add: hinawa_fw_node_ioctl_def Let_def)
    show ?thesis
    proof (cases "K (fd n) a")
      case (Inl e)
      show ?thesis by (rule failed [of n e]) (use eq Some 3 Inl in simp_all)
    next
      case (Inr b)
      show ?thesis by (rule granted [of n]) (use eq Some 3 Inr in simp_all)
    qed
  qed
qed

interpretation node_io: cdev_ioctl hinawa_fw_node_ioctl
proof unfold_locales
  fix K :: sys_ioctl and n a p r a' n' p' io
  assume io: "hinawa_fw_node_ioctl K n a p = (r, a', n', p', io)"
  show "0 \<le> r" if "errno_ok K"
    using io by (cases rule: node_ioctl_cases) (use that in \<open>auto dest: errno_okD\<close>)
  show "a' = a" if "r \<noteq> 0"
    using io that by (cases rule: node_ioctl_cases) auto
  show "io = [] \<or> io = [a]"
    using io by (cases rule: node_ioctl_cases) auto
next
  fix K :: sys_ioctl and n a r a' n' p' io
  assume "hinawa_fw_node_ioctl K n a NullErr = (r, a', n', p', io)"
  then show "r \<noteq> 0 \<and> p' = NullErr \<and> io = []"
    by (cases rule: node_ioctl_cases) auto
next
  fix K :: sys_ioctl and n a stored r a' n' p' io
  assume io: "hinawa_fw_node_ioctl K n a (Err stored) = (r, a', n', p', io)"
  from io show "\<exists>stored'. p' = Err stored' \<and> (stored \<noteq> None \<or> errno_ok K \<and> r = 0 \<longrightarrow> stored' = stored)"
  proof (cases rule: node_ioctl_cases)
    case (failed n e)
    have "errno_ok K \<Longrightarrow> e \<noteq> 0" using failed(4) by (auto dest: errno_okD)
    with failed show ?thesis by auto
  qed auto
qed

subsection \<open>Well-formed nodes\<close>

definition node_ok :: "HinawaFwNode \<Rightarrow> bool" where
  "node_ok n \<longleftrightarrow> length (config_rom n) = MAX_CONFIG_ROM_LENGTH \<and>
     unat (config_rom_length n) \<le> MAX_CONFIG_ROM_LENGTH \<and> -1 \<le> fd n"

text \<open>What the kernel documents of \<open>FW_CDEV_IOC_GET_INFO\<close>: it copies at most the length passed
  in, and no configuration ROM is longer than 256 quadlets; errno is positive.\<close>

definition info_ok :: "sys_get_info \<Rightarrow> bool" where
  "info_ok KI \<longleftrightarrow> (\<forall>d i. case KI d i of
       Inl e \<Rightarrow> 0 < e
     | Inr r \<Rightarrow> length (ir_rom r) \<le> unat (gi_rom_length i) \<and>
               unat (ir_rom_length r) \<le> MAX_CONFIG_ROM_LENGTH)"

definition open_ok :: "sys_open \<Rightarrow> bool" where
  "open_ok SO \<longleftrightarrow> (\<forall>path flag. case SO path flag of Inl e \<Rightarrow> 0 < e | Inr d \<Rightarrow> 0 \<le> d)"

lemma info_okE:
  assumes "info_ok KI"
  obtains (error) e where "KI d i = Inl e" "0 < e"
  | (reply) r where "KI d i = Inr r" "length (ir_rom r) \<le> unat (gi_rom_length i)"
      "unat (ir_rom_length r) \<le> MAX_CONFIG_ROM_LENGTH"
proof -
  have "case KI d i of Inl e \<Rightarrow> 0 < e
    | Inr r \<Rightarrow> length (ir_rom r) \<le> unat (gi_rom_length i) \<and>
             unat (ir_rom_length r) \<le> MAX_CONFIG_ROM_LENGTH"
    using assms unfolding info_ok_def by blast
  with error reply show ?thesis by (cases "KI d i") simp_all
qed

lemma node_ok_init: "node_ok hinawa_fw_node_init"
  by (simp add: node_ok_def hinawa_fw_node_init_def)

lemma node_ok_frame [simp]:
  "node_ok (n\<lparr>transactions := ts\<rparr>) \<longleftrightarrow> node_ok n"
  "0 \<le> d \<Longrightarrow> node_ok n \<Longrightarrow> node_ok (n\<lparr>fd := d\<rparr>)"
  "node_ok n \<Longrightarrow> node_ok (n\<lparr>fd := -1\<rparr>)"
  by (auto simp: node_ok_def)

text \<open>The number of quadlets of a ROM that fits the buffer also fits it.\<close>

lemma quads_bound:
  fixes len :: u32
  assumes "unat len \<le> MAX_CONFIG_ROM_LENGTH"
  shows "4 * unat ((len + 3) div 4) \<le> MAX_CONFIG_ROM_LENGTH"
proof -
  have "unat (len + 3) = unat len + 3"
    using assms by (simp add: unat_word_ariths MAX_CONFIG_ROM_LENGTH_def)
  then have "unat ((len + 3) div 4) = (unat len + 3) div 4"
    by (simp add: unat_div)
  with assms show ?thesis by (simp add: MAX_CONFIG_ROM_LENGTH_def)
qed

lemma update_info_reply:
  assumes n: "node_ok n" and KI: "KI (fd n) (info_request self) = Inr r"
    and rom: "length (ir_rom r) \<le> MAX_CONFIG_ROM_LENGTH"
    and len: "unat (ir_rom_length r) \<le> MAX_CONFIG_ROM_LENGTH"
  shows "\<exists>rom. length rom = MAX_CONFIG_ROM_LENGTH \<and>
    rom_to_be le (unat ((ir_rom_length r + 3) div 4)) 0
      (ir_rom r @ drop (length (ir_rom r)) (config_rom n)) = Ret rom \<and>
    update_info le KI self n =
      Ret (0, n\<lparr>config_rom := rom, config_rom_length := ucast (ir_rom_length r),
                generation := ir_bus_reset r, card_id := ir_card r\<rparr>)"
proof -
  let ?buf = "ir_rom r @ drop (length (ir_rom r)) (config_rom n)"
  have buf: "length ?buf = MAX_CONFIG_ROM_LENGTH"
    using n rom by (simp add: node_ok_def)
  from rom_to_be_no_fault [of 0 "unat ((ir_rom_length r + 3) div 4)" ?buf le]
  obtain rom' where rom': "rom_to_be le (unat ((ir_rom_length r + 3) div 4)) 0 ?buf = Ret rom'"
    "length rom' = MAX_CONFIG_ROM_LENGTH"
    using quads_bound [OF len] buf by auto
  moreover have "memcpy (config_rom n) (ir_rom r) (length (ir_rom r)) = Ret ?buf"
    using n rom by (simp add: memcpy_def node_ok_def)
  ultimately show ?thesis
    using KI unfolding update_info_def by (auto simp: Let_def)
qed

lemma update_info_ok:
  assumes "node_ok n" and "info_ok KI"
  obtains e n' where "update_info le KI self n = Ret (e, n')" "node_ok n'" "fd n' = fd n"
    "transactions n' = transactions n" "0 \<le> e" "e \<noteq> 0 \<longrightarrow> n' = n"
proof -
  have max: "unat (gi_rom_length (info_request self)) = MAX_CONFIG_ROM_LENGTH"
    by (simp add: MAX_CONFIG_ROM_LENGTH_def info_request_def)
  from assms(2) show thesis
  proof (cases rule: info_okE [of KI "fd n" "info_request self"])
    case (error e)
    with that [of e n] assms(1) show ?thesis by (simp add: update_info_def)
  next
    case (reply r)
    from update_info_reply [where KI = KI, OF assms(1) reply(1), of le] reply(2,3) obtain rom where
      rom: "length rom = MAX_CONFIG_ROM_LENGTH"
      and upd: "update_info le KI self n =
        Ret (0, n\<lparr>config_rom := rom, config_rom_length := ucast (ir_rom_length r),
                  generation := ir_bus_reset r, card_id := ir_card r\<rparr>)"
      unfolding max by blast
    show ?thesis
      by (rule that [OF upd]) (use rom reply(3) assms(1) in \<open>simp_all add: node_ok_def\<close>)
  qed
qed

text \<open>Every operation on a node keeps it well-formed, and none faults.\<close>

lemma register_transaction_ok [simp]: "node_ok (register_transaction r n) \<longleftrightarrow> node_ok n"
  by (simp add: register_transaction_def)

lemma invalidate_transaction_ok [simp]:
  "node_ok (hinawa_fw_node_invalidate_transaction r n) \<longleftrightarrow> node_ok n"
  by (simp add: hinawa_fw_node_invalidate_transaction_def)

lemma node_ioctl_ok:
  "hinawa_fw_node_ioctl K (Some n) a p = (r, a', n', p', io) \<Longrightarrow> node_ok n \<Longrightarrow>
   \<exists>m. n' = Some m \<and> node_ok m \<and> fd m = fd n"
  by (erule node_ioctl_cases)
     (auto simp: register_transaction_def split: fw_ioctl.split)

lemma handle_update_ok:
  assumes "node_ok n" and "info_ok KI"
  obtains n' where "handle_update le KI self n = Ret n'" "node_ok n'" "fd n' = fd n"
    "transactions n' = transactions n"
proof -
  from update_info_ok [OF assms, of le self] obtain e n' where
    "update_info le KI self n = Ret (e, n')" "node_ok n'" "fd n' = fd n"
    "transactions n' = transactions n" by metis
  with that show ?thesis by (simp add: handle_update_def)
qed

subsection \<open>Properties\<close>

text \<open>A kernel that hands over the same configuration ROM at every request.\<close>

definition rom_kernel :: "bool \<Rightarrow> u32 list \<Rightarrow> fw_cdev_event_bus_reset \<Rightarrow> sys_get_info" where
  "rom_kernel le qs bus d i =
     Inr \<lparr>ir_rom = concat (map (host_bytes le) qs), ir_rom_length = word_of_nat (4 * length qs),
          ir_bus_reset = bus, ir_card = 0\<rparr>"

lemma concat_quadlets_length:
  "(\<And>q. length (f q) = 4) \<Longrightarrow> length (concat (map f qs)) = 4 * length qs"
  by (induction qs) auto

lemma info_ok_empty_rom: "info_ok (rom_kernel le [] bus)"
  by (simp add: info_ok_def rom_kernel_def)

text \<open>C12. When the kernel hands over the quadlets \<open>qs\<close> of a configuration ROM in the byte order of
  the host, \<open>update_info\<close> succeeds, the image that \<open>hinawa_fw_node_get_config_rom\<close> then returns is
  their big-endian byte sequence, on either kind of host, and the state of the bus and the card are
  those the kernel reported.\<close>

lemma update_info_big_endian:
  assumes "node_ok n" and "0 \<le> fd n" and "length qs \<le> 256"
    and "KI (fd n) (info_request self) = Inr r"
    and "ir_rom r = concat (map (host_bytes le) qs)"
    and "ir_rom_length r = word_of_nat (4 * length qs)"
  shows "\<exists>n' img len. update_info le KI self n = Ret (0, n') \<and>
    hinawa_fw_node_get_config_rom n' True True (Err None) = (True, Some (img, len), Err None) \<and>
    take (unat len) img = concat (map be_bytes qs) \<and>
    generation n' = ir_bus_reset r \<and> card_id n' = ir_card r"
proof -
  have rl: "unat (ir_rom_length r) = 4 * length qs"
    using assms(3) unfolding assms(6) by (intro unat_u32_of_nat) simp
  have quads: "unat ((ir_rom_length r + 3) div 4) = length qs"
    using assms(3) rl by (simp add: unat_div unat_word_ariths)
  obtain rom where rom: "rom_to_be le (length qs) 0
      (ir_rom r @ drop (length (ir_rom r)) (config_rom n)) = Ret rom"
    "update_info le KI self n =
      Ret (0, n\<lparr>config_rom := rom, config_rom_length := ucast (ir_rom_length r),
                generation := ir_bus_reset r, card_id := ir_card r\<rparr>)"
    using update_info_reply [where KI = KI, OF assms(1,4), of le] rl assms(3,5)
    by (auto simp: concat_quadlets_length MAX_CONFIG_ROM_LENGTH_def quads)
  have "rom = concat (map be_bytes qs) @ drop (length (ir_rom r)) (config_rom n)"
    using rom(1) rom_to_be_quadlets [of "[]" 0 le qs] by (simp add: assms(5))
  with rom(2) rl assms(2) show ?thesis
    by (simp add: concat_quadlets_length hinawa_fw_node_get_config_rom_def)
qed

lemma update_info_big_endian_witness:
  "\<exists>n' img len. update_info True (rom_kernel True [0x0404b95d, 0x31333934]
       (generation hinawa_fw_node_init)) 7 (hinawa_fw_node_init\<lparr>fd := 3\<rparr>) = Ret (0, n') \<and>
     hinawa_fw_node_get_config_rom n' True True (Err None) = (True, Some (img, len), Err None) \<and>
     take (unat len) img = [0x04, 0x04, 0xb9, 0x5d, 0x31, 0x33, 0x39, 0x34]"
proof -
  have bytes: "concat (map be_bytes [0x0404b95d, 0x31333934]) =
      [0x04, 0x04, 0xb9, 0x5d, 0x31, 0x33, 0x39, 0x34]"
    by (simp add: be_bytes_def)
  show ?thesis
    using update_info_big_endian [where n = "hinawa_fw_node_init\<lparr>fd := 3\<rparr>" and self = 7
        and le = True and qs = "[0x0404b95d, 0x31333934]"
        and KI = "rom_kernel True [0x0404b95d, 0x31333934] (generation hinawa_fw_node_init)",
        OF _ _ _ rom_kernel_def]
    unfolding bytes by (auto simp: node_ok_init)
qed

text \<open>On a well-formed node and a kernel that keeps its documented bounds, \<open>update_info\<close> never
  accesses memory outside the ROM buffer, keeps the node well-formed, its descriptor and its
  outstanding requests, and changes nothing when it reports an error; with a ROM length beyond the
  buffer the byte-order loop runs out of the buffer.\<close>

lemma update_info_memory_safe:
  assumes "node_ok n"
  shows "(info_ok KI \<longrightarrow> (\<exists>e n'. update_info le KI self n = Ret (e, n') \<and> node_ok n' \<and>
            fd n' = fd n \<and> transactions n' = transactions n \<and> (e \<noteq> 0 \<longrightarrow> n' = n))) \<and>
         (KI (fd n) (info_request self) = Inr r \<longrightarrow>
            length (ir_rom r) \<le> MAX_CONFIG_ROM_LENGTH \<longrightarrow>
            MAX_CONFIG_ROM_LENGTH < unat (ir_rom_length r) \<longrightarrow> unat (ir_rom_length r) < 2 ^ 32 - 3 \<longrightarrow>
            update_info le KI self n = Fault Out_Of_Bounds)"
proof (intro conjI impI)
  show "\<exists>e n'. update_info le KI self n = Ret (e, n') \<and> node_ok n' \<and>
      fd n' = fd n \<and> transactions n' = transactions n \<and> (e \<noteq> 0 \<longrightarrow> n' = n)" if "info_ok KI"
    using update_info_ok [OF assms that, of le self] by metis
next
  assume KI: "KI (fd n) (info_request self) = Inr r"
    and rom: "length (ir_rom r) \<le> MAX_CONFIG_ROM_LENGTH"
    and big: "MAX_CONFIG_ROM_LENGTH < unat (ir_rom_length r)"
    and small: "unat (ir_rom_length r) < 2 ^ 32 - 3"
  let ?buf = "ir_rom r @ drop (length (ir_rom r)) (config_rom n)"
  have buf: "length ?buf = MAX_CONFIG_ROM_LENGTH"
    using assms rom by (simp add: node_ok_def)
  have "unat (ir_rom_length r + 3) = unat (ir_rom_length r) + 3"
    using small by (simp add: unat_word_ariths)
  then have "unat ((ir_rom_length r + 3) div 4) = (unat (ir_rom_length r) + 3) div 4"
    by (simp add: unat_div)
  with big have "256 < unat ((ir_rom_length r + 3) div 4)"
    by (simp add: MAX_CONFIG_ROM_LENGTH_def)
  then have "rom_to_be le (unat ((ir_rom_length r + 3) div 4)) 0 ?buf = Fault Out_Of_Bounds"
    using buf by (intro rom_to_be_fault) (simp_all add: MAX_CONFIG_ROM_LENGTH_def)
  moreover have "memcpy (config_rom n) (ir_rom r) (length (ir_rom r)) = Ret ?buf"
    using assms rom by (simp add: memcpy_def node_ok_def)
  ultimately show "update_info le KI self n = Fault Out_Of_Bounds"
    using KI by (simp add: update_info_def Let_def)
qed

lemma update_info_memory_safe_witness:
  "(\<exists>e n'. update_info True (rom_kernel True [] (generation hinawa_fw_node_init)) 7
       hinawa_fw_node_init = Ret (e, n') \<and> node_ok n') \<and>
   update_info True (\<lambda>d i. Inr \<lparr>ir_rom = [], ir_rom_length = 2000,
       ir_bus_reset = generation hinawa_fw_node_init, ir_card = 0\<rparr>) 7 hinawa_fw_node_init =
     Fault Out_Of_Bounds"
proof
  show "\<exists>e n'. update_info True (rom_kernel True [] (generation hinawa_fw_node_init)) 7
      hinawa_fw_node_init = Ret (e, n') \<and> node_ok n'"
    using update_info_memory_safe [OF node_ok_init] info_ok_empty_rom by blast
  show "update_info True (\<lambda>d i. Inr \<lparr>ir_rom = [], ir_rom_length = 2000,
      ir_bus_reset = generation hinawa_fw_node_init, ir_card = 0\<rparr>) 7 hinawa_fw_node_init =
      Fault Out_Of_Bounds"
    using update_info_memory_safe [OF node_ok_init, of "\<lambda>d i. Inr \<lparr>ir_rom = [],
      ir_rom_length = 2000, ir_bus_reset = generation hinawa_fw_node_init, ir_card = 0\<rparr>"
      True 7 "\<lparr>ir_rom = [], ir_rom_length = 2000,
      ir_bus_reset = generation hinawa_fw_node_init, ir_card = 0\<rparr>"]
    by (simp add: MAX_CONFIG_ROM_LENGTH_def)
qed

text \<open>C25. Opening a node that is not yet opened: the call never faults and keeps the node
  well-formed; it returns true exactly when the node holds a descriptor afterwards, and then no
  error is reported; otherwise exactly one error is reported, the node holds no descriptor, and a
  descriptor obtained on the way has been closed, so none leaks.\<close>

lemma node_open_outcome:
  assumes "node_ok n" and "fd n < 0" and "open_ok SO" and "info_ok KI" and "path \<noteq> []"
  shows "\<exists>ok n' p closed.
    hinawa_fw_node_open le SO KI file_error self n (Some path) flag (Err None) =
      Ret (ok, n', p, closed) \<and> node_ok n' \<and>
    (ok \<longleftrightarrow> 0 \<le> fd n') \<and> error_stored p = (\<not> ok) \<and>
    closed = (case SO path (or flag 0) of Inl e \<Rightarrow> [] | Inr d \<Rightarrow> if ok then [] else [d])"
proof (cases "SO path (or flag 0)")
  case (Inl e)
  with assms show ?thesis by (auto simp: hinawa_fw_node_open_def)
next
  case (Inr d)
  with assms(3) have d: "0 \<le> d"
    unfolding open_ok_def by (metis sum.simps(6))
  with assms(1) have "node_ok (n\<lparr>fd := d\<rparr>)" by simp
  from update_info_ok [OF this assms(4), of le self] obtain e n' where
    u: "update_info le KI self (n\<lparr>fd := d\<rparr>) = Ret (e, n')" "node_ok n'" "fd n' = d"
    by (metis HinawaFwNode.select_convs(1) HinawaFwNode.surjective HinawaFwNode.update_convs(1))
  with assms(2,5) Inr d show ?thesis
    by (simp add: hinawa_fw_node_open_def)
qed

lemma node_open_outcome_witness:
  "\<exists>ok n' p closed.
    hinawa_fw_node_open True (\<lambda>_ _. Inr 5) (\<lambda>_ _. Inl ENODEV) (\<lambda>_. None) 7 hinawa_fw_node_init
      (Some ''/dev/fw1'') 0 (Err None) = Ret (ok, n', p, closed) \<and> node_ok n' \<and> \<not> ok \<and>
    error_stored p \<and> closed = [5]"
proof -
  have "open_ok (\<lambda>_ _. Inr 5)" "info_ok (\<lambda>_ _. Inl ENODEV)" "fd hinawa_fw_node_init < 0"
    by (simp_all add: open_ok_def info_ok_def hinawa_fw_node_init_def)
  from node_open_outcome [OF node_ok_init this(3,1,2), of "''/dev/fw1''" True "\<lambda>_. None" 7 0]
  show ?thesis
    by (auto simp: hinawa_fw_node_open_def update_info_def hinawa_fw_node_init_def)
qed

text \<open>Reading the cycle time of an opened node returns true exactly when the kernel granted the
  request, with the structure as the kernel filled it. When the kernel refuses with an errno other
  than \<open>ENODEV\<close> the call returns false and reports no error at all: the wrapper never returns a
  negative value, so the branch that would report it is dead.\<close>

lemma read_cycle_time_outcome:
  assumes "errno_ok K" and "0 \<le> fd n"
  shows "hinawa_fw_node_read_cycle_time K (Some n) clock (Some ct) (Err None) =
    Ret (case K (fd n) (FW_CDEV_IOC_GET_CYCLE_TIMER2 (ct\<lparr>clk_id := clock\<rparr>)) of
           Inr a \<Rightarrow> (True, Some (cycle_timer2_arg (ct\<lparr>clk_id := clock\<rparr>) a), Some n, Err None)
         | Inl e \<Rightarrow> (False, Some (ct\<lparr>clk_id := clock\<rparr>), Some n,
             if e = ENODEV then Err (Some (node_local_error HINAWA_FW_NODE_ERROR_DISCONNECTED))
             else Err None))"
proof -
  let ?a = "FW_CDEV_IOC_GET_CYCLE_TIMER2 (ct\<lparr>clk_id := clock\<rparr>)"
  obtain r a n' p io where io: "hinawa_fw_node_ioctl K (Some n) ?a (Err None) = (r, a, n', p, io)"
    by (metis prod_cases5)
  from assms(1) io have "\<not> r < 0"
    using node_io.never_negative by (metis fst_conv)
  with io have "hinawa_fw_node_read_cycle_time K (Some n) clock (Some ct) (Err None) =
      Ret (r = 0, Some (cycle_timer2_arg (ct\<lparr>clk_id := clock\<rparr>) a), n', p)"
    by (simp add: hinawa_fw_node_read_cycle_time_def Let_def)
  with io assms show ?thesis
    by (cases rule: node_ioctl_cases) (auto dest: errno_okD)
qed

lemma read_cycle_time_outcome_witness:
  "errno_ok (failing_kernel EINVAL) \<and>
   hinawa_fw_node_read_cycle_time (failing_kernel EINVAL) (Some (hinawa_fw_node_init\<lparr>fd := 3\<rparr>)) 9
     (Some hinawa_cycle_time_new) (Err None) =
   Ret (False, Some (hinawa_cycle_time_new\<lparr>clk_id := 9\<rparr>), Some (hinawa_fw_node_init\<lparr>fd := 3\<rparr>), Err None)"
  using read_cycle_time_outcome [of "failing_kernel EINVAL" "hinawa_fw_node_init\<lparr>fd := 3\<rparr>" 9
      hinawa_cycle_time_new] errno_ok_failing [of EINVAL]
  by (simp add: failing_kernel_def)

end
