(* ===== verification/Fw_Req.thy ===== *)
theory Fw_Req
  imports Fw_Node
begin

unbundle bit_operations_syntax

text \<open>
  The class \<open>HinawaFwReq\<close> (\<open>src/fw_req.c\<close>): request subactions of asynchronous transactions,
  and the blocking form that waits for the response.

  A request is identified by its object (\<open>self\<close>). Buffers passed by address are their bytes and
  the size the caller declares, \<open>None\<close> for a null pointer. The blocking form is run against a
  schedule: the signals \<open>responded\<close> that the dispatcher thread delivers to the waiter before the
  caller first takes the waiter's mutex, those delivered up to each wake-up of
  \<open>g_cond_wait_until\<close>, and those delivered up to the one that reports the deadline. The deadline
  is absolute and finite, so every schedule ends and the loop is structural recursion on it. What
  other threads do to the node meanwhile is the function \<open>sch_node\<close>.
\<close>

subsection \<open>Error reports\<close>

fun req_err_labels :: "HinawaFwReqError \<Rightarrow> string" where
  "req_err_labels HINAWA_FW_REQ_ERROR_CONFLICT_ERROR = ''conflict error''"
| "req_err_labels HINAWA_FW_REQ_ERROR_DATA_ERROR = ''data error''"
| "req_err_labels HINAWA_FW_REQ_ERROR_TYPE_ERROR = ''type error''"
| "req_err_labels HINAWA_FW_REQ_ERROR_ADDRESS_ERROR = ''address error''"
| "req_err_labels HINAWA_FW_REQ_ERROR_SEND_ERROR = ''send error''"
| "req_err_labels HINAWA_FW_REQ_ERROR_CANCELLED = ''timeout''"
| "req_err_labels HINAWA_FW_REQ_ERROR_BUSY = ''busy''"
| "req_err_labels HINAWA_FW_REQ_ERROR_GENERATION = ''bus reset''"
| "req_err_labels HINAWA_FW_REQ_ERROR_NO_ACK = ''no ack''"
| "req_err_labels HINAWA_FW_REQ_ERROR_INVALID = ''invalid''"

definition fw_req_error_with_errno :: "HinawaFwReqError \<Rightarrow> int \<Rightarrow> gerror" where
  "fw_req_error_with_errno code err_no =
     \<lparr>error_code = FW_REQ_ERROR code, error_message = With_Errno (req_err_labels code) err_no\<rparr>"

definition fw_req_error_literal :: "HinawaFwReqError \<Rightarrow> gerror" where
  "fw_req_error_literal code =
     \<lparr>error_code = FW_REQ_ERROR code, error_message = Literal (req_err_labels code)\<rparr>"

subsection \<open>Sending a request subaction\<close>

definition lock_tcodes :: "HinawaFwTcode list" where
  "lock_tcodes =
     [HINAWA_FW_TCODE_LOCK_MASK_SWAP, HINAWA_FW_TCODE_LOCK_COMPARE_SWAP,
      HINAWA_FW_TCODE_LOCK_FETCH_ADD, HINAWA_FW_TCODE_LOCK_LITTLE_ADD,
      HINAWA_FW_TCODE_LOCK_BOUNDED_ADD, HINAWA_FW_TCODE_LOCK_WRAP_ADD,
      HINAWA_FW_TCODE_LOCK_VENDOR_DEPENDENT]"

definition read_write_tcodes :: "HinawaFwTcode list" where
  "read_write_tcodes =
     [HINAWA_FW_TCODE_READ_QUADLET_REQUEST, HINAWA_FW_TCODE_READ_BLOCK_REQUEST,
      HINAWA_FW_TCODE_WRITE_QUADLET_REQUEST, HINAWA_FW_TCODE_WRITE_BLOCK_REQUEST]"

definition aligned_tcodes :: "HinawaFwTcode list" where
  "aligned_tcodes =
     [HINAWA_FW_TCODE_WRITE_QUADLET_REQUEST, HINAWA_FW_TCODE_READ_QUADLET_REQUEST] @ lock_tcodes"

text \<open>The checks of \<open>hinawa_fw_req_request\<close> before it contacts the node: \<open>None\<close> when one of
  the \<open>g_return_val_if_fail\<close> fires, otherwise the byte length of the transaction.\<close>

definition request_length ::
    "HinawaFwTcode \<Rightarrow> u64 \<Rightarrow> u64 \<Rightarrow> bytes option \<Rightarrow> u64 option \<Rightarrow> gerror_ptr \<Rightarrow> u64 option" where
  "request_length tcode addr len frame frame_size error =
     (case (frame, frame_size) of
        (Some fr, Some fsize) \<Rightarrow>
          if \<not> 0 < len then None
          else if \<not> 0 < fsize then None
          else if \<not> error_unset error then None
          else if tcode \<in> set aligned_tcodes \<and> \<not> (addr AND 0x3 = 0 \<and> len AND 0x3 = 0) then None
          else if tcode \<in> set read_write_tcodes then
            (if fsize \<ge> len then Some len else None)
          else if tcode \<in> set lock_tcodes then
            (if fsize \<ge> len * 2 then Some (len * 2) else None)
          else None
      | _ \<Rightarrow> None)"

definition send_request_arg ::
    "fw_constants \<Rightarrow> obj_id \<Rightarrow> HinawaFwNode \<Rightarrow> HinawaFwTcode \<Rightarrow> u64 \<Rightarrow> u64 \<Rightarrow> bytes option \<Rightarrow>
     fw_cdev_send_request" where
  "send_request_arg c self n tcode addr len frame =
     \<lparr>sr_tcode = TCODE c tcode, sr_length = ucast len, sr_offset = addr, sr_closure = self,
      sr_data = (if tcode \<noteq> HINAWA_FW_TCODE_READ_QUADLET_REQUEST \<and>
                    tcode \<noteq> HINAWA_FW_TCODE_READ_BLOCK_REQUEST then frame else None),
      sr_generation = br_generation (generation n)\<rparr>"

definition hinawa_fw_req_request ::
    "fw_constants \<Rightarrow> sys_ioctl \<Rightarrow> obj_id \<Rightarrow> HinawaFwNode option \<Rightarrow> HinawaFwTcode \<Rightarrow> u64 \<Rightarrow> u64 \<Rightarrow>
     bytes option \<Rightarrow> u64 option \<Rightarrow> gerror_ptr \<Rightarrow>
     (bool \<times> HinawaFwNode option \<times> gerror_ptr \<times> fw_ioctl list) run" where
  "hinawa_fw_req_request c K self node tcode addr len frame frame_size error =
     (case node of
        None \<Rightarrow> Ret (False, node, error, [])
      | Some n \<Rightarrow>
        (case request_length tcode addr len frame frame_size error of
           None \<Rightarrow> Ret (False, node, error, [])
         | Some len \<Rightarrow>
           let req = send_request_arg c self n tcode addr len frame;
               (err, _, node, error, io) =
                 hinawa_fw_node_ioctl K node (FW_CDEV_IOC_SEND_REQUEST req) error
           in bind_run (deref_is_null error) (\<lambda>unset.
                Ret (0 \<le> err, node,
                     (if unset \<and> 0 < err
                      then g_set_error error
                        (fw_req_error_with_errno HINAWA_FW_REQ_ERROR_SEND_ERROR err)
                      else error), io))))"

subsection \<open>The signal \<open>responded\<close>\<close>

record responded =
  rp_rcode :: u32
  rp_request_tstamp :: u32
  rp_response_tstamp :: u32
  rp_frame :: bytes
  rp_frame_size :: u32

text \<open>What \<open>hinawa_fw_req_handle_response\<close> and \<open>hinawa_fw_req_handle_response2\<close> emit.\<close>

definition hinawa_fw_req_handle_response :: "fw_cdev_event_response \<Rightarrow> responded" where
  "hinawa_fw_req_handle_response event =
     \<lparr>rp_rcode = rs_rcode event, rp_request_tstamp = G_MAXUINT, rp_response_tstamp = G_MAXUINT,
      rp_frame = rs_data event, rp_frame_size = rs_length event\<rparr>"

definition hinawa_fw_req_handle_response2 :: "fw_cdev_event_response2 \<Rightarrow> responded" where
  "hinawa_fw_req_handle_response2 event =
     \<lparr>rp_rcode = rs2_rcode event, rp_request_tstamp = rs2_request_tstamp event,
      rp_response_tstamp = rs2_response_tstamp event,
      rp_frame = rs2_data event, rp_frame_size = rs2_length event\<rparr>"

subsection \<open>The waiter\<close>

record waiter =
  w_rcode :: u32
  w_request_tstamp :: u32
  w_response_tstamp :: u32
  w_frame :: bytes
  w_length :: u64

definition handle_responded_signal :: "responded \<Rightarrow> waiter \<Rightarrow> waiter run" where
  "handle_responded_signal s w =
     (let len = min (w_length w) (ucast (rp_frame_size s))
      in bind_run (memcpy (w_frame w) (rp_frame s) (unat len)) (\<lambda>fr.
           Ret \<lparr>w_rcode = rp_rcode s, w_request_tstamp = rp_request_tstamp s,
                w_response_tstamp = rp_response_tstamp s, w_frame = fr, w_length = len\<rparr>))"

primrec deliver :: "responded list \<Rightarrow> waiter \<Rightarrow> waiter run" where
  "deliver [] w = Ret w"
| "deliver (s # ss) w = bind_run (handle_responded_signal s w) (deliver ss)"

text \<open>The loop \<open>while (w.rcode == G_MAXUINT)\<close>: one element of the list per wake-up, then the
  wake-up by the deadline.\<close>

primrec wait_response :: "responded list list \<Rightarrow> responded list \<Rightarrow> waiter \<Rightarrow> waiter run" where
  "wait_response [] timeout w =
     (if w_rcode w = G_MAXUINT then deliver timeout w else Ret w)"
| "wait_response (wake # wakes) timeout w =
     (if w_rcode w = G_MAXUINT
      then bind_run (deliver wake w) (wait_response wakes timeout)
      else Ret w)"

record req_schedule =
  sch_before :: "responded list"
  sch_wakes :: "responded list list"
  sch_timeout :: "responded list"
  sch_node :: "HinawaFwNode \<Rightarrow> HinawaFwNode"

definition deliveries :: "req_schedule \<Rightarrow> responded list" where
  "deliveries sch = sch_before sch @ concat (sch_wakes sch) @ sch_timeout sch"

subsection \<open>Transactions\<close>

record txn_result =
  tx_ok :: bool
  tx_frame :: bytes
  tx_frame_size :: u64
  tx_tstamp :: "(u32 \<times> u32) option"
  tx_node :: "HinawaFwNode option"
  tx_error :: gerror_ptr
  tx_io :: "fw_ioctl list"

text \<open>The result is \<open>None\<close> when an argument check makes the call return false before it touches
  anything.\<close>

text \<open>The \<open>switch\<close> on the response code: \<open>None\<close> for completion, otherwise the error code.\<close>

definition rcode_error :: "fw_constants \<Rightarrow> u32 \<Rightarrow> HinawaFwReqError option" where
  "rcode_error c rcode =
     (if rcode = RCODE c HINAWA_FW_RCODE_COMPLETE then None
      else case List.find (\<lambda>r. rcode = RCODE c r) (tl kernel_rcodes) of
             Some r \<Rightarrow> Some (req_error_of_rcode r)
           | None \<Rightarrow> Some HINAWA_FW_REQ_ERROR_INVALID)"

text \<open>What the caller does once the wait is over: the request is removed from the list of the node,
  and the waiter's response code decides the result.\<close>

definition conclude_transaction ::
    "fw_constants \<Rightarrow> obj_id \<Rightarrow> u64 \<Rightarrow> HinawaFwNode option \<Rightarrow> gerror_ptr \<Rightarrow> fw_ioctl list \<Rightarrow> waiter \<Rightarrow>
     txn_result" where
  "conclude_transaction c self fsize node error io w =
     (let out = \<lparr>tx_ok = False, tx_frame = w_frame w, tx_frame_size = fsize, tx_tstamp = None,
                 tx_node = map_option (hinawa_fw_node_invalidate_transaction self) node,
                 tx_error = error, tx_io = io\<rparr>
      in if w_rcode w = G_MAXUINT then
           out\<lparr>tx_error :=
             g_set_error error (fw_req_error_literal HINAWA_FW_REQ_ERROR_CANCELLED)\<rparr>
         else
           let out = out\<lparr>tx_tstamp := Some (w_request_tstamp w, w_response_tstamp w)\<rparr>
           in case rcode_error c (w_rcode w) of
                None \<Rightarrow> out\<lparr>tx_ok := True, tx_frame_size := w_length w\<rparr>
              | Some code \<Rightarrow> out\<lparr>tx_error := g_set_error error (fw_req_error_literal code)\<rparr>)"

definition new_waiter :: "bytes \<Rightarrow> u64 \<Rightarrow> waiter" where
  "new_waiter fr fsize =
     \<lparr>w_rcode = G_MAXUINT, w_request_tstamp = G_MAXUINT, w_response_tstamp = G_MAXUINT,
      w_frame = fr, w_length = fsize\<rparr>"

definition hinawa_fw_req_transaction_with_tstamp ::
    "fw_constants \<Rightarrow> sys_ioctl \<Rightarrow> req_schedule \<Rightarrow> obj_id \<Rightarrow> HinawaFwNode option \<Rightarrow> HinawaFwTcode \<Rightarrow>
     u64 \<Rightarrow> u64 \<Rightarrow> bytes option \<Rightarrow> u64 option \<Rightarrow> bool \<Rightarrow> gerror_ptr \<Rightarrow> txn_result option run" where
  "hinawa_fw_req_transaction_with_tstamp c K sch self node tcode addr len frame frame_size
       tstamp_ok error =
     (if node = None \<or> \<not> tstamp_ok then Ret None
      else case (frame, frame_size) of
        (Some fr, Some fsize) \<Rightarrow>
          bind_run (hinawa_fw_req_request c K self node tcode addr len frame frame_size error)
            (\<lambda>(sent, node, error, io).
             if \<not> sent then
               Ret (Some \<lparr>tx_ok = False, tx_frame = fr, tx_frame_size = fsize, tx_tstamp = None,
                          tx_node = node, tx_error = error, tx_io = io\<rparr>)
             else
               bind_run
                 (bind_run (deliver (sch_before sch) (new_waiter fr fsize))
                    (wait_response (sch_wakes sch) (sch_timeout sch)))
                 (\<lambda>w. Ret (Some (conclude_transaction c self fsize
                         (map_option (sch_node sch) node) error io w))))
      | _ \<Rightarrow> Fault Null_Deref)"

text \<open>The variant without time stamps passes a local array for them.\<close>

definition hinawa_fw_req_transaction ::
    "fw_constants \<Rightarrow> sys_ioctl \<Rightarrow> req_schedule \<Rightarrow> obj_id \<Rightarrow> HinawaFwNode option \<Rightarrow> HinawaFwTcode \<Rightarrow>
     u64 \<Rightarrow> u64 \<Rightarrow> bytes option \<Rightarrow> u64 option \<Rightarrow> gerror_ptr \<Rightarrow> txn_result option run" where
  "hinawa_fw_req_transaction c K sch self node tcode addr len frame frame_size error =
     hinawa_fw_req_transaction_with_tstamp c K sch self node tcode addr len frame frame_size
       True error"

subsection \<open>The argument checks\<close>

text \<open>What the checks are for, over the natural numbers: the transaction code is one of the
  supported ones, quadlet and lock transactions are aligned, and the buffer has room for the bytes
  of the transaction (twice the operand for a lock).\<close>

definition payload_bytes :: "HinawaFwTcode \<Rightarrow> nat \<Rightarrow> nat" where
  "payload_bytes tcode len = (if tcode \<in> set lock_tcodes then 2 * len else len)"

definition request_valid :: "HinawaFwTcode \<Rightarrow> nat \<Rightarrow> nat \<Rightarrow> nat \<Rightarrow> bool" where
  "request_valid tcode addr len fsize \<longleftrightarrow>
     tcode \<in> set read_write_tcodes \<union> set lock_tcodes \<and> 0 < len \<and>
     (tcode \<in> set aligned_tcodes \<longrightarrow> 4 dvd addr \<and> 4 dvd len) \<and> payload_bytes tcode len \<le> fsize"

lemma and_3_eq_0: "(x :: u64) AND 3 = 0 \<longleftrightarrow> 4 dvd unat x"
proof -
  have "x AND 3 = take_bit 2 x" by (simp add: take_bit_eq_mask mask_eq_exp_minus_1)
  then have "x AND 3 = 0 \<longleftrightarrow> unat (take_bit 2 x) = 0" by (simp only: unsigned_eq_0_iff)
  then show ?thesis by (simp add: unat_low_bits dvd_eq_mod_eq_0)
qed

lemma unat_double: "unat (len :: u64) < 2 ^ 63 \<Longrightarrow> unat (len * 2) = 2 * unat len"
  by (simp add: unat_word_ariths)

lemma lock_not_read_write: "t \<in> set lock_tcodes \<Longrightarrow> t \<notin> set read_write_tcodes"
  by (auto simp: lock_tcodes_def read_write_tcodes_def)

lemma request_length_iff_valid:
  assumes "unat len < 2 ^ 63"
  shows "request_length tcode addr len (Some fr) (Some fsize) (Err None) =
    (if request_valid tcode (unat addr) (unat len) (unat fsize)
     then Some (word_of_nat (payload_bytes tcode (unat len))) else None)"
proof -
  have pos: "0 < len \<longleftrightarrow> 0 < unat len" by (simp add: unat_gt_0 word_neq_0_conv)
  have size: "0 < fsize \<longleftrightarrow> 0 < unat fsize" by (simp add: unat_gt_0 word_neq_0_conv)
  have ge: "len \<le> fsize \<longleftrightarrow> unat len \<le> unat fsize"
    "len * 2 \<le> fsize \<longleftrightarrow> 2 * unat len \<le> unat fsize"
    by (simp_all add: word_le_nat_alt unat_double [OF assms])
  have two: "word_of_nat (2 * unat len) = len * 2"
    by (simp add: mult.commute)
  show ?thesis
    using lock_not_read_write [of tcode]
    by (auto simp: request_length_def request_valid_def payload_bytes_def and_3_eq_0 pos size ge two
        simp del: of_nat_mult)
qed

text \<open>Whatever the arguments, the length passed to the kernel is within the declared buffer.\<close>

lemma request_length_bound:
  "request_length tcode addr len frame (Some fsize) error = Some l \<Longrightarrow> unat l \<le> unat fsize"
  by (auto simp: request_length_def word_le_nat_alt split: option.splits if_splits)

lemma request_length_frame:
  "request_length tcode addr len frame frame_size error = Some l \<Longrightarrow>
   \<exists>fr fsize. frame = Some fr \<and> frame_size = Some fsize"
  by (auto simp: request_length_def split: option.splits)

subsection \<open>The request\<close>

text \<open>The outcome on a node with a descriptor, when the checks pass.\<close>

lemma request_issued:
  fixes c self
  assumes K: "errno_ok K" and n: "0 \<le> fd n"
    and l: "request_length tcode addr len frame frame_size (Err None) = Some l"
  defines "arg \<equiv> send_request_arg c self n tcode addr l frame"
  shows "hinawa_fw_req_request c K self (Some n) tcode addr len frame frame_size (Err None) =
    Ret (True, Some (register_transaction self n),
         Err (case K (fd n) (FW_CDEV_IOC_SEND_REQUEST arg) of
                Inr _ \<Rightarrow> None
              | Inl e \<Rightarrow> Some (if e = ENODEV then node_local_error HINAWA_FW_NODE_ERROR_DISCONNECTED
                          else fw_req_error_with_errno HINAWA_FW_REQ_ERROR_SEND_ERROR e)),
         [FW_CDEV_IOC_SEND_REQUEST arg])"
proof -
  obtain r a n' p io where
    io: "hinawa_fw_node_ioctl K (Some n) (FW_CDEV_IOC_SEND_REQUEST arg) (Err None) = (r, a, n', p, io)"
    by (metis prod_cases5)
  have clo: "sr_closure arg = self" by (simp add: arg_def send_request_arg_def)
  have "0 \<le> r" using K io by (rule node_io.ret_nonneg)
  with l io have req: "hinawa_fw_req_request c K self (Some n) tcode addr len frame frame_size
      (Err None) = bind_run (deref_is_null p) (\<lambda>unset. Ret (True, n',
        if unset \<and> 0 < r then g_set_error p
          (fw_req_error_with_errno HINAWA_FW_REQ_ERROR_SEND_ERROR r) else p, io))"
    by (simp add: hinawa_fw_req_request_def arg_def)
  from io show ?thesis
  proof (cases rule: node_ioctl_cases)
    case (failed m e)
    then have "0 < e" using K errno_okD by blast
    with failed n req clo show ?thesis by auto
  next
    case (granted m)
    with n req clo show ?thesis by auto
  qed (use n in auto)
qed

lemma request_refused:
  "request_length tcode addr len frame frame_size error = None \<Longrightarrow>
   hinawa_fw_req_request c K self (Some n) tcode addr len frame frame_size error =
     Ret (False, Some n, error, [])"
  by (simp add: hinawa_fw_req_request_def)

lemma request_not_opened:
  assumes "fd n < 0" and "request_length tcode addr len frame frame_size (Err None) = Some l"
  shows "hinawa_fw_req_request c K self (Some n) tcode addr len frame frame_size (Err None) =
    Ret (True, Some n, Err (Some (node_local_error HINAWA_FW_NODE_ERROR_NOT_OPENED)), [])"
  using assms by (simp add: hinawa_fw_req_request_def hinawa_fw_node_ioctl_def)

lemma request_null_error:
  assumes "request_length tcode addr len frame frame_size NullErr = Some l"
  shows "hinawa_fw_req_request c K self (Some n) tcode addr len frame frame_size NullErr =
    Fault Null_Deref"
  using assms by (simp add: hinawa_fw_req_request_def hinawa_fw_node_ioctl_def)

subsection \<open>The waiter and its buffer\<close>

text \<open>The event buffer holds at least the bytes the event declares.\<close>

definition signal_ok :: "responded \<Rightarrow> bool" where
  "signal_ok s \<longleftrightarrow> unat (rp_frame_size s) \<le> length (rp_frame s)"

text \<open>The waiter writes into the caller's buffer \<open>fr\<close> of declared size \<open>fsize\<close>: never past the
  declared size.\<close>

definition waiter_ok :: "bytes \<Rightarrow> u64 \<Rightarrow> waiter \<Rightarrow> bool" where
  "waiter_ok fr fsize w \<longleftrightarrow> length (w_frame w) = length fr \<and> w_length w \<le> fsize \<and>
     drop (unat fsize) (w_frame w) = drop (unat fsize) fr"

lemma handle_responded_signal_ok:
  assumes "waiter_ok fr fsize w" and "signal_ok s" and "unat fsize \<le> length fr"
  obtains w' where "handle_responded_signal s w = Ret w'" "waiter_ok fr fsize w'"
proof -
  let ?len = "min (w_length w) (ucast (rp_frame_size s) :: u64)"
  have len: "unat ?len \<le> unat (w_length w)" "unat ?len \<le> unat (rp_frame_size s)"
    by (simp_all add: min_def word_le_nat_alt)
  have "unat (w_length w) \<le> unat fsize"
    using assms(1) by (simp add: waiter_ok_def word_le_nat_alt)
  with len assms have fit: "unat ?len \<le> length (w_frame w)" "unat ?len \<le> length (rp_frame s)"
    "unat ?len \<le> unat fsize"
    by (auto simp: waiter_ok_def signal_ok_def)
  let ?w = "\<lparr>w_rcode = rp_rcode s, w_request_tstamp = rp_request_tstamp s,
    w_response_tstamp = rp_response_tstamp s,
    w_frame = take (unat ?len) (rp_frame s) @ drop (unat ?len) (w_frame w), w_length = ?len\<rparr>"
  have "handle_responded_signal s w = Ret ?w"
    using fit by (simp add: handle_responded_signal_def Let_def memcpy_ok)
  moreover have "waiter_ok fr fsize ?w"
    using assms(1) fit by (auto simp: waiter_ok_def min_def word_le_nat_alt)
  ultimately show ?thesis by (rule that)
qed

lemma deliver_ok:
  assumes "waiter_ok fr fsize w" and "list_all signal_ok ss" and "unat fsize \<le> length fr"
  shows "\<exists>w'. deliver ss w = Ret w' \<and> waiter_ok fr fsize w'"
  using assms(1,2)
proof (induction ss arbitrary: w)
  case Nil
  then show ?case by simp
next
  case (Cons s ss)
  then obtain w' where "handle_responded_signal s w = Ret w'" "waiter_ok fr fsize w'"
    using handle_responded_signal_ok assms(3) by (metis list.pred_inject(2))
  with Cons show ?case by simp
qed

lemma wait_response_ok:
  assumes "waiter_ok fr fsize w" and "list_all (list_all signal_ok) wakes"
    and "list_all signal_ok timeout" and "unat fsize \<le> length fr"
  shows "\<exists>w'. wait_response wakes timeout w = Ret w' \<and> waiter_ok fr fsize w'"
  using assms(1,2)
proof (induction wakes arbitrary: w)
  case Nil
  with deliver_ok [OF Nil.prems(1) assms(3,4)] show ?case by simp
next
  case (Cons wake wakes)
  with deliver_ok [OF Cons.prems(1) _ assms(4), of wake] show ?case by auto
qed

text \<open>When at most one signal arrives before the deadline, the waiter ends as that signal left it.\<close>

lemma deliver_append: "deliver (xs @ ys) w = bind_run (deliver xs w) (deliver ys)"
proof (induction xs arbitrary: w)
  case (Cons x xs)
  then show ?case by (cases "handle_responded_signal x w") simp_all
qed simp

lemma wait_response_silent: "concat wakes @ timeout = [] \<Longrightarrow> wait_response wakes timeout w = Ret w"
  by (induction wakes) simp_all

lemma wait_response_single:
  "w_rcode w = G_MAXUINT \<Longrightarrow> concat wakes @ timeout = [s] \<Longrightarrow>
   wait_response wakes timeout w = handle_responded_signal s w"
proof (induction wakes)
  case Nil
  then show ?case by (cases "handle_responded_signal s w") simp_all
next
  case (Cons wake wakes)
  then consider "wake = []" "concat wakes @ timeout = [s]"
    | "wake = [s]" "concat wakes @ timeout = []"
    by (auto simp: append_eq_Cons_conv)
  then show ?case
  proof cases
    case 1
    with Cons show ?thesis by simp
  next
    case 2
    with Cons.prems show ?thesis
      by (cases "handle_responded_signal s w") (simp_all add: wait_response_silent)
  qed
qed

lemma wait_deliveries_single:
  assumes "w_rcode w = G_MAXUINT" and "deliveries sch = [s]"
  shows "bind_run (deliver (sch_before sch) w) (wait_response (sch_wakes sch) (sch_timeout sch)) =
    handle_responded_signal s w"
proof -
  consider "sch_before sch = []" "concat (sch_wakes sch) @ sch_timeout sch = [s]"
    | "sch_before sch = [s]" "concat (sch_wakes sch) @ sch_timeout sch = []"
    using assms(2) by (auto simp: deliveries_def append_eq_Cons_conv)
  then show ?thesis
  proof cases
    case 1
    with assms(1) show ?thesis by (simp add: wait_response_single)
  next
    case 2
    then show ?thesis
      by (cases "handle_responded_signal s w") (simp_all add: wait_response_silent)
  qed
qed

lemma wait_deliveries_none:
  "deliveries sch = [] \<Longrightarrow>
   bind_run (deliver (sch_before sch) w) (wait_response (sch_wakes sch) (sch_timeout sch)) = Ret w"
  using wait_response_silent [of "sch_wakes sch" "sch_timeout sch"] by (simp add: deliveries_def)

subsection \<open>Transactions\<close>

lemma waiter_ok_new: "waiter_ok fr fsize (new_waiter fr fsize)"
  by (simp add: waiter_ok_def new_waiter_def)

lemma new_waiter_rcode [simp]: "w_rcode (new_waiter fr fsize) = G_MAXUINT"
  by (simp add: new_waiter_def)

lemma transaction_eq:
  assumes "hinawa_fw_req_request c K self (Some n) tcode addr len (Some fr) (Some fsize) p =
      Ret (True, Some n', p', io)"
    and "bind_run (deliver (sch_before sch) (new_waiter fr fsize))
      (wait_response (sch_wakes sch) (sch_timeout sch)) = Ret w"
  shows "hinawa_fw_req_transaction_with_tstamp c K sch self (Some n) tcode addr len (Some fr)
      (Some fsize) True p =
    Ret (Some (conclude_transaction c self fsize (Some (sch_node sch n')) p' io w))"
  using assms by (simp add: hinawa_fw_req_transaction_with_tstamp_def)

lemma request_returns:
  assumes "errno_ok K"
  obtains (refused) "hinawa_fw_req_request c K self (Some n) tcode addr len frame frame_size (Err None)
      = Ret (False, Some n, Err None, [])"
  | (sent) n' es io where
      "hinawa_fw_req_request c K self (Some n) tcode addr len frame frame_size (Err None)
      = Ret (True, Some n', Err es, io)"
proof (cases "request_length tcode addr len frame frame_size (Err None)")
  case None
  with request_refused refused show ?thesis by blast
next
  case (Some l)
  show ?thesis
  proof (cases "fd n < 0")
    case True
    with Some request_not_opened sent show ?thesis by blast
  next
    case False
    with assms Some show ?thesis
      by (intro sent [OF request_issued [where l = l]]) auto
  qed
qed

lemma deliveries_ok:
  "list_all signal_ok (deliveries sch) \<longleftrightarrow>
   list_all signal_ok (sch_before sch) \<and> list_all (list_all signal_ok) (sch_wakes sch) \<and>
   list_all signal_ok (sch_timeout sch)"
  by (auto simp: deliveries_def list_all_iff)

lemma wait_deliveries_ok:
  assumes "list_all signal_ok (deliveries sch)" and "unat fsize \<le> length fr"
  obtains w where "bind_run (deliver (sch_before sch) (new_waiter fr fsize))
      (wait_response (sch_wakes sch) (sch_timeout sch)) = Ret w" "waiter_ok fr fsize w"
proof -
  from assms have ok: "list_all signal_ok (sch_before sch)"
    "list_all (list_all signal_ok) (sch_wakes sch)" "list_all signal_ok (sch_timeout sch)"
    by (simp_all add: deliveries_ok)
  from deliver_ok [OF waiter_ok_new ok(1) assms(2)] obtain w where
    "deliver (sch_before sch) (new_waiter fr fsize) = Ret w" "waiter_ok fr fsize w" by blast
  with wait_response_ok [OF _ ok(2,3) assms(2)] that show ?thesis by fastforce
qed

lemma conclude_transaction_frame:
  "tx_frame (conclude_transaction c self fsize node p io w) = w_frame w"
  "tx_frame_size (conclude_transaction c self fsize node p io w) \<in> {fsize, w_length w}"
  "tx_node (conclude_transaction c self fsize node p io w) =
     map_option (hinawa_fw_node_invalidate_transaction self) node"
  by (simp_all add: conclude_transaction_def Let_def split: option.split)

lemma rcode_error_kernel:
  assumes "constants_ok c" and "r \<noteq> HINAWA_FW_RCODE_INVALID"
  shows "rcode_error c (RCODE c r) =
    (if r = HINAWA_FW_RCODE_COMPLETE then None else Some (req_error_of_rcode r))"
  using assms(2)
  by (cases r) (simp_all add: rcode_error_def kernel_rcodes_def constants_ok_rcode_eq [OF assms(1)])

lemma rcode_error_unknown:
  "rcode \<notin> RCODE c ` set kernel_rcodes \<Longrightarrow> rcode_error c rcode = Some HINAWA_FW_REQ_ERROR_INVALID"
  by (simp add: rcode_error_def kernel_rcodes_def)

subsection \<open>Properties of requests\<close>

text \<open>C29. Sending a request on an opened node, with an operand shorter than half of the address
  space: the arguments are accepted exactly when the transaction is supported, aligned and fits the
  buffer. Then the sender is recorded as outstanding and exactly one ioctl is issued, with the
  payload length of the transaction and the generation of the bus the node has cached, the data
  attached but for reads. The call returns true even when the kernel refuses: only the error
  location shows it. Otherwise it returns false with no effect.\<close>

lemma request_outcome:
  assumes "errno_ok K" and "0 \<le> fd n" and "unat len < 2 ^ 63"
  shows "hinawa_fw_req_request c K self (Some n) tcode addr len (Some fr) (Some fsize) (Err None) =
    (let req = \<lparr>sr_tcode = TCODE c tcode,
                sr_length = word_of_nat (payload_bytes tcode (unat len)), sr_offset = addr,
                sr_closure = self,
                sr_data = (if tcode \<in> {HINAWA_FW_TCODE_READ_QUADLET_REQUEST,
                                       HINAWA_FW_TCODE_READ_BLOCK_REQUEST} then None else Some fr),
                sr_generation = br_generation (generation n)\<rparr>
     in if request_valid tcode (unat addr) (unat len) (unat fsize) then
          Ret (True, Some (n\<lparr>transactions := self # transactions n\<rparr>),
            Err (case K (fd n) (FW_CDEV_IOC_SEND_REQUEST req) of
                   Inr _ \<Rightarrow> None
                 | Inl e \<Rightarrow> Some (if e = ENODEV then node_local_error HINAWA_FW_NODE_ERROR_DISCONNECTED
                             else fw_req_error_with_errno HINAWA_FW_REQ_ERROR_SEND_ERROR e)),
            [FW_CDEV_IOC_SEND_REQUEST req])
        else Ret (False, Some n, Err None, []))"
proof (cases "request_valid tcode (unat addr) (unat len) (unat fsize)")
  case True
  then have l: "request_length tcode addr len (Some fr) (Some fsize) (Err None) =
      Some (word_of_nat (payload_bytes tcode (unat len)))"
    using assms(3) by (simp add: request_length_iff_valid)
  have trunc: "ucast (word_of_nat k :: u64) = (word_of_nat k :: u32)" for k
    by (subst word_unat_eq_iff) (simp add: unsigned_ucast_eq unsigned_of_nat)
  show ?thesis
    using True unfolding request_issued [OF assms(1,2) l] Let_def
    by (simp add: send_request_arg_def trunc register_transaction_def)
next
  case False
  with assms(3) show ?thesis
    by (simp add: request_refused request_length_iff_valid)
qed

text \<open>The node and the arguments of the closed instances: a quadlet read.\<close>

definition sample_node :: HinawaFwNode where
  "sample_node = hinawa_fw_node_init\<lparr>fd := 3\<rparr>"

lemma request_outcome_witness:
  "hinawa_fw_req_request numbered_constants (failing_kernel EINVAL) 7 (Some sample_node)
     HINAWA_FW_TCODE_LOCK_COMPARE_SWAP 0xfffff0000904 4 (Some [0,0,0,0,0,0,0,1]) (Some 8) (Err None) =
   Ret (True, Some (sample_node\<lparr>transactions := [7]\<rparr>),
     Err (Some (fw_req_error_with_errno HINAWA_FW_REQ_ERROR_SEND_ERROR EINVAL)),
     [FW_CDEV_IOC_SEND_REQUEST
        \<lparr>sr_tcode = 12, sr_length = 8, sr_offset = 0xfffff0000904, sr_closure = 7,
         sr_data = Some [0,0,0,0,0,0,0,1], sr_generation = 0\<rparr>])"
  using request_outcome [where K = "failing_kernel EINVAL" and n = sample_node and len = 4 and
      c = numbered_constants and self = 7 and tcode = HINAWA_FW_TCODE_LOCK_COMPARE_SWAP and
      addr = "0xfffff0000904" and fr = "[0,0,0,0,0,0,0,1]" and fsize = 8]
    errno_ok_failing [of EINVAL]
  by (simp add: failing_kernel_def sample_node_def hinawa_fw_node_init_def numbered_constants_def
      request_valid_def payload_bytes_def read_write_tcodes_def lock_tcodes_def aligned_tcodes_def)

text \<open>A caller that passes no error location, which the argument checks allow: as soon as the
  arguments are accepted, the node's ioctl wrapper refuses to do anything and the function then
  reads through the null pointer.\<close>

lemma request_without_error_location:
  "hinawa_fw_req_request c K self (Some n) tcode addr len frame frame_size NullErr =
    (if request_length tcode addr len frame frame_size (Err None) = None
     then Ret (False, Some n, NullErr, []) else Fault Null_Deref)"
proof -
  have "request_length tcode addr len frame frame_size NullErr =
      request_length tcode addr len frame frame_size (Err None)"
    by (simp add: request_length_def split: option.split)
  then show ?thesis
    by (auto simp: request_refused intro: request_null_error)
qed

text \<open>C31. Whatever the arguments, an ioctl issued for a request never declares more payload than
  the caller's buffer size. For a lock the check of the buffer size doubles the operand length in
  64 bits: with the length 2 to the 63 the product is 0, so a buffer of one byte is accepted and
  the kernel is asked for a transaction of no bytes.\<close>

lemma request_payload_within_buffer:
  "(case hinawa_fw_req_request c K self (Some n) tcode addr len frame (Some fsize) (Err es) of
      Ret (ok, n', p, io) \<Rightarrow>
        list_all (\<lambda>a. case a of FW_CDEV_IOC_SEND_REQUEST r \<Rightarrow> unat (sr_length r) \<le> unat fsize
                       | _ \<Rightarrow> False) io
    | Fault _ \<Rightarrow> False) \<and>
   request_length HINAWA_FW_TCODE_LOCK_COMPARE_SWAP 0 (2 ^ 63) (Some [0]) (Some 1) (Err None) = Some 0"
proof
  show "case hinawa_fw_req_request c K self (Some n) tcode addr len frame (Some fsize) (Err es) of
      Ret (ok, n', p, io) \<Rightarrow>
        list_all (\<lambda>a. case a of FW_CDEV_IOC_SEND_REQUEST r \<Rightarrow> unat (sr_length r) \<le> unat fsize
                       | _ \<Rightarrow> False) io
    | Fault _ \<Rightarrow> False"
  proof (cases "request_length tcode addr len frame (Some fsize) (Err es)")
    case None
    then show ?thesis by (simp add: request_refused)
  next
    case (Some l)
    let ?arg = "send_request_arg c self n tcode addr l frame"
    obtain r a n' p io where
      io: "hinawa_fw_node_ioctl K (Some n) (FW_CDEV_IOC_SEND_REQUEST ?arg) (Err es) = (r, a, n', p, io)"
      by (metis prod_cases5)
    obtain es' where p: "p = Err es'" using node_io.reports_kept [OF io] by blast
    have "unat (ucast l :: u32) \<le> unat l" by (simp add: unsigned_ucast_eq take_bit_eq_mod)
    then have "unat (sr_length ?arg) \<le> unat fsize"
      using request_length_bound [OF Some] by (simp add: send_request_arg_def)
    moreover have "io = [] \<or> io = [FW_CDEV_IOC_SEND_REQUEST ?arg]"
      using io by (rule node_io.issued_once)
    ultimately show ?thesis
      using Some io p by (auto simp: hinawa_fw_req_request_def)
  qed
  show "request_length HINAWA_FW_TCODE_LOCK_COMPARE_SWAP 0 (2 ^ 63) (Some [0]) (Some 1) (Err None) =
      Some 0"
    by code_simp
qed

subsection \<open>Properties of transactions\<close>

text \<open>The switch on the response code classifies every 32-bit value: completion for the
  kernel's code of completion only, the error of the same name for each other code the kernel
  defines, and \<open>INVALID\<close> exactly for the values the kernel does not define.\<close>

lemma rcode_error_exact:
  assumes "constants_ok c"
  shows "(rcode_error c rc = None \<longleftrightarrow> rc = RCODE c HINAWA_FW_RCODE_COMPLETE) \<and>
    (rcode_error c rc = Some HINAWA_FW_REQ_ERROR_INVALID \<longleftrightarrow> rc \<notin> RCODE c ` set kernel_rcodes) \<and>
    (\<forall>r. r \<noteq> HINAWA_FW_RCODE_COMPLETE \<longrightarrow> r \<noteq> HINAWA_FW_RCODE_INVALID \<longrightarrow>
       (rcode_error c rc = Some (req_error_of_rcode r) \<longleftrightarrow> rc = RCODE c r))"
proof (cases "rc \<in> RCODE c ` set kernel_rcodes")
  case False
  then have unk: "rcode_error c rc = Some HINAWA_FW_REQ_ERROR_INVALID"
    by (rule rcode_error_unknown)
  have "rc \<noteq> RCODE c r" if "r \<noteq> HINAWA_FW_RCODE_INVALID" for r
    using False that kernel_rcodes_iff by blast
  moreover have "req_error_of_rcode r \<noteq> HINAWA_FW_REQ_ERROR_INVALID"
    if "r \<noteq> HINAWA_FW_RCODE_COMPLETE" "r \<noteq> HINAWA_FW_RCODE_INVALID" for r
    using that by (cases r) simp_all
  ultimately show ?thesis
    using unk False by (auto dest: sym)
next
  case True
  then obtain q where q: "q \<noteq> HINAWA_FW_RCODE_INVALID" "rc = RCODE c q"
    by (auto simp: kernel_rcodes_iff)
  have err: "req_error_of_rcode q = req_error_of_rcode r \<longleftrightarrow> q = r"
    if "r \<noteq> HINAWA_FW_RCODE_COMPLETE" "r \<noteq> HINAWA_FW_RCODE_INVALID"
      "q \<noteq> HINAWA_FW_RCODE_COMPLETE" for r
    using that q(1) by (cases q; cases r) simp_all
  have "req_error_of_rcode q \<noteq> HINAWA_FW_REQ_ERROR_INVALID" if "q \<noteq> HINAWA_FW_RCODE_COMPLETE"
    using that q(1) by (cases q) simp_all
  with q True err show ?thesis
    by (auto simp: rcode_error_kernel [OF assms] constants_ok_rcode_eq [OF assms])
qed

lemma rcode_error_exact_witness:
  "rcode_error numbered_constants 8 = Some HINAWA_FW_REQ_ERROR_GENERATION \<and>
   rcode_error numbered_constants 77 = Some HINAWA_FW_REQ_ERROR_INVALID"
  using rcode_error_exact [OF numbered_constants_ok, of 8]
    rcode_error_exact [OF numbered_constants_ok, of 77]
  by (auto simp: numbered_constants_def kernel_rcodes_def
      dest: spec [where x = HINAWA_FW_RCODE_GENERATION])

text \<open>The caller's buffer after a transaction: same size, nothing past the declared size written, and
  the size handed back at most the declared one.\<close>

definition frame_kept :: "bytes \<Rightarrow> u64 \<Rightarrow> txn_result \<Rightarrow> bool" where
  "frame_kept fr fsize t \<longleftrightarrow> length (tx_frame t) = length fr \<and>
     drop (unat fsize) (tx_frame t) = drop (unat fsize) fr \<and> tx_frame_size t \<le> fsize"

lemma transaction_returns:
  assumes "errno_ok K" and "list_all signal_ok (deliveries sch)" and "unat fsize \<le> length fr"
  obtains t where "hinawa_fw_req_transaction_with_tstamp c K sch self (Some n) tcode addr len (Some fr)
      (Some fsize) True (Err None) = Ret (Some t)" "frame_kept fr fsize t"
  using assms(1)
proof (cases rule: request_returns [where c = c and self = self and n = n and tcode = tcode and
    addr = addr and len = len and frame = "Some fr" and frame_size = "Some fsize"])
  case refused
  with that show ?thesis by (simp add: hinawa_fw_req_transaction_with_tstamp_def frame_kept_def)
next
  case (sent n' es io)
  obtain w where w: "bind_run (deliver (sch_before sch) (new_waiter fr fsize))
      (wait_response (sch_wakes sch) (sch_timeout sch)) = Ret w" "waiter_ok fr fsize w"
    using wait_deliveries_ok [OF assms(2,3)] .
  show ?thesis
    by (rule that [OF transaction_eq [OF sent w(1)]])
       (use w(2) conclude_transaction_frame [of c self fsize "Some (sch_node sch n')" "Err es" io w]
        in \<open>auto simp: waiter_ok_def frame_kept_def\<close>)
qed

text \<open>C8. Memory safety of the blocking form: whatever signals the dispatcher delivers and
  whenever, as long as each event holds the bytes it declares and the caller's buffer has its
  declared size, the call returns without a fault; the buffer keeps its size, nothing past the
  declared size is written, and the size handed back is at most the declared one.\<close>

lemma transaction_memory_safe:
  assumes "errno_ok K" and "list_all signal_ok (deliveries sch)" and "unat fsize \<le> length fr"
  shows "\<exists>t. hinawa_fw_req_transaction_with_tstamp c K sch self (Some n) tcode addr len (Some fr)
      (Some fsize) True (Err None) = Ret (Some t) \<and>
    length (tx_frame t) = length fr \<and> drop (unat fsize) (tx_frame t) = drop (unat fsize) fr \<and>
    tx_frame_size t \<le> fsize"
proof -
  obtain t where "hinawa_fw_req_transaction_with_tstamp c K sch self (Some n) tcode addr len (Some fr)
      (Some fsize) True (Err None) = Ret (Some t)" "frame_kept fr fsize t"
    using transaction_returns [OF assms] by blast
  then show ?thesis by (simp add: frame_kept_def)
qed

text \<open>A response to a request.\<close>

definition sample_response :: "u32 \<Rightarrow> bytes \<Rightarrow> responded" where
  "sample_response rcode data =
     \<lparr>rp_rcode = rcode, rp_request_tstamp = 0x1234, rp_response_tstamp = 0x1240,
      rp_frame = data, rp_frame_size = word_of_nat (length data)\<rparr>"

definition schedule_of :: "responded list list \<Rightarrow> req_schedule" where
  "schedule_of wakes =
     \<lparr>sch_before = [], sch_wakes = wakes, sch_timeout = [], sch_node = (\<lambda>n. n)\<rparr>"

lemma transaction_memory_safe_witness:
  "\<exists>t. hinawa_fw_req_transaction_with_tstamp numbered_constants granting_kernel
      (schedule_of [[], [sample_response 0 [1, 2, 3, 4, 5, 6]]]) 7 (Some sample_node)
      HINAWA_FW_TCODE_READ_QUADLET_REQUEST 0xfffff0000400 4 (Some [0, 0, 0, 0, 9]) (Some 4) True
      (Err None) = Ret (Some t) \<and> length (tx_frame t) = length [0, 0, 0, 0, 9 :: u8] \<and> drop 4 (tx_frame t) = [9] \<and>
    tx_frame_size t \<le> 4"
  using transaction_memory_safe [where c = numbered_constants and K = granting_kernel and
      sch = "schedule_of [[], [sample_response 0 [1, 2, 3, 4, 5, 6]]]" and
      self = 7 and n = sample_node and tcode = HINAWA_FW_TCODE_READ_QUADLET_REQUEST and
      addr = "0xfffff0000400" and len = 4 and fr = "[0, 0, 0, 0, 9]" and fsize = 4]
    errno_ok_granting
  by (simp add: schedule_of_def deliveries_def sample_response_def signal_ok_def)

lemma transaction_answered_eq:
  fixes c self n
  assumes c: "constants_ok c" and K: "errno_ok K" and n: "0 \<le> fd n"
    and l: "request_length tcode addr len (Some fr) (Some fsize) (Err None) = Some l"
  defines "arg \<equiv> FW_CDEV_IOC_SEND_REQUEST (send_request_arg c self n tcode addr l (Some fr))"
  assumes accepted: "K (fd n) arg = Inr b"
    and s: "deliveries sch = [s]" "signal_ok s" "rp_rcode s = RCODE c r"
      "r \<noteq> HINAWA_FW_RCODE_INVALID"
    and fr: "unat fsize \<le> length fr"
  defines "k \<equiv> min (unat fsize) (unat (rp_frame_size s))"
  shows "hinawa_fw_req_transaction_with_tstamp c K sch self (Some n) tcode addr len (Some fr)
      (Some fsize) True (Err None) =
    Ret (Some \<lparr>tx_ok = (r = HINAWA_FW_RCODE_COMPLETE),
      tx_frame = take k (rp_frame s) @ drop k fr,
      tx_frame_size = (if r = HINAWA_FW_RCODE_COMPLETE then word_of_nat k else fsize),
      tx_tstamp = Some (rp_request_tstamp s, rp_response_tstamp s),
      tx_node = Some (hinawa_fw_node_invalidate_transaction self
        (sch_node sch (register_transaction self n))),
      tx_error = Err (if r = HINAWA_FW_RCODE_COMPLETE then None
                      else Some (fw_req_error_literal (req_error_of_rcode r))),
      tx_io = [arg]\<rparr>)"
proof -
  let ?len = "min fsize (ucast (rp_frame_size s) :: u64)"
  have len: "unat ?len = k" "?len = word_of_nat k"
    by (auto simp: k_def min_def word_le_nat_alt)
  have k: "k \<le> length fr" "k \<le> length (rp_frame s)"
    using fr s(2) by (simp_all add: k_def signal_ok_def)
  have "handle_responded_signal s (new_waiter fr fsize) =
      Ret \<lparr>w_rcode = rp_rcode s, w_request_tstamp = rp_request_tstamp s,
        w_response_tstamp = rp_response_tstamp s,
        w_frame = take k (rp_frame s) @ drop k fr, w_length = word_of_nat k\<rparr>"
    using k unfolding handle_responded_signal_def new_waiter_def waiter.select_convs Let_def
    by (simp only: len(1)) (simp add: len(2) memcpy_ok)
  with s(1) have wait: "bind_run (deliver (sch_before sch) (new_waiter fr fsize))
      (wait_response (sch_wakes sch) (sch_timeout sch)) =
      Ret \<lparr>w_rcode = RCODE c r, w_request_tstamp = rp_request_tstamp s,
        w_response_tstamp = rp_response_tstamp s,
        w_frame = take k (rp_frame s) @ drop k fr, w_length = word_of_nat k\<rparr>"
    using s(3) by (simp add: wait_deliveries_single)
  have "hinawa_fw_req_request c K self (Some n) tcode addr len (Some fr) (Some fsize) (Err None) =
      Ret (True, Some (register_transaction self n), Err None, [arg])"
    using accepted unfolding request_issued [OF K n l] arg_def by simp
  from transaction_eq [OF this wait] show ?thesis
    using constants_ok_rcode_max [OF c s(4)]
    by (simp add: conclude_transaction_def rcode_error_kernel [OF c s(4)])
qed

text \<open>A transaction whose request the kernel accepts and whose only response arrives before the
  deadline, whenever that is: the call returns true exactly for completion; the response's bytes
  are in the buffer up to the smaller of the two sizes and the rest is untouched; the buffer size
  is updated and the time stamps handed over; an error response is reported once under its own code;
  the request is no longer outstanding.\<close>

lemma transaction_answered:
  fixes c self n
  assumes c: "constants_ok c" and K: "errno_ok K" and n: "0 \<le> fd n"
    and l: "request_length tcode addr len (Some fr) (Some fsize) (Err None) = Some l"
  defines "arg \<equiv> FW_CDEV_IOC_SEND_REQUEST (send_request_arg c self n tcode addr l (Some fr))"
  assumes accepted: "K (fd n) arg = Inr b"
    and s: "deliveries sch = [s]" "signal_ok s" "rp_rcode s = RCODE c r"
      "r \<noteq> HINAWA_FW_RCODE_INVALID"
    and fr: "unat fsize \<le> length fr"
  defines "k \<equiv> min (unat fsize) (unat (rp_frame_size s))"
  shows "hinawa_fw_req_transaction_with_tstamp c K sch self (Some n) tcode addr len (Some fr)
      (Some fsize) True (Err None) =
    Ret (Some \<lparr>tx_ok = (r = HINAWA_FW_RCODE_COMPLETE),
      tx_frame = take k (rp_frame s) @ drop k fr,
      tx_frame_size = (if r = HINAWA_FW_RCODE_COMPLETE then word_of_nat k else fsize),
      tx_tstamp = Some (rp_request_tstamp s, rp_response_tstamp s),
      tx_node = Some (hinawa_fw_node_invalidate_transaction self
        (sch_node sch (register_transaction self n))),
      tx_error = Err (if r = HINAWA_FW_RCODE_COMPLETE then None
                      else Some (fw_req_error_literal (req_error_of_rcode r))),
      tx_io = [arg]\<rparr>)"
  unfolding arg_def k_def
  by (rule transaction_answered_eq [OF c K n l accepted [unfolded arg_def] s fr])

lemma transaction_answered_witness:
  "hinawa_fw_req_transaction_with_tstamp numbered_constants granting_kernel
      (schedule_of [[], [sample_response 0 [1, 2, 3, 4]]]) 7 (Some sample_node)
      HINAWA_FW_TCODE_READ_QUADLET_REQUEST 0xfffff0000400 4 (Some [0, 0, 0, 0, 9]) (Some 5) True
      (Err None) =
   Ret (Some \<lparr>tx_ok = True, tx_frame = [1, 2, 3, 4, 9], tx_frame_size = 4,
     tx_tstamp = Some (0x1234, 0x1240), tx_node = Some sample_node, tx_error = Err None,
     tx_io = [FW_CDEV_IOC_SEND_REQUEST (send_request_arg numbered_constants 7 sample_node
       HINAWA_FW_TCODE_READ_QUADLET_REQUEST 0xfffff0000400 4 (Some [0, 0, 0, 0, 9]))]\<rparr>)"
proof -
  let ?s = "sample_response 0 [1, 2, 3, 4]"
  have l: "request_length HINAWA_FW_TCODE_READ_QUADLET_REQUEST 0xfffff0000400 4
      (Some [0, 0, 0, 0, 9]) (Some 5) (Err None) = Some 4"
    by code_simp
  have s: "deliveries (schedule_of [[], [?s]]) = [?s]" "signal_ok ?s"
    "rp_rcode ?s = RCODE numbered_constants HINAWA_FW_RCODE_COMPLETE"
    by (simp_all add: schedule_of_def deliveries_def sample_response_def signal_ok_def
        numbered_constants_def)
  show ?thesis
    using transaction_answered [OF numbered_constants_ok errno_ok_granting _ l _ s, of sample_node]
    by (simp add: granting_kernel_def sample_node_def hinawa_fw_node_init_def schedule_of_def
        sample_response_def register_transaction_def hinawa_fw_node_invalidate_transaction_def)
qed

text \<open>C30. A transaction for which no signal is delivered until the deadline: the call returns false,
  leaves the caller's buffer and the size alone, and the request is no longer outstanding, so a late
  response is not delivered to it. When the kernel accepted the request, a timeout is reported. When the
  kernel had refused the request, the call waits until the deadline nevertheless, and then tries to
  report a timeout on top of the refusal; what the location holds is the refusal.\<close>

lemma transaction_unanswered:
  fixes c self n
  assumes K: "errno_ok K" and n: "0 \<le> fd n"
    and l: "request_length tcode addr len (Some fr) (Some fsize) (Err None) = Some l"
    and quiet: "deliveries sch = []"
  defines "arg \<equiv> FW_CDEV_IOC_SEND_REQUEST (send_request_arg c self n tcode addr l (Some fr))"
  shows "hinawa_fw_req_transaction_with_tstamp c K sch self (Some n) tcode addr len (Some fr)
      (Some fsize) True (Err None) =
    Ret (Some \<lparr>tx_ok = False, tx_frame = fr, tx_frame_size = fsize, tx_tstamp = None,
      tx_node = Some (hinawa_fw_node_invalidate_transaction self
        (sch_node sch (register_transaction self n))),
      tx_error = Err (Some (case K (fd n) arg of
          Inr _ \<Rightarrow> fw_req_error_literal HINAWA_FW_REQ_ERROR_CANCELLED
        | Inl e \<Rightarrow> if e = ENODEV then node_local_error HINAWA_FW_NODE_ERROR_DISCONNECTED
                   else fw_req_error_with_errno HINAWA_FW_REQ_ERROR_SEND_ERROR e)),
      tx_io = [arg]\<rparr>)"
  unfolding arg_def transaction_eq [OF request_issued [OF K n l] wait_deliveries_none [OF quiet]]
  by (simp add: conclude_transaction_def new_waiter_def split: sum.split)

lemma transaction_unanswered_witness:
  "hinawa_fw_req_transaction_with_tstamp numbered_constants (failing_kernel EINVAL)
      (schedule_of [[], []]) 7 (Some sample_node)
      HINAWA_FW_TCODE_READ_QUADLET_REQUEST 0xfffff0000400 4 (Some [0, 0, 0, 0]) (Some 4) True
      (Err None) =
   Ret (Some \<lparr>tx_ok = False, tx_frame = [0, 0, 0, 0], tx_frame_size = 4,
     tx_tstamp = None, tx_node = Some sample_node,
     tx_error = Err (Some (fw_req_error_with_errno HINAWA_FW_REQ_ERROR_SEND_ERROR EINVAL)),
     tx_io = [FW_CDEV_IOC_SEND_REQUEST (send_request_arg numbered_constants 7 sample_node
       HINAWA_FW_TCODE_READ_QUADLET_REQUEST 0xfffff0000400 4 (Some [0, 0, 0, 0]))]\<rparr>)"
proof -
  have l: "request_length HINAWA_FW_TCODE_READ_QUADLET_REQUEST 0xfffff0000400 4
      (Some [0, 0, 0, 0]) (Some 4) (Err None) = Some 4"
    by code_simp
  show ?thesis
    using transaction_unanswered [OF errno_ok_failing _ l, of EINVAL sample_node
        "schedule_of [[], []]" numbered_constants 7]
    by (simp add: failing_kernel_def sample_node_def hinawa_fw_node_init_def schedule_of_def
        deliveries_def register_transaction_def hinawa_fw_node_invalidate_transaction_def)
qed

end
