(* ===== verification/Fw_Resp.thy ===== *)
theory Fw_Resp
  imports Fw_Node
begin

text \<open>
  The class \<open>HinawaFwResp\<close> (\<open>src/fw_resp.c\<close>): an address range of the local node, and the
  answers to the requests that arrive there.

  Objects refer to a node by its address, so the nodes are a store (\<open>nodes\<close>): the objects that pass
  \<open>HINAWA_IS_FW_NODE\<close>, with their state. The record of the class is extensible: the private data
  of a derived class extends it.

  The handlers of the signal \<open>requested\<close> are a parameter: the emission takes the arguments of the
  signal, the object and the nodes, and gives the response code it stores with the object and the nodes
  as the handlers left them. \<open>g_signal_emit\<close> always stores a result: when no handler is connected it is 0,
  with which GLib initialises it (\<open>no_handler\<close>), so what the local variable \<open>rcode\<close> of the callers held
  before plays no role.
\<close>

subsection \<open>Nodes by address\<close>

type_synonym nodes = "obj_id \<Rightarrow> HinawaFwNode option"

definition node_at :: "nodes \<Rightarrow> obj_id option \<Rightarrow> HinawaFwNode option" where
  "node_at ns p = (case p of None \<Rightarrow> None | Some a \<Rightarrow> ns a)"

definition node_put :: "obj_id option \<Rightarrow> HinawaFwNode option \<Rightarrow> nodes \<Rightarrow> nodes" where
  "node_put p n ns = (case p of None \<Rightarrow> ns | Some a \<Rightarrow> ns(a := n))"

text \<open>\<open>hinawa_fw_node_ioctl\<close> on the node a pointer leads to.\<close>

definition ioctl_at ::
    "sys_ioctl \<Rightarrow> nodes \<Rightarrow> obj_id option \<Rightarrow> fw_ioctl \<Rightarrow> gerror_ptr \<Rightarrow>
     int \<times> fw_ioctl \<times> nodes \<times> gerror_ptr \<times> fw_ioctl list" where
  "ioctl_at K ns p args error =
     (let (err, args, n, error, io) = hinawa_fw_node_ioctl K (node_at ns p) args error
      in (err, args, node_put p n ns, error, io))"

subsection \<open>State\<close>

text \<open>\<open>req_frame\<close> is allocated and freed but never accessed: only the size of the block is kept.\<close>

record HinawaFwResp =
  resp_node :: "obj_id option"
  offset :: u64
  width :: u32
  addr_handle :: u64
  req_frame :: "u32 option"
  req_length :: u64
  resp_frame :: "bytes option"
  resp_length :: u64

definition hinawa_fw_resp_init :: HinawaFwResp where
  "hinawa_fw_resp_init =
     \<lparr>resp_node = None, offset = 0, width = 0, addr_handle = 0, req_frame = None, req_length = 0,
      resp_frame = None, resp_length = 0\<rparr>"

datatype fw_resp_prop_type =
    FW_RESP_PROP_TYPE_IS_RESERVED
  | FW_RESP_PROP_TYPE_OFFSET
  | FW_RESP_PROP_TYPE_WIDTH
  | FW_RESP_PROP_TYPE_COUNT

datatype fw_resp_prop = Reserved bool | Offset u64 | Width u32

primrec fw_resp_get_property ::
    "'a HinawaFwResp_scheme \<Rightarrow> fw_resp_prop_type \<Rightarrow> fw_resp_prop option" where
  "fw_resp_get_property self FW_RESP_PROP_TYPE_IS_RESERVED =
     Some (Reserved (resp_node self \<noteq> None))"
| "fw_resp_get_property self FW_RESP_PROP_TYPE_OFFSET = Some (Offset (offset self))"
| "fw_resp_get_property self FW_RESP_PROP_TYPE_WIDTH = Some (Width (width self))"
| "fw_resp_get_property self FW_RESP_PROP_TYPE_COUNT = None"

subsection \<open>Error reports\<close>

fun resp_err_msgs :: "HinawaFwRespError \<Rightarrow> string" where
  "resp_err_msgs HINAWA_FW_RESP_ERROR_RESERVED = ''Reservation of address space is already done''"
| "resp_err_msgs HINAWA_FW_RESP_ERROR_ADDR_SPACE_USED =
     ''The requested range of address is already used exclusively''"
| "resp_err_msgs HINAWA_FW_RESP_ERROR_FAILED = ''''"

definition resp_local_error :: "HinawaFwRespError \<Rightarrow> gerror" where
  "resp_local_error code =
     \<lparr>error_code = FW_RESP_ERROR code, error_message = Literal (resp_err_msgs code)\<rparr>"

definition resp_syscall_error :: "int \<Rightarrow> string \<Rightarrow> gerror" where
  "resp_syscall_error err_no call =
     \<lparr>error_code = FW_RESP_ERROR HINAWA_FW_RESP_ERROR_FAILED,
      error_message = With_Errno call err_no\<rparr>"

subsection \<open>Reserving and releasing an address range\<close>

text \<open>\<open>g_malloc0\<close>: a null pointer when no byte is asked for.\<close>

definition g_malloc0 :: "nat \<Rightarrow> bytes option" where
  "g_malloc0 n = (if n = 0 then None else Some (replicate n 0))"

definition allocate_request :: "obj_id \<Rightarrow> u64 \<Rightarrow> u64 \<Rightarrow> u32 \<Rightarrow> fw_cdev_allocate" where
  "allocate_request self region_start region_end w =
     \<lparr>al_offset = region_start, al_closure = self, al_length = w, al_handle = 0,
      al_region_end = region_end\<rparr>"

text \<open>The object after the kernel granted \<open>a\<close>.\<close>

definition granted_range ::
    "obj_id option \<Rightarrow> fw_cdev_allocate \<Rightarrow> 'a HinawaFwResp_scheme \<Rightarrow> 'a HinawaFwResp_scheme" where
  "granted_range node a priv =
     priv\<lparr>resp_node := node,
          req_frame := (if al_length a = 0 then None else Some (al_length a)),
          resp_frame := g_malloc0 (unat (al_length a)), offset := al_offset a,
          width := al_length a, addr_handle := ucast (al_handle a)\<rparr>"

definition hinawa_fw_resp_reserve_within_region ::
    "sys_ioctl \<Rightarrow> obj_id \<Rightarrow> 'a HinawaFwResp_scheme \<Rightarrow> nodes \<Rightarrow> obj_id option \<Rightarrow> u64 \<Rightarrow> u64 \<Rightarrow> u32 \<Rightarrow>
     gerror_ptr \<Rightarrow> (bool \<times> 'a HinawaFwResp_scheme \<times> nodes \<times> gerror_ptr \<times> fw_ioctl list) run" where
  "hinawa_fw_resp_reserve_within_region K self priv ns node region_start region_end w error =
     (if \<not> 0 < w \<or> \<not> error_unset error then Ret (False, priv, ns, error, [])
      else if resp_node priv \<noteq> None then
        Ret (False, priv, ns,
             g_set_error error (resp_local_error HINAWA_FW_RESP_ERROR_RESERVED), [])
      else
        let allocate = allocate_request self region_start region_end w;
            (err, args, ns, error, io) = ioctl_at K ns node (FW_CDEV_IOC_ALLOCATE allocate) error;
            allocate = allocate_arg allocate args
        in bind_run (deref_is_null error) (\<lambda>unset.
             if \<not> unset then Ret (False, priv, ns, error, io)
             else if 0 < err then
               Ret (False, priv, ns,
                    g_set_error error
                      (if err = EBUSY then resp_local_error HINAWA_FW_RESP_ERROR_ADDR_SPACE_USED
                       else resp_syscall_error err ''ioctl(FW_CDEV_IOC_ALLOCATE)''), io)
             else
               Ret (True, granted_range node allocate priv, ns, error, io)))"

definition hinawa_fw_resp_reserve ::
    "sys_ioctl \<Rightarrow> obj_id \<Rightarrow> 'a HinawaFwResp_scheme \<Rightarrow> nodes \<Rightarrow> obj_id option \<Rightarrow> u64 \<Rightarrow> u32 \<Rightarrow>
     gerror_ptr \<Rightarrow> (bool \<times> 'a HinawaFwResp_scheme \<times> nodes \<times> gerror_ptr \<times> fw_ioctl list) run" where
  "hinawa_fw_resp_reserve K self priv ns node addr w error =
     hinawa_fw_resp_reserve_within_region K self priv ns node addr (addr + ucast w) w error"

definition hinawa_fw_resp_release ::
    "sys_ioctl \<Rightarrow> 'a HinawaFwResp_scheme \<Rightarrow> nodes \<Rightarrow>
     'a HinawaFwResp_scheme \<times> nodes \<times> fw_ioctl list" where
  "hinawa_fw_resp_release K priv ns =
     (if resp_node priv = None then (priv, ns, [])
      else
        let deallocate = \<lparr>de_handle = ucast (addr_handle priv)\<rparr>;
            (err, args, ns, error, io) =
              ioctl_at K ns (resp_node priv) (FW_CDEV_IOC_DEALLOCATE deallocate) (Err None)
        in (priv\<lparr>resp_node := None, req_frame := None, resp_frame := None, resp_length := 0,
                 offset := 0, width := 0\<rparr>, ns, io))"

definition fw_resp_finalize ::
    "sys_ioctl \<Rightarrow> 'a HinawaFwResp_scheme \<Rightarrow> nodes \<Rightarrow>
     'a HinawaFwResp_scheme \<times> nodes \<times> fw_ioctl list" where
  "fw_resp_finalize K priv ns = hinawa_fw_resp_release K priv ns"

text \<open>The frame handed over for the next response: ignored when it is longer than the range.\<close>

definition hinawa_fw_resp_set_resp_frame ::
    "'a HinawaFwResp_scheme \<Rightarrow> bytes option \<Rightarrow> u64 \<Rightarrow> 'a HinawaFwResp_scheme run" where
  "hinawa_fw_resp_set_resp_frame priv frame len =
     (case frame of
        None \<Rightarrow> Ret priv
      | Some fr \<Rightarrow>
        if \<not> 0 < len then Ret priv
        else if len \<le> ucast (width priv) then
          (case resp_frame priv of
             None \<Rightarrow> Fault Null_Deref
           | Some dst \<Rightarrow>
             bind_run (memcpy dst fr (unat len)) (\<lambda>dst.
               Ret (priv\<lparr>resp_frame := Some dst, resp_length := len\<rparr>)))
        else Ret priv)"

subsection \<open>Answering requests\<close>

text \<open>The arguments of the signal \<open>requested\<close>.\<close>

record requested =
  rd_tcode :: u32
  rd_offset :: u64
  rd_src_node_id :: u32
  rd_dst_node_id :: u32
  rd_card_id :: u32
  rd_generation :: u32
  rd_tstamp :: u32
  rd_frame :: bytes
  rd_length :: u32

type_synonym 'a requested_emission =
  "requested \<Rightarrow> 'a HinawaFwResp_scheme \<times> nodes \<Rightarrow>
   (u32 \<times> 'a HinawaFwResp_scheme \<times> nodes) run"

text \<open>\<open>memset\<close> on a buffer that may be null: writing no byte there is harmless.\<close>

definition clear_frame :: "bytes option \<Rightarrow> nat \<Rightarrow> bytes option run" where
  "clear_frame fr n =
     (case fr of
        None \<Rightarrow> (if n = 0 then Ret None else Fault Null_Deref)
      | Some b \<Rightarrow> bind_run (memset b 0 n) (\<lambda>b. Ret (Some b)))"

definition send_response_arg :: "u32 \<Rightarrow> u32 \<Rightarrow> 'a HinawaFwResp_scheme \<Rightarrow> fw_cdev_send_response" where
  "send_response_arg rcode handle priv =
     \<lparr>sp_rcode = rcode,
      sp_length = (if 0 < resp_length priv then ucast (resp_length priv) else 0),
      sp_data = (if 0 < resp_length priv then resp_frame priv else None),
      sp_handle = handle\<rparr>"

text \<open>The body the three handlers share: \<open>sig\<close> are the arguments of the signal, \<open>handle\<close> is that of the
  event.\<close>

definition answer_request ::
    "fw_constants \<Rightarrow> sys_ioctl \<Rightarrow> 'a requested_emission \<Rightarrow> requested \<Rightarrow> u32 \<Rightarrow>
     'a HinawaFwResp_scheme \<times> nodes \<Rightarrow>
     (('a HinawaFwResp_scheme \<times> nodes) \<times> fw_ioctl list) run" where
  "answer_request c K E sig handle st =
     (let (priv, ns) = st
      in bind_run (clear_frame (resp_frame priv) (unat (width priv))) (\<lambda>fr.
         let priv = priv\<lparr>resp_frame := fr, resp_length := 0\<rparr>
         in bind_run
              (if resp_node priv = None \<or> width priv < rd_length sig then
                 Ret (RCODE c HINAWA_FW_RCODE_CONFLICT_ERROR, priv, ns)
               else
                 E sig (priv, ns))
              (\<lambda>(rcode, priv, ns).
               let resp = send_response_arg rcode handle priv;
                   (err, args, ns, error, io) =
                     ioctl_at K ns (resp_node priv) (FW_CDEV_IOC_SEND_RESPONSE resp) (Err None)
               in Ret ((priv, ns), io))))"

definition hinawa_fw_resp_handle_request ::
    "fw_constants \<Rightarrow> sys_ioctl \<Rightarrow> 'a requested_emission \<Rightarrow> fw_cdev_event_request \<Rightarrow>
     'a HinawaFwResp_scheme \<times> nodes \<Rightarrow>
     (('a HinawaFwResp_scheme \<times> nodes) \<times> fw_ioctl list) run" where
  "hinawa_fw_resp_handle_request c K E event st =
     answer_request c K E
       \<lparr>rd_tcode = rq_tcode event, rd_offset = rq_offset event, rd_src_node_id = G_MAXUINT,
        rd_dst_node_id = G_MAXUINT, rd_card_id = G_MAXUINT, rd_generation = G_MAXUINT,
        rd_tstamp = G_MAXUINT, rd_frame = rq_data event, rd_length = rq_length event\<rparr>
       (rq_handle event) st"

definition hinawa_fw_resp_handle_request2 ::
    "fw_constants \<Rightarrow> sys_ioctl \<Rightarrow> 'a requested_emission \<Rightarrow> fw_cdev_event_request2 \<Rightarrow>
     'a HinawaFwResp_scheme \<times> nodes \<Rightarrow>
     (('a HinawaFwResp_scheme \<times> nodes) \<times> fw_ioctl list) run" where
  "hinawa_fw_resp_handle_request2 c K E event st =
     answer_request c K E
       \<lparr>rd_tcode = rq2_tcode event, rd_offset = rq2_offset event,
        rd_src_node_id = rq2_source_node_id event,
        rd_dst_node_id = rq2_destination_node_id event, rd_card_id = rq2_card event,
        rd_generation = rq2_generation event, rd_tstamp = G_MAXUINT,
        rd_frame = rq2_data event, rd_length = rq2_length event\<rparr>
       (rq2_handle event) st"

definition hinawa_fw_resp_handle_request3 ::
    "fw_constants \<Rightarrow> sys_ioctl \<Rightarrow> 'a requested_emission \<Rightarrow> fw_cdev_event_request3 \<Rightarrow>
     'a HinawaFwResp_scheme \<times> nodes \<Rightarrow>
     (('a HinawaFwResp_scheme \<times> nodes) \<times> fw_ioctl list) run" where
  "hinawa_fw_resp_handle_request3 c K E event st =
     answer_request c K E
       \<lparr>rd_tcode = rq3_tcode event, rd_offset = rq3_offset event,
        rd_src_node_id = rq3_source_node_id event,
        rd_dst_node_id = rq3_destination_node_id event, rd_card_id = rq3_card event,
        rd_generation = rq3_generation event, rd_tstamp = rq3_tstamp event,
        rd_frame = rq3_data event, rd_length = rq3_length event\<rparr>
       (rq3_handle event) st"

subsection \<open>The node behind a pointer\<close>

lemma ioctl_at_nodes:
  assumes "ioctl_at K ns p a e = (r, a', ns', e', io)"
    and "\<And>d. a \<noteq> FW_CDEV_IOC_SEND_REQUEST d"
  shows "ns' = ns"
proof -
  obtain n' where io: "hinawa_fw_node_ioctl K (node_at ns p) a e = (r, a', n', e', io)"
    and ns': "ns' = node_put p n' ns"
    using assms(1) by (auto simp: ioctl_at_def split: prod.splits)
  have "n' = node_at ns p"
    using io assms(2) by (cases rule: node_ioctl_cases) (auto split: fw_ioctl.splits)
  with ns' show ?thesis
    by (auto simp: node_put_def node_at_def split: option.splits)
qed

lemma ioctl_at_eq:
  "ioctl_at K ns p a e = (r, a', ns', e', io) \<Longrightarrow>
   hinawa_fw_node_ioctl K (node_at ns p) a e = (r, a', node_at ns' p, e', io)"
  by (auto simp: ioctl_at_def node_put_def node_at_def hinawa_fw_node_ioctl_def Let_def
      split: prod.splits option.splits if_splits sum.splits)

lemma ioctl_at_issued:
  assumes "node_at ns p = Some n" and "0 \<le> fd n" and "\<And>d. a \<noteq> FW_CDEV_IOC_SEND_REQUEST d"
  obtains r a' e' where "ioctl_at K ns p a (Err es) = (r, a', ns, e', [a])"
proof -
  obtain r a' ns' e' io where io: "ioctl_at K ns p a (Err es) = (r, a', ns', e', io)"
    by (metis prod_cases5)
  have "ns' = ns" using io assms(3) by (rule ioctl_at_nodes)
  moreover have "io = [a]"
    using ioctl_at_eq [OF io] assms(1,2) by (cases rule: node_ioctl_cases) auto
  ultimately show ?thesis using io that by simp
qed

lemma ioctl_at_none:
  "node_at ns p = None \<Longrightarrow> ioctl_at K ns p a e = (ENXIO, a, ns, e, [])"
  by (auto simp: ioctl_at_def hinawa_fw_node_ioctl_def node_put_def node_at_def
      split: option.splits)

subsection \<open>Well-formed objects\<close>

text \<open>The response frame is a block of exactly \<open>width\<close> bytes (none when that is 0), the response
  fits in it, and an object with no node has no range.\<close>

definition resp_ok :: "'a HinawaFwResp_scheme \<Rightarrow> bool" where
  "resp_ok priv \<longleftrightarrow>
     (case resp_frame priv of None \<Rightarrow> width priv = 0 | Some b \<Rightarrow> length b = unat (width priv)) \<and>
     unat (resp_length priv) \<le> unat (width priv) \<and>
     (resp_node priv = None \<longrightarrow> width priv = 0 \<and> offset priv = 0)"

lemma resp_ok_init: "resp_ok hinawa_fw_resp_init"
  by (simp add: resp_ok_def hinawa_fw_resp_init_def)

lemma set_resp_frame_ok:
  assumes "resp_ok priv" and "case frame of None \<Rightarrow> True | Some fr \<Rightarrow> unat len \<le> length fr"
  obtains priv' where "hinawa_fw_resp_set_resp_frame priv frame len = Ret priv'" "resp_ok priv'"
    "resp_node priv' = resp_node priv" "width priv' = width priv"
proof (cases "\<exists>fr. frame = Some fr \<and> 0 < len \<and> len \<le> ucast (width priv)")
  case False
  then have "hinawa_fw_resp_set_resp_frame priv frame len = Ret priv"
    by (auto simp: hinawa_fw_resp_set_resp_frame_def split: option.split)
  with assms(1) that show ?thesis by blast
next
  case True
  then obtain fr where fr: "frame = Some fr" "0 < len" "len \<le> ucast (width priv)" by blast
  then have len: "unat len \<le> unat (width priv)" by (simp add: word_le_nat_alt)
  have "width priv \<noteq> 0" using fr(2,3) by auto
  then obtain b where b: "resp_frame priv = Some b" "length b = unat (width priv)"
    using assms(1) by (auto simp: resp_ok_def split: option.splits)
  have set_frame: "hinawa_fw_resp_set_resp_frame priv frame len =
      Ret (priv\<lparr>resp_frame := Some (take (unat len) fr @ drop (unat len) b), resp_length := len\<rparr>)"
    using fr b len assms(2) by (simp add: hinawa_fw_resp_set_resp_frame_def memcpy_ok)
  show ?thesis
    by (rule that [OF set_frame])
       (use assms b fr(1) len in \<open>auto simp: resp_ok_def split: option.splits\<close>)
qed

lemma release_ok:
  assumes "resp_ok priv" and "hinawa_fw_resp_release K priv ns = (priv', ns', io)"
  shows "resp_ok priv' \<and> ns' = ns \<and> resp_node priv' = None"
proof (cases "resp_node priv = None")
  case True
  with assms show ?thesis by (auto simp: hinawa_fw_resp_release_def)
next
  case False
  obtain r a e ns'' io' where io: "ioctl_at K ns (resp_node priv)
      (FW_CDEV_IOC_DEALLOCATE \<lparr>de_handle = ucast (addr_handle priv)\<rparr>) (Err None) =
      (r, a, ns'', e, io')"
    by (metis prod_cases5)
  then have "ns'' = ns" by (rule ioctl_at_nodes) simp
  with assms(2) False io show ?thesis
    by (auto simp: hinawa_fw_resp_release_def resp_ok_def)
qed

subsection \<open>Properties of address ranges\<close>

text \<open>What the kernel documents of \<open>FW_CDEV_IOC_ALLOCATE\<close>: the range it grants has the length asked
  for and lies in the region.\<close>

definition allocate_ok :: "sys_ioctl \<Rightarrow> bool" where
  "allocate_ok K \<longleftrightarrow> (\<forall>d a b. K d (FW_CDEV_IOC_ALLOCATE a) = Inr b \<longrightarrow>
     (\<exists>a'. b = FW_CDEV_IOC_ALLOCATE a' \<and> al_length a' = al_length a \<and>
        unat (al_offset a) \<le> unat (al_offset a') \<and>
        unat (al_offset a') + unat (al_length a') \<le> unat (al_region_end a)))"

text \<open>A kernel that places the range at the start of the region, with the handle \<open>h\<close>.\<close>

definition first_fit_kernel :: "u32 \<Rightarrow> sys_ioctl" where
  "first_fit_kernel h d a =
     (case a of
        FW_CDEV_IOC_ALLOCATE al \<Rightarrow>
          if unat (al_offset al) + unat (al_length al) \<le> unat (al_region_end al)
          then Inr (FW_CDEV_IOC_ALLOCATE (al\<lparr>al_handle := h\<rparr>)) else Inl EBUSY
      | _ \<Rightarrow> Inr a)"

lemma first_fit_ok: "allocate_ok (first_fit_kernel h)" "errno_ok (first_fit_kernel h)"
  by (auto simp: allocate_ok_def errno_ok_def first_fit_kernel_def split: fw_ioctl.splits if_splits)

lemma granted_range_ok:
  "resp_ok priv \<Longrightarrow> resp_node priv = None \<Longrightarrow> node \<noteq> None \<Longrightarrow> resp_ok (granted_range node a priv)"
  by (auto simp: resp_ok_def granted_range_def g_malloc0_def unsigned_eq_0_iff split: option.splits)

lemma reserve_eq:
  fixes self region_start region_end w
  assumes K: "errno_ok K" and w: "0 < w" and free: "resp_node priv = None"
    and n: "node_at ns node = Some n" "0 \<le> fd n"
  defines "a \<equiv> allocate_request self region_start region_end w"
  shows "hinawa_fw_resp_reserve_within_region K self priv ns node region_start region_end w (Err None) =
    Ret (case K (fd n) (FW_CDEV_IOC_ALLOCATE a) of
      Inl e \<Rightarrow> (False, priv, ns,
        Err (Some (if e = ENODEV then node_local_error HINAWA_FW_NODE_ERROR_DISCONNECTED
             else if e = EBUSY then resp_local_error HINAWA_FW_RESP_ERROR_ADDR_SPACE_USED
             else resp_syscall_error e ''ioctl(FW_CDEV_IOC_ALLOCATE)'')), [FW_CDEV_IOC_ALLOCATE a])
    | Inr b \<Rightarrow> (True, granted_range node (allocate_arg a b) priv, ns, Err None,
        [FW_CDEV_IOC_ALLOCATE a]))"
proof -
  obtain r b ns' p io where
    io: "ioctl_at K ns node (FW_CDEV_IOC_ALLOCATE a) (Err None) = (r, b, ns', p, io)"
    by (metis prod_cases5)
  have ns: "ns' = ns" using io by (rule ioctl_at_nodes) simp
  have res: "hinawa_fw_resp_reserve_within_region K self priv ns node region_start region_end w
      (Err None) = bind_run (deref_is_null p) (\<lambda>unset.
        if \<not> unset then Ret (False, priv, ns, p, io)
        else if 0 < r then Ret (False, priv, ns, g_set_error p
          (if r = EBUSY then resp_local_error HINAWA_FW_RESP_ERROR_ADDR_SPACE_USED
           else resp_syscall_error r ''ioctl(FW_CDEV_IOC_ALLOCATE)''), io)
        else Ret (True, granted_range node (allocate_arg a b) priv, ns, p, io))"
    using w free io ns unfolding a_def
    by (simp add: hinawa_fw_resp_reserve_within_region_def)
  from ioctl_at_eq [OF io] show ?thesis
  proof (cases rule: node_ioctl_cases)
    case (failed m e)
    then have "0 < e" using K errno_okD by blast
    with failed n res show ?thesis by auto
  next
    case (granted m)
    with n res show ?thesis by auto
  qed (use n in auto)
qed

text \<open>C34. Reserving a range on an opened node, with an object that has none: exactly one ioctl is
  issued, a refusal is reported exactly once, under its own code for a range in use, and leaves
  the object alone. When the kernel grants the range, it lies in the region, the object is
  well-formed with a zeroed response frame of the width of the range, and a following release
  deallocates exactly the handle the kernel gave and leaves an object that can be reserved again.\<close>

lemma reserve_release_roundtrip:
  assumes "errno_ok K" and "allocate_ok K" and "0 < w" and "resp_ok priv" and "resp_node priv = None"
    and "node_at ns node = Some n" and "0 \<le> fd n"
  shows "\<exists>ok priv' p.
    hinawa_fw_resp_reserve_within_region K self priv ns node region_start region_end w (Err None) =
      Ret (ok, priv', ns, p, [FW_CDEV_IOC_ALLOCATE (allocate_request self region_start region_end w)])
    \<and> resp_ok priv' \<and>
    (if ok then p = Err None \<and> resp_node priv' = node \<and> width priv' = w \<and>
         unat region_start \<le> unat (offset priv') \<and>
         unat (offset priv') + unat w \<le> unat region_end \<and>
         resp_frame priv' = Some (replicate (unat w) 0) \<and>
         (\<exists>b released. K (fd n) (FW_CDEV_IOC_ALLOCATE
               (allocate_request self region_start region_end w)) = Inr (FW_CDEV_IOC_ALLOCATE b) \<and>
            hinawa_fw_resp_release K priv' ns =
              (released, ns, [FW_CDEV_IOC_DEALLOCATE \<lparr>de_handle = al_handle b\<rparr>]) \<and>
            resp_ok released \<and> resp_node released = None)
     else error_stored p \<and> priv' = priv)"
proof -
  let ?a = "allocate_request self region_start region_end w"
  note eq = reserve_eq [OF assms(1,3,5,6,7), of self region_start region_end]
  show ?thesis
  proof (cases "K (fd n) (FW_CDEV_IOC_ALLOCATE ?a)")
    case (Inl e)
    with eq assms(4) show ?thesis by (intro exI [of _ False]) simp
  next
    case (Inr b)
    with assms(2) obtain b' where b: "b = FW_CDEV_IOC_ALLOCATE b'" "al_length b' = w"
      "unat region_start \<le> unat (al_offset b')" "unat (al_offset b') + unat w \<le> unat region_end"
      by (fastforce simp: allocate_ok_def allocate_request_def)
    let ?p = "granted_range node b' priv"
    have node: "node \<noteq> None" using assms(6) by (cases node) (simp_all add: node_at_def)
    then have ok: "resp_ok ?p" using assms(4,5) by (simp add: granted_range_ok)
    have h: "ucast (addr_handle ?p) = al_handle b'"
      by (simp add: granted_range_def ucast_up_ucast_id is_up)
    have rn: "resp_node ?p = node" by (simp add: granted_range_def)
    obtain r a e where "ioctl_at K ns node (FW_CDEV_IOC_DEALLOCATE \<lparr>de_handle = al_handle b'\<rparr>)
        (Err None) = (r, a, ns, e, [FW_CDEV_IOC_DEALLOCATE \<lparr>de_handle = al_handle b'\<rparr>])"
      using ioctl_at_issued [OF assms(6,7)] by blast
    then obtain released where rel: "hinawa_fw_resp_release K ?p ns =
        (released, ns, [FW_CDEV_IOC_DEALLOCATE \<lparr>de_handle = al_handle b'\<rparr>])"
      using node by (simp add: hinawa_fw_resp_release_def h rn)
    have "unat w \<noteq> 0" using assms(3) by (simp add: unat_eq_0 word_gt_0)
    with b have sel: "width ?p = w" "offset ?p = al_offset b'"
      "resp_frame ?p = Some (replicate (unat w) 0)"
      by (simp_all add: granted_range_def g_malloc0_def)
    show ?thesis
      by (rule exI [of _ True], rule exI [of _ ?p], rule exI [of _ "Err None"])
         (use Inr eq b rel release_ok [OF ok rel] ok in \<open>simp add: sel rn\<close>)
  qed
qed

lemma reserve_release_roundtrip_witness:
  "\<exists>ok priv' p. hinawa_fw_resp_reserve_within_region (first_fit_kernel 5) 7 hinawa_fw_resp_init
      [2 \<mapsto> hinawa_fw_node_init\<lparr>fd := 3\<rparr>] (Some 2) 0x1000 0x2000 16 (Err None) =
      Ret (ok, priv', [2 \<mapsto> hinawa_fw_node_init\<lparr>fd := 3\<rparr>], p,
        [FW_CDEV_IOC_ALLOCATE (allocate_request 7 0x1000 0x2000 16)]) \<and> resp_ok priv'"
proof -
  have "resp_node hinawa_fw_resp_init = None" by (simp add: hinawa_fw_resp_init_def)
  moreover have "node_at [2 \<mapsto> hinawa_fw_node_init\<lparr>fd := 3\<rparr>] (Some 2) =
      Some (hinawa_fw_node_init\<lparr>fd := 3\<rparr>)"
    by (simp add: node_at_def)
  moreover have "0 \<le> fd (hinawa_fw_node_init\<lparr>fd := 3\<rparr>)" by simp
  ultimately show ?thesis
    using reserve_release_roundtrip [where K = "first_fit_kernel 5" and w = 16 and
        priv = hinawa_fw_resp_init and ns = "[2 \<mapsto> hinawa_fw_node_init\<lparr>fd := 3\<rparr>]" and
        node = "Some 2" and n = "hinawa_fw_node_init\<lparr>fd := 3\<rparr>" and self = 7 and
        region_start = "0x1000" and region_end = "0x2000", OF first_fit_ok(2,1) _ resp_ok_init]
    by fastforce
qed

text \<open>\<open>hinawa_fw_resp_reserve\<close> asks for a region of exactly the width of the range, so when it
  succeeds the range starts at the address asked for, provided the address and the width do not
  wrap at 64 bits.\<close>

lemma reserve_exact_address:
  assumes "errno_ok K" and "allocate_ok K" and "unat addr + unat w < 2 ^ 64"
    and "node_at ns node = Some n" and "0 \<le> fd n"
    and "hinawa_fw_resp_reserve K self priv ns node addr w (Err None) = Ret (True, priv', ns', p, io)"
  shows "offset priv' = addr \<and> width priv' = w \<and> resp_node priv' = node \<and> p = Err None"
proof -
  let ?a = "allocate_request self addr (addr + ucast w) w"
  have w: "0 < w" and free: "resp_node priv = None"
    using assms(6) by (auto simp: hinawa_fw_resp_reserve_def
        hinawa_fw_resp_reserve_within_region_def split: if_splits)
  have res: "hinawa_fw_resp_reserve_within_region K self priv ns node addr (addr + ucast w) w (Err None) =
      Ret (True, priv', ns', p, io)"
    using assms(6) by (simp add: hinawa_fw_resp_reserve_def)
  then obtain b where b: "K (fd n) (FW_CDEV_IOC_ALLOCATE ?a) = Inr b"
    "priv' = granted_range node (allocate_arg ?a b) priv" "p = Err None"
    using reserve_eq [OF assms(1) w free assms(4,5), of self addr "addr + ucast w"]
    by (auto split: sum.splits)
  with assms(2) obtain b' where b': "b = FW_CDEV_IOC_ALLOCATE b'" "al_length b' = w"
    "unat addr \<le> unat (al_offset b')" "unat (al_offset b') + unat w \<le> unat (addr + ucast w)"
    by (fastforce simp: allocate_ok_def allocate_request_def)
  have "unat (addr + ucast w) = unat addr + unat w"
    using assms(3) by (simp add: unat_word_ariths)
  with b' have "al_offset b' = addr" by (simp add: word_unat_eq_iff)
  with b b' show ?thesis by (simp add: granted_range_def)
qed

text \<open>Passing no error location to a reservation, which the argument checks allow: unless the
  object is reserved already, the function reads through the null pointer.\<close>

lemma reserve_without_error_location:
  "hinawa_fw_resp_reserve_within_region K self priv ns node region_start region_end w NullErr =
    (if 0 < w \<and> resp_node priv = None then Fault Null_Deref else Ret (False, priv, ns, NullErr, []))"
proof -
  obtain r a ns' p io where io: "ioctl_at K ns node
      (FW_CDEV_IOC_ALLOCATE (allocate_request self region_start region_end w)) NullErr =
      (r, a, ns', p, io)"
    by (metis prod_cases5)
  have "p = NullErr" using node_io.null_stays_null [OF ioctl_at_eq [OF io]] .
  with io show ?thesis
    by (auto simp: hinawa_fw_resp_reserve_within_region_def word_gt_0)
qed

subsection \<open>Serving requests\<close>

text \<open>An object that holds a range on an opened node, and signal handlers which leave it so.\<close>

definition serving :: "'a HinawaFwResp_scheme \<times> nodes \<Rightarrow> bool" where
  "serving st \<longleftrightarrow> resp_ok (fst st) \<and>
     (case node_at (snd st) (resp_node (fst st)) of None \<Rightarrow> False | Some n \<Rightarrow> 0 \<le> fd n)"

definition emission_ok :: "'a requested_emission \<Rightarrow> bool" where
  "emission_ok E \<longleftrightarrow>
     (\<forall>sig st. serving st \<longrightarrow> (\<exists>ret st'. E sig st = Ret (ret, st') \<and> serving st'))"

lemma servingE:
  assumes "serving (priv, ns)"
  obtains n where "node_at ns (resp_node priv) = Some n" "0 \<le> fd n" "resp_ok priv"
    "resp_node priv \<noteq> None"
proof -
  obtain n where n: "node_at ns (resp_node priv) = Some n" "0 \<le> fd n" "resp_ok priv"
    using assms by (auto simp: serving_def split: option.splits)
  moreover from n(1) have "resp_node priv \<noteq> None"
    by (cases "resp_node priv") (simp_all add: node_at_def)
  ultimately show ?thesis by (rule that)
qed

lemma send_response_payload_ok:
  assumes "resp_ok priv"
  shows "response_payload_ok (send_response_arg rcode handle priv)"
proof (cases "0 < resp_length priv")
  case False
  then show ?thesis by (simp add: response_payload_ok_def send_response_arg_def)
next
  case True
  have len: "unat (resp_length priv) \<le> unat (width priv)" using assms by (simp add: resp_ok_def)
  have "unat (resp_length priv) \<noteq> 0" using True by (simp add: unsigned_eq_0_iff word_gt_0)
  with len have "width priv \<noteq> 0" by auto
  then obtain b where b: "resp_frame priv = Some b" "length b = unat (width priv)"
    using assms by (auto simp: resp_ok_def split: option.splits)
  have "unat (ucast (resp_length priv) :: u32) \<le> unat (resp_length priv)"
    by (simp add: unsigned_ucast_eq take_bit_eq_mod)
  with True b len show ?thesis
    by (simp add: response_payload_ok_def send_response_arg_def)
qed

lemma clear_frame_ok:
  assumes "resp_ok priv"
  shows "clear_frame (resp_frame priv) (unat (width priv)) =
    Ret (map_option (\<lambda>_. replicate (unat (width priv)) 0) (resp_frame priv))"
  using assms by (auto simp: clear_frame_def resp_ok_def memset_def split: option.splits)

text \<open>The object the signal handlers get: the frame cleared.\<close>

definition cleared :: "'a HinawaFwResp_scheme \<Rightarrow> 'a HinawaFwResp_scheme" where
  "cleared priv =
     priv\<lparr>resp_frame := map_option (\<lambda>_. replicate (unat (width priv)) 0) (resp_frame priv),
          resp_length := 0\<rparr>"

lemma cleared_sel [simp]:
  "resp_node (cleared priv) = resp_node priv" "width (cleared priv) = width priv"
  "resp_length (cleared priv) = 0" "offset (cleared priv) = offset priv"
  "resp_frame (cleared priv) =
     map_option (\<lambda>_. replicate (unat (width priv)) 0) (resp_frame priv)"
  by (simp_all add: cleared_def)

lemma cleared_ok: "resp_ok priv \<Longrightarrow> resp_ok (cleared priv)"
  by (auto simp: resp_ok_def split: option.splits)

lemma answer_request_eq:
  assumes "serving (priv, ns)" and "\<not> width priv < rd_length sig"
    and "E sig (cleared priv, ns) = Ret (ret, priv', ns')" and "serving (priv', ns')"
  shows "answer_request c K E sig handle (priv, ns) =
    Ret ((priv', ns'), [FW_CDEV_IOC_SEND_RESPONSE
      (send_response_arg ret handle priv')])"
proof -
  obtain n where n: "resp_ok priv" "resp_node priv \<noteq> None" using assms(1) by (rule servingE)
  obtain n' where n': "node_at ns' (resp_node priv') = Some n'" "0 \<le> fd n'"
    using assms(4) by (rule servingE)
  let ?a = "FW_CDEV_IOC_SEND_RESPONSE
    (send_response_arg ret handle priv')"
  obtain r a e where io: "ioctl_at K ns' (resp_node priv') ?a (Err None) = (r, a, ns', e, [?a])"
    using ioctl_at_issued [OF n'] by blast
  show ?thesis
    using n assms(2,3) io
    by (auto simp: answer_request_def clear_frame_ok cleared_def Let_def)
qed

lemma answer_request_conflict:
  assumes "serving (priv, ns)" and "width priv < rd_length sig"
  shows "answer_request c K E sig handle (priv, ns) =
    Ret ((cleared priv, ns), [FW_CDEV_IOC_SEND_RESPONSE
      \<lparr>sp_rcode = RCODE c HINAWA_FW_RCODE_CONFLICT_ERROR, sp_length = 0, sp_data = None,
       sp_handle = handle\<rparr>])"
proof -
  obtain n where n: "node_at ns (resp_node priv) = Some n" "0 \<le> fd n" "resp_ok priv"
    using assms(1) by (rule servingE)
  let ?a = "FW_CDEV_IOC_SEND_RESPONSE
      \<lparr>sp_rcode = RCODE c HINAWA_FW_RCODE_CONFLICT_ERROR, sp_length = 0, sp_data = None,
       sp_handle = handle\<rparr>"
  obtain r a e where "ioctl_at K ns (resp_node priv) ?a (Err None) = (r, a, ns, e, [?a])"
    using ioctl_at_issued [OF n(1,2)] by blast
  with n(3) assms(2) show ?thesis
    by (simp add: answer_request_def clear_frame_ok send_response_arg_def cleared_def)
qed

lemma serving_cleared: "serving (priv, ns) \<Longrightarrow> serving (cleared priv, ns)"
  by (auto simp: serving_def cleared_ok)

lemma answer_request_serving:
  assumes "emission_ok E" and "serving st"
  shows "\<exists>st' r. answer_request c K E sig handle st =
      Ret (st', [FW_CDEV_IOC_SEND_RESPONSE r]) \<and> serving st' \<and> sp_handle r = handle \<and>
      response_payload_ok r"
proof (cases st)
  case (Pair priv ns)
  show ?thesis
  proof (cases "width priv < rd_length sig")
    case True
    with assms(2) Pair show ?thesis
      by (simp add: answer_request_conflict serving_cleared response_payload_ok_def)
  next
    case False
    obtain ret priv' ns' where
      E: "E sig (cleared priv, ns) = Ret (ret, priv', ns')" "serving (priv', ns')"
      using assms Pair serving_cleared unfolding emission_ok_def by (metis surj_pair)
    then have "resp_ok priv'" by (simp add: serving_def)
    with E False assms(2) Pair show ?thesis
      by (simp add: answer_request_eq send_response_payload_ok) (simp add: send_response_arg_def)
  qed
qed

text \<open>The three handlers keep the contract of a responder.\<close>

interpretation request1: responder
  "\<lambda>(c, K, E). hinawa_fw_resp_handle_request c K E"
  "\<lambda>(c, K, E). emission_ok E" serving rq_handle
  by unfold_locales
     (auto simp: hinawa_fw_resp_handle_request_def simp del: split_paired_Ex
       intro: answer_request_serving)

interpretation request2: responder
  "\<lambda>(c, K, E). hinawa_fw_resp_handle_request2 c K E"
  "\<lambda>(c, K, E). emission_ok E" serving rq2_handle
  by unfold_locales
     (auto simp: hinawa_fw_resp_handle_request2_def simp del: split_paired_Ex
       intro: answer_request_serving)

interpretation request3: responder
  "\<lambda>(c, K, E). hinawa_fw_resp_handle_request3 c K E"
  "\<lambda>(c, K, E). emission_ok E" serving rq3_handle
  by unfold_locales
     (auto simp: hinawa_fw_resp_handle_request3_def simp del: split_paired_Ex
       intro: answer_request_serving)

subsection \<open>Properties of the answers\<close>

text \<open>The usual signal handler: hand over a frame for the response, return a response code.\<close>

definition frame_handler :: "u32 \<Rightarrow> bytes \<Rightarrow> u64 \<Rightarrow> 'a requested_emission" where
  "frame_handler rcode fr len sig st =
     bind_run (hinawa_fw_resp_set_resp_frame (fst st) (Some fr) len) (\<lambda>priv.
       Ret (rcode, priv, snd st))"

text \<open>No signal handler at all: the result of the emission is the default of its type.\<close>

definition no_handler :: "'a requested_emission" where
  "no_handler sig st = Ret (0, st)"

lemma frame_handler_ok: "unat len \<le> length fr \<Longrightarrow> emission_ok (frame_handler rcode fr len)"
proof (unfold emission_ok_def, intro allI impI)
  fix sig :: requested and st :: "'a HinawaFwResp_scheme \<times> nodes"
  assume len: "unat len \<le> length fr" and st: "serving st"
  obtain priv ns where [simp]: "st = (priv, ns)" by (cases st)
  from st have "resp_ok priv" by (simp add: serving_def)
  then obtain priv' where "hinawa_fw_resp_set_resp_frame priv (Some fr) len = Ret priv'"
    "resp_ok priv'" "resp_node priv' = resp_node priv" "width priv' = width priv"
    using set_resp_frame_ok [where priv = priv and frame = "Some fr" and len = len] len by auto
  with st show "\<exists>ret st'. frame_handler rcode fr len sig st = Ret (ret, st') \<and> serving st'"
    by (simp add: frame_handler_def serving_def)
qed

lemma no_handler_ok: "emission_ok no_handler"
  by (simp add: emission_ok_def no_handler_def)

text \<open>An object that serves 16 bytes, for closed instances.\<close>

definition sample_resp :: HinawaFwResp where
  "sample_resp =
     \<lparr>resp_node = Some 2, offset = 0x1000, width = 16, addr_handle = 5, req_frame = Some 16,
      req_length = 0, resp_frame = Some (replicate 16 0xee), resp_length = 16\<rparr>"

definition sample_nodes :: nodes where
  "sample_nodes = [2 \<mapsto> hinawa_fw_node_init\<lparr>fd := 3\<rparr>]"

definition sample_request3 :: "u32 \<Rightarrow> fw_cdev_event_request3" where
  "sample_request3 len =
     \<lparr>rq3_closure = 7, rq3_tcode = 5, rq3_offset = 0x1000, rq3_source_node_id = 0xffc1,
      rq3_destination_node_id = 0xffc0, rq3_card = 0, rq3_generation = 1, rq3_handle = 42,
      rq3_length = len, rq3_tstamp = 0x123, rq3_data = replicate (unat len) 1\<rparr>"

lemma sample_serving: "serving (sample_resp, sample_nodes)"
  by (simp add: serving_def sample_resp_def sample_nodes_def node_at_def resp_ok_def)

text \<open>C10. Every request event is answered exactly once: whatever sequence of events the dispatcher
  hands to an object that holds a range on an opened node, and whatever signal handlers are
  connected as long as they leave the object so, no call faults, the ioctl requests issued are
  one response per event, in order, each with the handle of its event, and no response declares
  more bytes than its buffer holds. The same for the events of all three versions of the kernel
  interface.\<close>

lemma every_request_answered:
  assumes "emission_ok E" and "serving st"
  shows "(\<exists>st' rs. handle_events (hinawa_fw_resp_handle_request c K E) es1 st =
        Ret (st', map FW_CDEV_IOC_SEND_RESPONSE rs) \<and> serving st' \<and>
        map sp_handle rs = map rq_handle es1 \<and> list_all response_payload_ok rs) \<and>
    (\<exists>st' rs. handle_events (hinawa_fw_resp_handle_request2 c K E) es2 st =
        Ret (st', map FW_CDEV_IOC_SEND_RESPONSE rs) \<and> serving st' \<and>
        map sp_handle rs = map rq2_handle es2 \<and> list_all response_payload_ok rs) \<and>
    (\<exists>st' rs. handle_events (hinawa_fw_resp_handle_request3 c K E) es3 st =
        Ret (st', map FW_CDEV_IOC_SEND_RESPONSE rs) \<and> serving st' \<and>
        map sp_handle rs = map rq3_handle es3 \<and> list_all response_payload_ok rs)"
  using request1.answers_all [of "(c, K, E)" st es1]
    request2.answers_all [of "(c, K, E)" st es2] request3.answers_all [of "(c, K, E)" st es3] assms
  by simp

lemma every_request_answered_witness:
  "\<exists>st' rs. handle_events (hinawa_fw_resp_handle_request3 numbered_constants granting_kernel
        (frame_handler 0 [1, 2, 3, 4] 4)) [sample_request3 4, sample_request3 8]
        (sample_resp, sample_nodes) = Ret (st', map FW_CDEV_IOC_SEND_RESPONSE rs) \<and>
      map sp_handle rs = [42, 42]"
proof -
  have "emission_ok (frame_handler 0 [1, 2, 3, 4] 4 :: unit requested_emission)"
    by (rule frame_handler_ok) simp
  moreover have "map rq3_handle [sample_request3 4, sample_request3 8] = [42, 42]"
    by (simp add: sample_request3_def)
  ultimately show ?thesis
    using every_request_answered [OF _ sample_serving, of "frame_handler 0 [1, 2, 3, 4] 4"
        numbered_constants granting_kernel "[]" "[]" "[sample_request3 4, sample_request3 8]"]
    by metis
qed

text \<open>C35. What a response contains when the signal handler hands over a frame: a request longer than
  the range is answered with a conflict error and no data, without consulting the handler; otherwise
  the response has the handler's code and, when the frame fits the range, exactly the bytes of the
  frame followed by zeros, so that nothing of an earlier response shows; a frame that does not fit
  is dropped and the response has no data.\<close>

lemma response_content:
  assumes "serving (priv, ns)" and "0 < len" and "unat len \<le> length fr"
  shows "\<exists>st'. hinawa_fw_resp_handle_request3 c K (frame_handler rc fr len) event (priv, ns) =
    Ret (st', [FW_CDEV_IOC_SEND_RESPONSE
      (if width priv < rq3_length event then
         \<lparr>sp_rcode = RCODE c HINAWA_FW_RCODE_CONFLICT_ERROR, sp_length = 0, sp_data = None,
          sp_handle = rq3_handle event\<rparr>
       else if len \<le> ucast (width priv) then
         \<lparr>sp_rcode = rc, sp_length = ucast len,
          sp_data = Some (take (unat len) fr @ replicate (unat (width priv) - unat len) 0),
          sp_handle = rq3_handle event\<rparr>
       else \<lparr>sp_rcode = rc, sp_length = 0, sp_data = None, sp_handle = rq3_handle event\<rparr>)])"
proof -
  consider (long) "width priv < rq3_length event"
    | (fits) "\<not> width priv < rq3_length event" "len \<le> ucast (width priv)"
    | (big) "\<not> width priv < rq3_length event" "\<not> len \<le> ucast (width priv)" by blast
  then show ?thesis
  proof cases
    case long
    with assms(1) show ?thesis
      by (simp add: hinawa_fw_resp_handle_request3_def answer_request_conflict)
  next
    case fits
    from fits(2) have len: "unat len \<le> unat (width priv)" by (simp add: word_le_nat_alt)
    have "width priv \<noteq> 0" using assms(2) fits(2) by auto
    moreover have "resp_ok priv" using assms(1) by (simp add: serving_def)
    ultimately obtain b where b: "resp_frame priv = Some b"
      by (auto simp: resp_ok_def split: option.splits)
    let ?p = "(cleared priv)\<lparr>resp_frame :=
      Some (take (unat len) fr @ replicate (unat (width priv) - unat len) 0), resp_length := len\<rparr>"
    have E: "frame_handler rc fr len sig (cleared priv, ns) = Ret (rc, ?p, ns)" for sig
      using b fits(2) len assms(2,3)
      by (simp add: frame_handler_def hinawa_fw_resp_set_resp_frame_def memcpy_ok)
    have "serving (?p, ns)"
      using assms(1,3) len by (auto simp: serving_def resp_ok_def)
    with E fits assms(1,2) show ?thesis
      by (simp add: hinawa_fw_resp_handle_request3_def answer_request_eq send_response_arg_def)
  next
    case big
    have "frame_handler rc fr len sig (cleared priv, ns) = Ret (rc, cleared priv, ns)" for sig
      using big assms(2) by (simp add: frame_handler_def hinawa_fw_resp_set_resp_frame_def)
    with big assms(1) show ?thesis
      by (simp add: hinawa_fw_resp_handle_request3_def answer_request_eq serving_cleared
          send_response_arg_def)
  qed
qed

lemma response_content_witness:
  "\<exists>st'. hinawa_fw_resp_handle_request3 numbered_constants granting_kernel
      (frame_handler 0 [1, 2, 3, 4] 4) (sample_request3 4) (sample_resp, sample_nodes) =
    Ret (st', [FW_CDEV_IOC_SEND_RESPONSE
      \<lparr>sp_rcode = 0, sp_length = 4, sp_data = Some ([1, 2, 3, 4] @ replicate 12 0),
       sp_handle = 42\<rparr>])"
  using response_content [OF sample_serving, of 4 "[1, 2, 3, 4]" numbered_constants granting_kernel 0
      "sample_request3 4"]
  by (simp add: sample_resp_def sample_request3_def)

text \<open>Without a signal handler, an accepted request is answered with the response code 0 and no data, by the
  handlers of all three versions of the event. The handlers of the second and third version store
  \<open>HINAWA_FW_RCODE_ADDRESS_ERROR\<close> before the emission, which has no effect.\<close>

lemma unhandled_request_answer:
  assumes "serving (priv, ns)"
  shows "(rq_length e1 \<le> width priv \<longrightarrow>
      hinawa_fw_resp_handle_request c K no_handler e1 (priv, ns) =
        Ret ((cleared priv, ns), [FW_CDEV_IOC_SEND_RESPONSE
          \<lparr>sp_rcode = 0, sp_length = 0, sp_data = None, sp_handle = rq_handle e1\<rparr>])) \<and>
    (rq2_length e2 \<le> width priv \<longrightarrow>
      hinawa_fw_resp_handle_request2 c K no_handler e2 (priv, ns) =
        Ret ((cleared priv, ns), [FW_CDEV_IOC_SEND_RESPONSE
          \<lparr>sp_rcode = 0, sp_length = 0, sp_data = None, sp_handle = rq2_handle e2\<rparr>])) \<and>
    (rq3_length e3 \<le> width priv \<longrightarrow>
      hinawa_fw_resp_handle_request3 c K no_handler e3 (priv, ns) =
        Ret ((cleared priv, ns), [FW_CDEV_IOC_SEND_RESPONSE
          \<lparr>sp_rcode = 0, sp_length = 0, sp_data = None, sp_handle = rq3_handle e3\<rparr>]))"
  using assms
  by (simp add: hinawa_fw_resp_handle_request_def hinawa_fw_resp_handle_request2_def
      hinawa_fw_resp_handle_request3_def answer_request_eq no_handler_def serving_cleared
      send_response_arg_def)

end
