(* ===== verification/Node_History.thy ===== *)
theory Node_History
  imports Hinawa_Interfaces
begin

text \<open>
  The record of the bus generations and node IDs under which the target of FCP was seen
  (\<open>struct node_history\<close> of \<open>src/fw_fcp.c\<close>): a ring of ten slots with a cursor to the slot written
  next. The cursor is a pointer into the array: \<open>None\<close> before the first reset (the null pointer of
  the cleared structure), then an index. The mutex around the accesses is held by the callers.

  The ring implements \<open>record_history\<close>, with the slots read backwards from the cursor as the list
  of the records, the newest first.
\<close>

subsection \<open>Data and operations\<close>

definition NODE_HISTORY_RECORD_COUNT :: nat where
  "NODE_HISTORY_RECORD_COUNT = 10"

record node_record =
  nr_generation :: u32
  nr_src_node_id :: u32

record node_history =
  records :: "node_record list"
  cursor :: "nat option"

record node_record_iterator =
  iter_records :: "node_record list"
  iter_cursor :: nat

definition zero_record :: node_record where
  "zero_record = \<lparr>nr_generation = 0, nr_src_node_id = 0\<rparr>"

definition node_record_iterator_init :: "node_history \<Rightarrow> node_record_iterator" where
  "node_record_iterator_init history = \<lparr>iter_records = records history, iter_cursor = 0\<rparr>"

text \<open>The iterator gives the index of the record (a pointer in the source), \<open>None\<close> at the end.\<close>

definition node_record_iterator_next ::
    "node_record_iterator \<Rightarrow> nat option \<times> node_record_iterator" where
  "node_record_iterator_next iter =
     (if NODE_HISTORY_RECORD_COUNT \<le> iter_cursor iter then (None, iter)
      else (Some (iter_cursor iter), iter\<lparr>iter_cursor := iter_cursor iter + 1\<rparr>))"

text \<open>\<open>g_object_new\<close> has cleared the structure; \<open>node_history_init\<close> only sets up the mutex.\<close>

definition node_history_init :: node_history where
  "node_history_init =
     \<lparr>records = replicate NODE_HISTORY_RECORD_COUNT zero_record, cursor = None\<rparr>"

definition node_history_reset :: "node_history \<Rightarrow> node_history" where
  "node_history_reset history =
     \<lparr>records = replicate NODE_HISTORY_RECORD_COUNT zero_record, cursor = Some 0\<rparr>"

text \<open>The loop of \<open>node_history_find_record\<close>.\<close>

function find_record_from :: "node_record \<Rightarrow> node_record_iterator \<Rightarrow> nat option run" where
  "find_record_from target iter =
     (case node_record_iterator_next iter of
        (None, _) \<Rightarrow> Ret None
      | (Some i, iter') \<Rightarrow>
          bind_run (read_at (iter_records iter) i) (\<lambda>rec.
            if rec = target then Ret (Some i) else find_record_from target iter'))"
  by pat_completeness auto

termination
  by (relation "measure (\<lambda>(target, iter). NODE_HISTORY_RECORD_COUNT - iter_cursor iter)")
     (auto simp: node_record_iterator_next_def split: if_splits)

declare find_record_from.simps [simp del]

definition node_history_find_record :: "node_history \<Rightarrow> node_record \<Rightarrow> nat option run" where
  "node_history_find_record history target =
     find_record_from target (node_record_iterator_init history)"

definition node_history_insert_record :: "node_record \<Rightarrow> node_history \<Rightarrow> node_history run" where
  "node_history_insert_record rec history =
     bind_run (node_history_find_record history rec) (\<lambda>found.
       if found \<noteq> None then Ret history
       else case cursor history of
              None \<Rightarrow> Fault Null_Deref
            | Some i \<Rightarrow>
                bind_run (write_at (records history) i rec) (\<lambda>rs.
                  Ret \<lparr>records = rs,
                       cursor = Some (if NODE_HISTORY_RECORD_COUNT \<le> i + 1 then 0 else i + 1)\<rparr>))"

definition node_history_detect_record :: "node_record \<Rightarrow> node_history \<Rightarrow> bool run" where
  "node_history_detect_record rec history =
     bind_run (node_history_find_record history rec) (\<lambda>found. Ret (found \<noteq> None))"

subsection \<open>The ring as a list of recent records\<close>

definition history_ok :: "node_history \<Rightarrow> bool" where
  "history_ok h \<longleftrightarrow> length (records h) = NODE_HISTORY_RECORD_COUNT \<and>
     (case cursor h of None \<Rightarrow> False | Some i \<Rightarrow> i < NODE_HISTORY_RECORD_COUNT)"

definition history_view :: "node_history \<Rightarrow> node_record list" where
  "history_view h =
     (case cursor h of
        None \<Rightarrow> records h
      | Some i \<Rightarrow> rev (take i (records h)) @ rev (drop i (records h)))"

lemma set_history_view: "set (history_view h) = set (records h)"
proof (cases "cursor h")
  case (Some i)
  have "set (take i (records h)) \<union> set (drop i (records h)) = set (records h)"
    by (metis append_take_drop_id set_append)
  with Some show ?thesis by (simp add: history_view_def)
qed (simp add: history_view_def)

text \<open>The search stops at the first slot that holds the record.\<close>

lemma find_record_from_eq:
  assumes "length (iter_records iter) = NODE_HISTORY_RECORD_COUNT"
  shows "\<exists>found. find_record_from target iter = Ret found \<and>
    (found = None \<longleftrightarrow> target \<notin> set (drop (iter_cursor iter) (iter_records iter)))"
  using assms
proof (induction target iter rule: find_record_from.induct)
  case (1 target iter)
  show ?case
  proof (cases "NODE_HISTORY_RECORD_COUNT \<le> iter_cursor iter")
    case True
    with "1.prems" show ?thesis
      by (subst find_record_from.simps) (simp add: node_record_iterator_next_def)
  next
    case False
    let ?i = "iter_cursor iter" and ?iter = "iter\<lparr>iter_cursor := iter_cursor iter + 1\<rparr>"
    have i: "?i < length (iter_records iter)" using False "1.prems" by simp
    have "node_record_iterator_next iter = (Some ?i, ?iter)"
      using False by (simp add: node_record_iterator_next_def)
    moreover have "drop ?i (iter_records iter) = iter_records iter ! ?i #
        drop (iter_cursor ?iter) (iter_records ?iter)"
      using i by (simp add: Cons_nth_drop_Suc)
    moreover from "1.IH" calculation(1) i "1.prems" have "iter_records iter ! ?i \<noteq> target \<Longrightarrow>
        \<exists>found. find_record_from target ?iter = Ret found \<and> (found = None \<longleftrightarrow>
          target \<notin> set (drop (iter_cursor ?iter) (iter_records ?iter)))"
      by simp
    ultimately show ?thesis
      using i by (subst find_record_from.simps) (auto simp: read_at_ok)
  qed
qed

lemma find_record_eq:
  assumes "history_ok h"
  shows "\<exists>found. node_history_find_record h r = Ret found \<and>
    (found = None \<longleftrightarrow> r \<notin> set (history_view h))"
  using find_record_from_eq [of "node_record_iterator_init h" r] assms
  by (simp add: node_history_find_record_def node_record_iterator_init_def history_ok_def
      set_history_view)

lemma history_view_write:
  assumes "i < length rs"
  shows "history_view \<lparr>records = rs[i := r], cursor = Some (if length rs \<le> i + 1 then 0 else i + 1)\<rparr> =
    take (length rs) (r # history_view \<lparr>records = rs, cursor = Some i\<rparr>)"
proof -
  have drop: "drop i rs = rs ! i # drop (Suc i) rs"
    using assms by (simp add: Cons_nth_drop_Suc)
  have upd: "take (Suc i) (rs[i := r]) = take i rs @ [r]"
    using assms by (simp add: take_Suc_conv_app_nth)
  show ?thesis
  proof (cases "length rs \<le> i + 1")
    case True
    with assms have len: "length rs = Suc i" by simp
    then have "rs[i := r] = take i rs @ [r]" using upd by simp
    with len show ?thesis by (simp add: history_view_def drop)
  next
    case False
    have keep: "take n (xs @ [y]) = xs" if "n = length xs" for n and xs :: "node_record list" and y
      using that by simp
    have "length rs = length (r # rev (take i rs) @ rev (drop (Suc i) rs))"
      using assms by simp
    from keep [OF this] False show ?thesis
      by (simp add: history_view_def upd drop)
  qed
qed

interpretation ring: record_history
  NODE_HISTORY_RECORD_COUNT history_ok history_view node_history_insert_record
  node_history_detect_record
proof unfold_locales
  show "0 < NODE_HISTORY_RECORD_COUNT" by (simp add: NODE_HISTORY_RECORD_COUNT_def)
next
  fix h assume ok: "history_ok h"
  then show "length (history_view h) = NODE_HISTORY_RECORD_COUNT"
    by (auto simp: history_ok_def history_view_def split: option.splits)
  fix r
  obtain found where found: "node_history_find_record h r = Ret found"
    "found = None \<longleftrightarrow> r \<notin> set (history_view h)"
    using find_record_eq [OF ok] by blast
  then show "node_history_detect_record r h = Ret (r \<in> set (history_view h))"
    by (simp add: node_history_detect_record_def del: not_None_eq)
  show "\<exists>h'. node_history_insert_record r h = Ret h' \<and> history_ok h' \<and>
      history_view h' = remember NODE_HISTORY_RECORD_COUNT r (history_view h)"
  proof (cases "r \<in> set (history_view h)")
    case True
    with found ok show ?thesis by (simp add: node_history_insert_record_def remember_def)
  next
    case False
    obtain i where i: "cursor h = Some i" "i < NODE_HISTORY_RECORD_COUNT"
      and len: "length (records h) = NODE_HISTORY_RECORD_COUNT"
      using ok by (auto simp: history_ok_def split: option.splits)
    let ?h = "\<lparr>records = (records h)[i := r],
      cursor = Some (if NODE_HISTORY_RECORD_COUNT \<le> i + 1 then 0 else i + 1)\<rparr>"
    have "node_history_insert_record r h = Ret ?h"
      using False found i len by (simp add: node_history_insert_record_def write_at_ok)
    moreover have "history_ok ?h"
      using i len by (simp add: history_ok_def)
    moreover have "history_view ?h = remember NODE_HISTORY_RECORD_COUNT r (history_view h)"
    proof -
      have "history_view \<lparr>records = records h, cursor = Some i\<rparr> = history_view h"
        using i(1) by (simp add: history_view_def)
      then show ?thesis
        using history_view_write [of i "records h" r] i len False by (simp add: remember_def)
    qed
    ultimately show ?thesis by blast
  qed
qed

subsection \<open>Properties\<close>

lemma history_ok_reset: "history_ok (node_history_reset h)"
  by (simp add: history_ok_def node_history_reset_def NODE_HISTORY_RECORD_COUNT_def)

lemma history_view_reset:
  "history_view (node_history_reset h) = replicate NODE_HISTORY_RECORD_COUNT zero_record"
  by (simp add: history_view_def node_history_reset_def)

text \<open>A sequence of insertions, oldest first.\<close>

definition insert_records :: "node_record list \<Rightarrow> node_history \<Rightarrow> node_history run" where
  "insert_records rs h = foldl (\<lambda>m r. bind_run m (node_history_insert_record r)) (Ret h) rs"

text \<open>C11. The ring with its cursor implements a list of the ten most recent records: whatever is
  inserted after a reset, no access leaves the array, and the search finds exactly the records of
  the list that starts with ten zero records, takes a record at the front unless it is there
  already, and drops the last one. Before the first reset an insertion goes through the null
  cursor.\<close>

lemma history_refines_recent_list:
  "(\<exists>h'. insert_records rs (node_history_reset h) = Ret h' \<and>
      (\<forall>q. node_history_detect_record q h' = Ret (q \<in> set
         (fold (remember NODE_HISTORY_RECORD_COUNT) rs
            (replicate NODE_HISTORY_RECORD_COUNT zero_record))))) \<and>
   (node_history_insert_record q node_history_init =
      (if q = zero_record then Ret node_history_init else Fault Null_Deref))"
proof
  obtain h' where "insert_records rs (node_history_reset h) = Ret h'" "history_ok h'"
    "history_view h' = fold (remember NODE_HISTORY_RECORD_COUNT) rs
       (replicate NODE_HISTORY_RECORD_COUNT zero_record)"
    using ring.insert_sequence [OF history_ok_reset, of h rs]
    by (auto simp: insert_records_def history_view_reset)
  with ring.detects show "\<exists>h'. insert_records rs (node_history_reset h) = Ret h' \<and>
      (\<forall>q. node_history_detect_record q h' = Ret (q \<in> set
         (fold (remember NODE_HISTORY_RECORD_COUNT) rs
            (replicate NODE_HISTORY_RECORD_COUNT zero_record))))"
    by metis
  obtain found where "node_history_find_record node_history_init q = Ret found"
    "found = None \<longleftrightarrow> q \<noteq> zero_record"
    using find_record_from_eq [of "node_record_iterator_init node_history_init" q]
    by (auto simp: node_history_find_record_def node_record_iterator_init_def
        node_history_init_def NODE_HISTORY_RECORD_COUNT_def)
  then show "node_history_insert_record q node_history_init =
      (if q = zero_record then Ret node_history_init else Fault Null_Deref)"
    by (auto simp: node_history_insert_record_def node_history_init_def)
qed

lemma fold_remember_subset:
  "set (fold (remember n) rs xs) \<subseteq> set rs \<union> set xs"
proof (induction rs arbitrary: xs)
  case (Cons r rs)
  have "set (remember n r xs) \<subseteq> insert r (set xs)"
    by (auto simp: remember_def dest: in_set_takeD)
  with Cons [of "remember n r xs"] show ?case by auto
qed simp

text \<open>A record inserted for the first time is found until ten further records have been
  inserted; while fewer than ten records were inserted, the search also finds the record with
  generation 0 and node ID 0 that nobody inserted.\<close>

lemma history_record_survives:
  assumes "length qs < NODE_HISTORY_RECORD_COUNT" and "r \<notin> set rs" and "r \<noteq> zero_record"
  shows "\<exists>h' z. insert_records (rs @ r # qs) (node_history_reset h) = Ret h' \<and>
    node_history_detect_record r h' = Ret True \<and>
    insert_records qs (node_history_reset h) = Ret z \<and>
    node_history_detect_record zero_record z = Ret True"
proof -
  let ?n = NODE_HISTORY_RECORD_COUNT and ?start = "replicate NODE_HISTORY_RECORD_COUNT zero_record"
  let ?mid = "fold (remember ?n) rs ?start"
  have "r \<notin> set ?mid"
    using fold_remember_subset [of ?n rs ?start] assms(2,3) by auto
  then have "r \<in> set (take 1 (remember ?n r ?mid))"
    by (simp add: remember_def NODE_HISTORY_RECORD_COUNT_def take_Cons')
  then have r: "r \<in> set (fold (remember ?n) (rs @ r # qs) ?start)"
    using ring.survives [OF assms(1), of r 1 "remember ?n r ?mid"] assms(1) by simp
  have z: "zero_record \<in> set (fold (remember ?n) qs ?start)"
    using ring.survives [OF assms(1), of zero_record 1 ?start] assms(1)
    by (simp add: NODE_HISTORY_RECORD_COUNT_def)
  from ring.insert_sequence [OF history_ok_reset, of h "rs @ r # qs"]
    ring.insert_sequence [OF history_ok_reset, of h qs] r z ring.detects
  show ?thesis unfolding insert_records_def history_view_reset by metis
qed

lemma history_record_survives_witness:
  "\<exists>h' z. insert_records ([] @ \<lparr>nr_generation = 1, nr_src_node_id = 0xffc0\<rparr> #
      [\<lparr>nr_generation = 2, nr_src_node_id = 0xffc0\<rparr>]) (node_history_reset node_history_init) = Ret h' \<and>
    node_history_detect_record \<lparr>nr_generation = 1, nr_src_node_id = 0xffc0\<rparr> h' = Ret True \<and>
    insert_records [\<lparr>nr_generation = 2, nr_src_node_id = 0xffc0\<rparr>]
      (node_history_reset node_history_init) = Ret z \<and>
    node_history_detect_record zero_record z = Ret True"
  by (rule history_record_survives)
     (simp_all add: zero_record_def NODE_HISTORY_RECORD_COUNT_def)

end
