(* ===== verification/Fw_Fcp.thy ===== *)
theory Fw_Fcp
  imports Fw_Req Fw_Resp Node_History
begin

text \<open>
  The class \<open>HinawaFwFcp\<close> (\<open>src/fw_fcp.c\<close>), derived from \<open>HinawaFwResp\<close>: the Function Control
  Protocol of IEC 61883-1 and the transactions of AV/C on top of it.

  The private data of the class extends the record of its parent. A \<open>struct waiter\<close> lives on the
  stack of the thread that runs an AV/C transaction and the object only links its address, so the
  record also holds the memory of these waiters, \<open>stack\<close>: an address that leads nowhere is one whose
  function has returned, and following it is the fault \<open>Dangling\<close>. \<open>responded_handlers\<close> counts the
  connections of \<open>handle_responded_signal\<close> to the signal \<open>responded\<close>, each of which runs once per
  emission.

  An AV/C transaction runs against a schedule: for each return of \<open>g_cond_wait_until\<close> what other
  threads did to the object while the waiter's mutex was free, and whether the call reported a
  wake-up (true) or the deadline (false). When the schedule is used up, the deadline has passed.
\<close>

subsection \<open>Constants and error reports\<close>

definition FCP_MAXIMUM_FRAME_BYTES :: u32 where
  "FCP_MAXIMUM_FRAME_BYTES = 0x200"

definition FCP_REQUEST_ADDR :: u64 where
  "FCP_REQUEST_ADDR = 0xfffff0000b00"

definition FCP_RESPOND_ADDR :: u64 where
  "FCP_RESPOND_ADDR = 0xfffff0000d00"

text \<open>The types of commands and the states of responses, as they are in the first byte of a frame.\<close>

datatype avc_type =
    AVC_TYPE_CONTROL
  | AVC_TYPE_STATUS
  | AVC_TYPE_SPECIFIC_INQUIRY
  | AVC_TYPE_NOTIFY
  | AVC_TYPE_GENERAL_INQUIRY

primrec avc_type_code :: "avc_type \<Rightarrow> u8" where
  "avc_type_code AVC_TYPE_CONTROL = 0x00"
| "avc_type_code AVC_TYPE_STATUS = 0x01"
| "avc_type_code AVC_TYPE_SPECIFIC_INQUIRY = 0x02"
| "avc_type_code AVC_TYPE_NOTIFY = 0x03"
| "avc_type_code AVC_TYPE_GENERAL_INQUIRY = 0x04"

datatype avc_status =
    AVC_STATUS_NOT_IMPLEMENTED
  | AVC_STATUS_ACCEPTED
  | AVC_STATUS_REJECTED
  | AVC_STATUS_IN_TRANSITION
  | AVC_STATUS_IMPLEMENTED_STABLE
  | AVC_STATUS_CHANGED
  | AVC_STATUS_INTERIM

primrec avc_status_code :: "avc_status \<Rightarrow> u8" where
  "avc_status_code AVC_STATUS_NOT_IMPLEMENTED = 0x08"
| "avc_status_code AVC_STATUS_ACCEPTED = 0x09"
| "avc_status_code AVC_STATUS_REJECTED = 0x0a"
| "avc_status_code AVC_STATUS_IN_TRANSITION = 0x0b"
| "avc_status_code AVC_STATUS_IMPLEMENTED_STABLE = 0x0c"
| "avc_status_code AVC_STATUS_CHANGED = 0x0d"
| "avc_status_code AVC_STATUS_INTERIM = 0x0f"

text \<open>No command looks like a response, and the response that is waited on further is told apart from the others.\<close>

lemma avc_codes_disjoint: "avc_type_code t < avc_status_code st"
  by (cases t; cases st) simp_all

lemma avc_interim_unique: "avc_status_code st = avc_status_code AVC_STATUS_INTERIM \<longleftrightarrow> st = AVC_STATUS_INTERIM"
  by (cases st) simp_all

fun fcp_local_err_msgs :: "HinawaFwFcpError \<Rightarrow> string" where
  "fcp_local_err_msgs HINAWA_FW_FCP_ERROR_TIMEOUT =
     ''The transaction is canceled due to response timeout''"
| "fcp_local_err_msgs HINAWA_FW_FCP_ERROR_LARGE_RESP =
     ''The size of response is larger than expected''"
| "fcp_local_err_msgs HINAWA_FW_FCP_ERROR_ABORTED =
     ''The transaction is aborted due to bus reset''"

definition fcp_local_error :: "HinawaFwFcpError \<Rightarrow> gerror" where
  "fcp_local_error code =
     \<lparr>error_code = FW_FCP_ERROR code, error_message = Literal (fcp_local_err_msgs code)\<rparr>"

subsection \<open>State\<close>

datatype waiter_state = WAITER_STATE_PENDING | WAITER_STATE_RESPONDED | WAITER_STATE_ABORTED

record fcp_waiter =
  fw_state :: waiter_state
  fw_generation :: u32
  fw_frame :: bytes
  fw_frame_size :: u32
  fw_tstamp :: u32

record HinawaFwFcp = HinawaFwResp +
  fcp_node :: "obj_id option"
  fcp_card_id :: u32
  fcp_transactions :: "obj_id list"
  history :: node_history
  stack :: "obj_id \<Rightarrow> fcp_waiter option"
  responded_handlers :: nat

definition hinawa_fw_fcp_init :: HinawaFwFcp where
  "hinawa_fw_fcp_init =
     \<lparr>resp_node = None, offset = 0, width = 0, addr_handle = 0, req_frame = None, req_length = 0,
      resp_frame = None, resp_length = 0, fcp_node = None, fcp_card_id = 0, fcp_transactions = [],
      history = node_history_init, stack = (\<lambda>_. None), responded_handlers = 0\<rparr>"

datatype fw_fcp_prop_type = FW_FCP_PROP_TYPE_IS_BOUND | FW_FCP_PROP_TYPE_COUNT

primrec fw_fcp_get_property :: "HinawaFwFcp \<Rightarrow> fw_fcp_prop_type \<Rightarrow> bool option" where
  "fw_fcp_get_property self FW_FCP_PROP_TYPE_IS_BOUND = Some (fcp_node self \<noteq> None)"
| "fw_fcp_get_property self FW_FCP_PROP_TYPE_COUNT = None"

subsection \<open>The signal \<open>responded\<close> and the waiters\<close>

record fcp_responded =
  fr_generation :: u32
  fr_tstamp :: u32
  fr_frame :: bytes
  fr_frame_size :: u32

text \<open>The comparison of the second and third bytes, evaluated as \<open>&&\<close> does.\<close>

definition frames_match :: "bytes \<Rightarrow> bytes \<Rightarrow> bool run" where
  "frames_match a b =
     bind_run (read_at a 1) (\<lambda>a1. bind_run (read_at b 1) (\<lambda>b1.
       if a1 \<noteq> b1 then Ret False
       else bind_run (read_at a 2) (\<lambda>a2. bind_run (read_at b 2) (\<lambda>b2. Ret (a2 = b2)))))"

text \<open>The body of the loop over the waiters.\<close>

definition respond_waiter :: "fcp_responded \<Rightarrow> fcp_waiter \<Rightarrow> fcp_waiter run" where
  "respond_waiter s w =
     bind_run (frames_match (fw_frame w) (fr_frame s)) (\<lambda>same.
       if \<not> same then Ret w
       else
         bind_run
           (if fr_frame_size s \<le> fw_frame_size w
            then memcpy (fw_frame w) (fr_frame s) (unat (fr_frame_size s))
            else Ret (fw_frame w))
           (\<lambda>fr. Ret \<lparr>fw_state = WAITER_STATE_RESPONDED, fw_generation = fr_generation s,
                      fw_frame = fr, fw_frame_size = fr_frame_size s, fw_tstamp = fr_tstamp s\<rparr>))"

primrec each_waiter ::
    "(fcp_waiter \<Rightarrow> fcp_waiter run) \<Rightarrow> obj_id list \<Rightarrow> (obj_id \<Rightarrow> fcp_waiter option) \<Rightarrow>
     (obj_id \<Rightarrow> fcp_waiter option) run" where
  "each_waiter f [] ws = Ret ws"
| "each_waiter f (a # as) ws =
     (case ws a of
        None \<Rightarrow> Fault Dangling
      | Some w \<Rightarrow> bind_run (f w) (\<lambda>w. each_waiter f as (ws(a \<mapsto> w))))"

definition handle_responded_signal :: "fcp_responded \<Rightarrow> HinawaFwFcp \<Rightarrow> HinawaFwFcp run" where
  "handle_responded_signal s self =
     bind_run (each_waiter (respond_waiter s) (fcp_transactions self) (stack self)) (\<lambda>ws.
       Ret (self\<lparr>stack := ws\<rparr>))"

text \<open>An emission runs the handler once per connection.\<close>

primrec emit_times :: "nat \<Rightarrow> fcp_responded \<Rightarrow> HinawaFwFcp \<Rightarrow> HinawaFwFcp run" where
  "emit_times 0 s self = Ret self"
| "emit_times (Suc n) s self = bind_run (handle_responded_signal s self) (emit_times n s)"

definition emit_responded :: "fcp_responded \<Rightarrow> HinawaFwFcp \<Rightarrow> HinawaFwFcp run" where
  "emit_responded s self = emit_times (responded_handlers self) s self"

subsection \<open>Requests that arrive at the range of FCP responses\<close>

text \<open>The properties \<open>generation\<close> and \<open>node-id\<close> of a node; \<open>uninit\<close> is what the caller's structure
  holds when the pointer is null and \<open>g_object_get\<close> does nothing.\<close>

definition current_record :: "node_record \<Rightarrow> nodes \<Rightarrow> obj_id option \<Rightarrow> node_record" where
  "current_record uninit ns p =
     (case node_at ns p of
        None \<Rightarrow> uninit
      | Some n \<Rightarrow> \<lparr>nr_generation = br_generation (generation n),
                  nr_src_node_id = br_node_id (generation n)\<rparr>)"

text \<open>Whether the event is a response frame of the bound node, and the history afterwards.\<close>

definition accept_response ::
    "fw_constants \<Rightarrow> node_record \<Rightarrow> requested \<Rightarrow> HinawaFwFcp \<Rightarrow> nodes \<Rightarrow> (bool \<times> HinawaFwFcp) run" where
  "accept_response c uninit sig self ns =
     (if rd_offset sig = FCP_RESPOND_ADDR \<and>
         rd_tcode sig = TCODE c HINAWA_FW_TCODE_WRITE_BLOCK_REQUEST \<and>
         rd_card_id sig = fcp_card_id self then
        let rec = \<lparr>nr_generation = rd_generation sig, nr_src_node_id = rd_src_node_id sig\<rparr>
        in bind_run (node_history_detect_record rec (history self)) (\<lambda>recorded.
             if recorded then Ret (True, self)
             else
               let current = current_record uninit ns (fcp_node self)
               in bind_run
                    (if nr_generation current \<noteq> nr_generation rec
                     then node_history_insert_record current (history self)
                     else Ret (history self))
                    (\<lambda>h. Ret (rec = current, self\<lparr>history := h\<rparr>)))
      else Ret (False, self))"

definition handle_requested_signal ::
    "fw_constants \<Rightarrow> node_record \<Rightarrow> requested \<Rightarrow> HinawaFwFcp \<Rightarrow> nodes \<Rightarrow> (u32 \<times> HinawaFwFcp) run" where
  "handle_requested_signal c uninit sig self ns =
     bind_run (accept_response c uninit sig self ns) (\<lambda>(recorded, self).
     bind_run
       (if recorded then
          emit_responded \<lparr>fr_generation = rd_generation sig, fr_tstamp = rd_tstamp sig,
                          fr_frame = rd_frame sig, fr_frame_size = rd_length sig\<rparr> self
        else Ret self)
       (\<lambda>self. Ret (RCODE c HINAWA_FW_RCODE_COMPLETE, self)))"

subsection \<open>Binding to a node\<close>

definition hinawa_fw_fcp_bind ::
    "sys_ioctl \<Rightarrow> obj_id \<Rightarrow> HinawaFwFcp \<Rightarrow> nodes \<Rightarrow> obj_id option \<Rightarrow> gerror_ptr \<Rightarrow>
     (bool \<times> HinawaFwFcp \<times> nodes \<times> gerror_ptr \<times> fw_ioctl list) run" where
  "hinawa_fw_fcp_bind K self priv ns node error =
     (if node = None \<or> \<not> error_unset error then Ret (False, priv, ns, error, [])
      else if fcp_node priv = None then
        bind_run
          (hinawa_fw_resp_reserve K self (priv\<lparr>fcp_transactions := []\<rparr>) ns node FCP_RESPOND_ADDR
             FCP_MAXIMUM_FRAME_BYTES error)
          (\<lambda>(reserved, priv, ns, error, io).
           if \<not> reserved then Ret (False, priv, ns, error, io)
           else
             (case node_at ns node of
                None \<Rightarrow> Fault Null_Deref
              | Some n \<Rightarrow>
                let rec = \<lparr>nr_generation = br_generation (generation n),
                           nr_src_node_id = br_node_id (generation n)\<rparr>
                in bind_run
                     (node_history_insert_record rec (node_history_reset (history priv)))
                     (\<lambda>h. Ret (True,
                       priv\<lparr>fcp_card_id := card_id n, history := h, fcp_node := node\<rparr>, ns,
                       error, io))))
      else Ret (True, priv, ns, error, []))"

definition abort_waiter :: "fcp_waiter \<Rightarrow> fcp_waiter run" where
  "abort_waiter w =
     Ret (if fw_state w = WAITER_STATE_PENDING then w\<lparr>fw_state := WAITER_STATE_ABORTED\<rparr> else w)"

definition hinawa_fw_fcp_unbind ::
    "sys_ioctl \<Rightarrow> HinawaFwFcp \<Rightarrow> nodes \<Rightarrow> (HinawaFwFcp \<times> nodes \<times> fw_ioctl list) run" where
  "hinawa_fw_fcp_unbind K priv ns =
     (let (priv, ns, io) =
        (if fcp_node priv \<noteq> None then
           let (priv, ns, io) = hinawa_fw_resp_release K priv ns
           in (priv\<lparr>fcp_node := None\<rparr>, ns, io)
         else (priv, ns, []))
      in bind_run (each_waiter abort_waiter (fcp_transactions priv) (stack priv)) (\<lambda>ws.
           Ret (priv\<lparr>stack := ws\<rparr>, ns, io)))"

text \<open>The parent's \<open>finalize\<close> releases the range, which finds nothing left to release.\<close>

definition fw_fcp_finalize ::
    "sys_ioctl \<Rightarrow> HinawaFwFcp \<Rightarrow> nodes \<Rightarrow> (HinawaFwFcp \<times> nodes \<times> fw_ioctl list) run" where
  "fw_fcp_finalize K priv ns =
     bind_run (hinawa_fw_fcp_unbind K priv ns) (\<lambda>(priv, ns, io).
       let (priv, ns, io') = fw_resp_finalize K priv ns in Ret (priv, ns, io @ io'))"

subsection \<open>Commands\<close>

text \<open>\<open>req\<close> is the address of the request object the function creates. The result has the time
  stamps when they were stored.\<close>

definition hinawa_fw_fcp_command_with_tstamp ::
    "fw_constants \<Rightarrow> sys_ioctl \<Rightarrow> req_schedule \<Rightarrow> obj_id \<Rightarrow> HinawaFwFcp \<Rightarrow> nodes \<Rightarrow> bytes option \<Rightarrow>
     u64 \<Rightarrow> bool \<Rightarrow> gerror_ptr \<Rightarrow>
     (bool \<times> (u32 \<times> u32) option \<times> nodes \<times> gerror_ptr \<times> fw_ioctl list) run" where
  "hinawa_fw_fcp_command_with_tstamp c K sch req priv ns cmd cmd_size tstamp_ok error =
     (if cmd = None \<or> \<not> (0 < cmd_size \<and> cmd_size < ucast FCP_MAXIMUM_FRAME_BYTES) \<or>
         \<not> tstamp_ok \<or> \<not> error_unset error
      then Ret (False, None, ns, error, [])
      else
        bind_run
          (hinawa_fw_req_transaction_with_tstamp c K sch req (node_at ns (fcp_node priv))
             HINAWA_FW_TCODE_WRITE_BLOCK_REQUEST FCP_REQUEST_ADDR cmd_size cmd (Some cmd_size)
             tstamp_ok error)
          (\<lambda>t. Ret (case t of
             None \<Rightarrow> (False, None, ns, error, [])
           | Some t \<Rightarrow> (tx_ok t, tx_tstamp t, node_put (fcp_node priv) (tx_node t) ns, tx_error t,
                       tx_io t))))"

definition hinawa_fw_fcp_command ::
    "fw_constants \<Rightarrow> sys_ioctl \<Rightarrow> req_schedule \<Rightarrow> obj_id \<Rightarrow> HinawaFwFcp \<Rightarrow> nodes \<Rightarrow> bytes option \<Rightarrow>
     u64 \<Rightarrow> gerror_ptr \<Rightarrow>
     (bool \<times> (u32 \<times> u32) option \<times> nodes \<times> gerror_ptr \<times> fw_ioctl list) run" where
  "hinawa_fw_fcp_command c K sch req priv ns cmd cmd_size error =
     hinawa_fw_fcp_command_with_tstamp c K sch req priv ns cmd cmd_size True error"

subsection \<open>AV/C transactions\<close>

text \<open>What other threads do to the object: the dispatcher emits \<open>responded\<close>, or runs one of the handlers
  of an emission, so that a waiting caller may run between two of them; the object is unbound; another
  AV/C transaction starts with a waiter of its own, ends, or ends early because its command failed.\<close>

datatype fcp_action =
    Responded fcp_responded
  | Handled fcp_responded
  | Unbound
  | Started obj_id fcp_waiter
  | Finished obj_id
  | Command_Failed obj_id

definition link_waiter :: "obj_id \<Rightarrow> fcp_waiter \<Rightarrow> HinawaFwFcp \<Rightarrow> HinawaFwFcp" where
  "link_waiter a w self =
     self\<lparr>fcp_transactions := a # fcp_transactions self, stack := (stack self)(a \<mapsto> w),
          responded_handlers := responded_handlers self + 1\<rparr>"

text \<open>The end of a transaction: the waiter is removed from the list, the handler disconnected, and the
  waiter's memory gone when the function returns.\<close>

definition unlink_waiter :: "obj_id \<Rightarrow> HinawaFwFcp \<Rightarrow> HinawaFwFcp" where
  "unlink_waiter a self =
     self\<lparr>fcp_transactions := remove1 a (fcp_transactions self), stack := (stack self)(a := None),
          responded_handlers := responded_handlers self - 1\<rparr>"

text \<open>The early end when the command fails: the list is left as it is.\<close>

definition abandon_waiter :: "obj_id \<Rightarrow> HinawaFwFcp \<Rightarrow> HinawaFwFcp" where
  "abandon_waiter a self =
     self\<lparr>stack := (stack self)(a := None), responded_handlers := responded_handlers self - 1\<rparr>"

text \<open>What \<open>hinawa_fw_fcp_unbind\<close> does to a bound object before it goes through the waiters: the range is
  released and the node forgotten.\<close>

definition detach :: "HinawaFwFcp \<Rightarrow> HinawaFwFcp" where
  "detach self =
     (if fcp_node self = None then self
      else
        (if resp_node self = None then self
         else self\<lparr>resp_node := None, req_frame := None, resp_frame := None, resp_length := 0, offset := 0,
                   width := 0\<rparr>)\<lparr>fcp_node := None\<rparr>)"

primrec fcp_act :: "fcp_action \<Rightarrow> HinawaFwFcp \<Rightarrow> HinawaFwFcp run" where
  "fcp_act (Responded s) self = emit_responded s self"
| "fcp_act (Handled s) self = handle_responded_signal s self"
| "fcp_act Unbound self =
     bind_run (each_waiter abort_waiter (fcp_transactions self) (stack self)) (\<lambda>ws.
       Ret ((detach self)\<lparr>stack := ws\<rparr>))"
| "fcp_act (Started a w) self = Ret (link_waiter a w self)"
| "fcp_act (Finished a) self = Ret (unlink_waiter a self)"
| "fcp_act (Command_Failed a) self = Ret (abandon_waiter a self)"

primrec fcp_acts :: "fcp_action list \<Rightarrow> HinawaFwFcp \<Rightarrow> HinawaFwFcp run" where
  "fcp_acts [] self = Ret self"
| "fcp_acts (a # as) self = bind_run (fcp_act a self) (fcp_acts as)"

text \<open>The action is the call of \<open>hinawa_fw_fcp_unbind\<close> by another thread, whatever the kernel answers.\<close>

lemma unbound_action:
  "fcp_act Unbound self = bind_run (hinawa_fw_fcp_unbind K self ns) (\<lambda>(self, ns, io). Ret self)"
  by (cases "each_waiter abort_waiter (fcp_transactions self) (stack self)")
     (auto simp: hinawa_fw_fcp_unbind_def hinawa_fw_resp_release_def detach_def split: prod.split)

text \<open>The waiter before the command is sent: \<open>frame[0]\<close> guards against a spurious wake-up, \<open>frame[1]\<close>
  and \<open>frame[2]\<close> are what a response is matched with. \<open>w.generation\<close> is not set before a response
  arrives and not read before that.\<close>

definition avc_waiter :: "bytes \<Rightarrow> bytes \<Rightarrow> u64 \<Rightarrow> fcp_waiter run" where
  "avc_waiter cmd resp resp_size =
     bind_run (write_at resp 0 0xff) (\<lambda>fr.
     bind_run (read_at cmd 1) (\<lambda>c1. bind_run (write_at fr 1 c1) (\<lambda>fr.
     bind_run (read_at cmd 2) (\<lambda>c2. bind_run (write_at fr 2 c2) (\<lambda>fr.
       Ret \<lparr>fw_state = WAITER_STATE_PENDING, fw_generation = 0, fw_frame = fr,
            fw_frame_size = ucast resp_size, fw_tstamp = G_MAXUINT\<rparr>)))))"

text \<open>The test for a deferred transaction.\<close>

definition deferred :: "u32 \<Rightarrow> fcp_waiter \<Rightarrow> bool run" where
  "deferred gen w =
     (if fw_state w = WAITER_STATE_RESPONDED \<and> fw_generation w = gen
      then bind_run (read_at (fw_frame w) 0) (\<lambda>b. Ret (b = avc_status_code AVC_STATUS_INTERIM))
      else Ret False)"

definition await_again :: "u64 \<Rightarrow> fcp_waiter \<Rightarrow> fcp_waiter run" where
  "await_again resp_size w =
     bind_run (write_at (fw_frame w) 0 0) (\<lambda>fr.
       Ret (w\<lparr>fw_state := WAITER_STATE_PENDING, fw_frame := fr, fw_frame_size := ucast resp_size\<rparr>))"

definition put_waiter :: "obj_id \<Rightarrow> HinawaFwFcp \<Rightarrow> fcp_waiter \<Rightarrow> HinawaFwFcp" where
  "put_waiter wa self w = self\<lparr>stack := (stack self)(wa \<mapsto> w)\<rparr>"

text \<open>The waiting loop with the jump back to \<open>deferred\<close>, from a pending waiter at the address \<open>wa\<close>: an
  element of the schedule is one return of \<open>g_cond_wait_until\<close>.\<close>

primrec avc_wait ::
    "u32 \<Rightarrow> u64 \<Rightarrow> obj_id \<Rightarrow> (fcp_action list \<times> bool) list \<Rightarrow> HinawaFwFcp \<Rightarrow> HinawaFwFcp run" where
  "avc_wait gen resp_size wa [] self = Ret self"
| "avc_wait gen resp_size wa (wake # wakes) self =
     bind_run (fcp_acts (fst wake) self) (\<lambda>self.
       (case stack self wa of
          None \<Rightarrow> Fault Dangling
        | Some w \<Rightarrow>
          if fw_state w = WAITER_STATE_PENDING then
            (if snd wake then avc_wait gen resp_size wa wakes self else Ret self)
          else
            bind_run (deferred gen w) (\<lambda>again.
              if again then
                bind_run (await_again resp_size w) (\<lambda>w.
                  avc_wait gen resp_size wa wakes (put_waiter wa self w))
              else Ret self)))"

record avc_result =
  av_ok :: bool
  av_resp :: bytes
  av_resp_size :: u64
  av_tstamp :: "(u32 \<times> u32) option \<times> u32 option"
  av_fcp :: HinawaFwFcp
  av_nodes :: nodes
  av_error :: gerror_ptr
  av_io :: "fw_ioctl list"

text \<open>The \<open>switch\<close> on the waiter's state, after it has been removed from the list.\<close>

definition conclude_avc ::
    "u32 \<Rightarrow> u64 \<Rightarrow> (u32 \<times> u32) option \<Rightarrow> HinawaFwFcp \<Rightarrow> nodes \<Rightarrow> gerror_ptr \<Rightarrow> fw_ioctl list \<Rightarrow> fcp_waiter \<Rightarrow>
     avc_result" where
  "conclude_avc gen resp_size tstamp self ns error io w =
     (let out = \<lparr>av_ok = False, av_resp = fw_frame w, av_resp_size = resp_size,
                 av_tstamp = (tstamp, None), av_fcp = self, av_nodes = ns, av_error = error,
                 av_io = io\<rparr>
      in case fw_state w of
           WAITER_STATE_RESPONDED \<Rightarrow>
             if fw_generation w \<noteq> gen then
               out\<lparr>av_error := g_set_error error (fcp_local_error HINAWA_FW_FCP_ERROR_ABORTED)\<rparr>
             else if resp_size < ucast (fw_frame_size w) then
               out\<lparr>av_error := g_set_error error (fcp_local_error HINAWA_FW_FCP_ERROR_LARGE_RESP)\<rparr>
             else
               out\<lparr>av_ok := True, av_resp_size := ucast (fw_frame_size w),
                   av_tstamp := (tstamp, Some (fw_tstamp w))\<rparr>
         | _ \<Rightarrow>
             out\<lparr>av_error := g_set_error error (fcp_local_error HINAWA_FW_FCP_ERROR_TIMEOUT)\<rparr>)"

text \<open>\<open>wa\<close> is the address of the waiter, \<open>req\<close> that of the request object; the result is \<open>None\<close> when an
  argument check fails. The local variable \<open>generation\<close> is only read once the command has succeeded,
  for which the object has to be bound.\<close>

definition hinawa_fw_fcp_avc_transaction_with_tstamp ::
    "fw_constants \<Rightarrow> sys_ioctl \<Rightarrow> req_schedule \<Rightarrow> (fcp_action list \<times> bool) list \<Rightarrow> obj_id \<Rightarrow> obj_id \<Rightarrow>
     HinawaFwFcp \<Rightarrow> nodes \<Rightarrow> bytes option \<Rightarrow> u64 \<Rightarrow> bytes option \<Rightarrow> u64 option \<Rightarrow> bool \<Rightarrow> gerror_ptr \<Rightarrow>
     avc_result option run" where
  "hinawa_fw_fcp_avc_transaction_with_tstamp c K sch wakes req wa priv ns cmd cmd_size resp resp_size
       tstamp_ok error =
     (case (cmd, resp, resp_size) of
        (Some cm, Some rs, Some rsize) \<Rightarrow>
          if \<not> (2 < cmd_size \<and> cmd_size < ucast FCP_MAXIMUM_FRAME_BYTES) \<or> \<not> 0 < rsize \<or>
             \<not> tstamp_ok \<or> \<not> error_unset error
          then Ret None
          else
            bind_run (avc_waiter cm rs rsize) (\<lambda>w.
            let self = link_waiter wa w priv;
                gen = (case node_at ns (fcp_node self) of
                         None \<Rightarrow> 0 | Some n \<Rightarrow> br_generation (generation n))
            in bind_run
                 (hinawa_fw_fcp_command_with_tstamp c K sch req self ns cmd cmd_size True error)
                 (\<lambda>(sent, tstamp, ns, error, io).
                  if \<not> sent then
                    Ret (Some \<lparr>av_ok = False, av_resp = fw_frame w, av_resp_size = rsize,
                               av_tstamp = (tstamp, None), av_fcp = abandon_waiter wa self,
                               av_nodes = ns, av_error = error, av_io = io\<rparr>)
                  else
                    bind_run (avc_wait gen rsize wa wakes self) (\<lambda>self.
                      (case stack self wa of
                         None \<Rightarrow> Fault Dangling
                       | Some w \<Rightarrow> Ret (Some (conclude_avc gen rsize tstamp
                                       (unlink_waiter wa self) ns error io w))))))
      | _ \<Rightarrow> Ret None)"

definition hinawa_fw_fcp_avc_transaction ::
    "fw_constants \<Rightarrow> sys_ioctl \<Rightarrow> req_schedule \<Rightarrow> (fcp_action list \<times> bool) list \<Rightarrow> obj_id \<Rightarrow> obj_id \<Rightarrow>
     HinawaFwFcp \<Rightarrow> nodes \<Rightarrow> bytes option \<Rightarrow> u64 \<Rightarrow> bytes option \<Rightarrow> u64 option \<Rightarrow> gerror_ptr \<Rightarrow>
     avc_result option run" where
  "hinawa_fw_fcp_avc_transaction c K sch wakes req wa priv ns cmd cmd_size resp resp_size error =
     hinawa_fw_fcp_avc_transaction_with_tstamp c K sch wakes req wa priv ns cmd cmd_size resp
       resp_size True error"

subsection \<open>Acceptance of response frames\<close>

definition fcp_event :: "fw_constants \<Rightarrow> HinawaFwFcp \<Rightarrow> requested \<Rightarrow> bool" where
  "fcp_event c self sig \<longleftrightarrow> rd_offset sig = FCP_RESPOND_ADDR \<and>
     rd_tcode sig = TCODE c HINAWA_FW_TCODE_WRITE_BLOCK_REQUEST \<and> rd_card_id sig = fcp_card_id self"

definition source_record :: "requested \<Rightarrow> node_record" where
  "source_record sig = \<lparr>nr_generation = rd_generation sig, nr_src_node_id = rd_src_node_id sig\<rparr>"

definition node_identity :: "HinawaFwNode \<Rightarrow> node_record" where
  "node_identity n = \<lparr>nr_generation = br_generation (generation n),
     nr_src_node_id = br_node_id (generation n)\<rparr>"

lemma accept_response_eq:
  assumes "history_ok (history self)" and "node_at ns (fcp_node self) = Some n"
  shows "\<exists>h. accept_response c uninit sig self ns =
      Ret (fcp_event c self sig \<and> (source_record sig \<in> set (history_view (history self)) \<or>
             source_record sig = node_identity n), self\<lparr>history := h\<rparr>) \<and> history_ok h \<and>
    history_view h =
      (if fcp_event c self sig \<and> source_record sig \<notin> set (history_view (history self)) \<and>
          rd_generation sig \<noteq> br_generation (generation n)
       then remember NODE_HISTORY_RECORD_COUNT (node_identity n) (history_view (history self))
       else history_view (history self))"
proof (cases "fcp_event c self sig \<and> source_record sig \<notin> set (history_view (history self)) \<and>
    rd_generation sig \<noteq> br_generation (generation n)")
  case True
  obtain h where h: "node_history_insert_record (node_identity n) (history self) = Ret h" "history_ok h"
    "history_view h = remember NODE_HISTORY_RECORD_COUNT (node_identity n)
       (history_view (history self))"
    using ring.inserts [OF assms(1)] by blast
  with True assms show ?thesis
    by (intro exI [of _ h])
       (auto simp: accept_response_def ring.detects current_record_def fcp_event_def source_record_def
         node_identity_def)
next
  case False
  with assms show ?thesis
    by (intro exI [of _ "history self"])
       (auto simp: accept_response_def ring.detects current_record_def fcp_event_def source_record_def
         node_identity_def Let_def)
qed

text \<open>C20. Which requests at the range of FCP responses are taken as response frames: exactly the
  block writes at the address of FCP responses that arrived at the card of the bound node and whose
  source and generation are recorded or are those of the node at present. The history then
  remembers the identity of the node at present if the request was of another generation and not
  recorded; no access leaves the history's array.\<close>

lemma response_frame_accepted_iff:
  assumes "history_ok (history self)" and "node_at ns (fcp_node self) = Some n"
  shows "\<exists>h. accept_response c uninit sig self ns =
      Ret (fcp_event c self sig \<and> (source_record sig \<in> set (history_view (history self)) \<or>
             source_record sig = node_identity n), self\<lparr>history := h\<rparr>) \<and> history_ok h \<and>
    (\<forall>q. node_history_detect_record q h = Ret (q \<in> set
      (if fcp_event c self sig \<and> source_record sig \<notin> set (history_view (history self)) \<and>
          rd_generation sig \<noteq> br_generation (generation n)
       then remember NODE_HISTORY_RECORD_COUNT (node_identity n) (history_view (history self))
       else history_view (history self))))"
proof -
  from accept_response_eq [OF assms, of c uninit sig] obtain h where
    h: "accept_response c uninit sig self ns =
      Ret (fcp_event c self sig \<and> (source_record sig \<in> set (history_view (history self)) \<or>
             source_record sig = node_identity n), self\<lparr>history := h\<rparr>)" and ok: "history_ok h"
    and view: "history_view h =
      (if fcp_event c self sig \<and> source_record sig \<notin> set (history_view (history self)) \<and>
          rd_generation sig \<noteq> br_generation (generation n)
       then remember NODE_HISTORY_RECORD_COUNT (node_identity n) (history_view (history self))
       else history_view (history self))" by blast
  show ?thesis
    by (rule exI [of _ h]) (simp only: h ok ring.detects [OF ok] view simp_thms)
qed

subsection \<open>Binding\<close>

lemma bind_eq:
  assumes K: "errno_ok K" and free: "fcp_node priv = None" "resp_node priv = None"
    and n: "node_at ns node = Some n" "0 \<le> fd n"
    and granted: "K (fd n) (FW_CDEV_IOC_ALLOCATE (allocate_request self FCP_RESPOND_ADDR
        (FCP_RESPOND_ADDR + ucast FCP_MAXIMUM_FRAME_BYTES) FCP_MAXIMUM_FRAME_BYTES)) =
      Inr (FW_CDEV_IOC_ALLOCATE b)"
  shows "\<exists>h. hinawa_fw_fcp_bind K self priv ns node (Err None) =
    Ret (True, (granted_range node b (priv\<lparr>fcp_transactions := []\<rparr>))
      \<lparr>fcp_card_id := card_id n, history := h, fcp_node := node\<rparr>, ns, Err None,
      [FW_CDEV_IOC_ALLOCATE (allocate_request self FCP_RESPOND_ADDR
        (FCP_RESPOND_ADDR + ucast FCP_MAXIMUM_FRAME_BYTES) FCP_MAXIMUM_FRAME_BYTES)]) \<and>
    history_ok h \<and> history_view h = remember NODE_HISTORY_RECORD_COUNT (node_identity n)
      (replicate NODE_HISTORY_RECORD_COUNT zero_record)"
proof -
  have w: "0 < FCP_MAXIMUM_FRAME_BYTES" by (simp add: FCP_MAXIMUM_FRAME_BYTES_def)
  have node: "node \<noteq> None" using n(1) by (cases node) (simp_all add: node_at_def)
  obtain h where h: "node_history_insert_record (node_identity n) (node_history_reset (history priv)) =
      Ret h" "history_ok h" "history_view h = remember NODE_HISTORY_RECORD_COUNT (node_identity n)
      (replicate NODE_HISTORY_RECORD_COUNT zero_record)"
    using ring.inserts [OF history_ok_reset, of "node_identity n" "history priv"]
    by (auto simp: history_view_reset)
  have hist: "history (granted_range node b (priv\<lparr>fcp_transactions := []\<rparr>)) = history priv"
    by (simp add: granted_range_def)
  have res: "hinawa_fw_resp_reserve K self (priv\<lparr>fcp_transactions := []\<rparr>) ns node FCP_RESPOND_ADDR
      FCP_MAXIMUM_FRAME_BYTES (Err None) =
      Ret (True, granted_range node b (priv\<lparr>fcp_transactions := []\<rparr>), ns, Err None,
      [FW_CDEV_IOC_ALLOCATE (allocate_request self FCP_RESPOND_ADDR
        (FCP_RESPOND_ADDR + ucast FCP_MAXIMUM_FRAME_BYTES) FCP_MAXIMUM_FRAME_BYTES)])"
    unfolding hinawa_fw_resp_reserve_def using free(2)
    by (subst reserve_eq [OF K w _ n]) (simp_all add: granted)
  show ?thesis
    by (rule exI [of _ h])
       (use h hist res node n free(1) in \<open>simp add: hinawa_fw_fcp_bind_def node_identity_def\<close>)
qed

lemma remember_in_set:
  assumes "length xs = n" and "0 < n" and "\<And>x. x \<in> set xs \<Longrightarrow> x = z"
  shows "q \<noteq> z \<Longrightarrow> q \<in> set (remember n r xs) \<longleftrightarrow> q = r"
  using assms by (cases n) (auto simp: remember_def dest: in_set_takeD)

lemma bound_state:
  assumes K: "errno_ok K" "allocate_ok K" and free: "fcp_node priv = None" "resp_node priv = None"
    and n: "node_at ns node = Some n" "0 \<le> fd n"
    and bound: "hinawa_fw_fcp_bind K self priv ns node (Err None) = Ret (True, priv', ns', p, io)"
  shows "p = Err None \<and> ns' = ns \<and> fcp_node priv' = node \<and> offset priv' = FCP_RESPOND_ADDR \<and>
    width priv' = FCP_MAXIMUM_FRAME_BYTES \<and> fcp_card_id priv' = card_id n \<and> history_ok (history priv') \<and>
    history_view (history priv') = remember NODE_HISTORY_RECORD_COUNT (node_identity n)
      (replicate NODE_HISTORY_RECORD_COUNT zero_record)"
proof -
  let ?a = "allocate_request self FCP_RESPOND_ADDR
    (FCP_RESPOND_ADDR + ucast FCP_MAXIMUM_FRAME_BYTES) FCP_MAXIMUM_FRAME_BYTES"
  have w: "0 < FCP_MAXIMUM_FRAME_BYTES" by (simp add: FCP_MAXIMUM_FRAME_BYTES_def)
  have node: "node \<noteq> None" using n(1) by (cases node) (simp_all add: node_at_def)
  have "\<not> (\<exists>e. K (fd n) (FW_CDEV_IOC_ALLOCATE ?a) = Inl e)"
  proof
    assume "\<exists>e. K (fd n) (FW_CDEV_IOC_ALLOCATE ?a) = Inl e"
    then obtain e where "K (fd n) (FW_CDEV_IOC_ALLOCATE ?a) = Inl e" by blast
    with reserve_eq [OF K(1) w _ n, of "priv\<lparr>fcp_transactions := []\<rparr>" self FCP_RESPOND_ADDR
        "FCP_RESPOND_ADDR + ucast FCP_MAXIMUM_FRAME_BYTES"] free bound node
    show False by (simp add: hinawa_fw_fcp_bind_def hinawa_fw_resp_reserve_def)
  qed
  then obtain b where b: "K (fd n) (FW_CDEV_IOC_ALLOCATE ?a) = Inr (FW_CDEV_IOC_ALLOCATE b)"
    "al_length b = FCP_MAXIMUM_FRAME_BYTES" "unat FCP_RESPOND_ADDR \<le> unat (al_offset b)"
    "unat (al_offset b) + unat FCP_MAXIMUM_FRAME_BYTES \<le>
       unat (FCP_RESPOND_ADDR + ucast FCP_MAXIMUM_FRAME_BYTES)"
    using K(2) by (cases "K (fd n) (FW_CDEV_IOC_ALLOCATE ?a)")
      (fastforce simp: allocate_ok_def allocate_request_def)+
  from bind_eq [OF K(1) free n b(1)] bound obtain h where
    h: "history_ok h" "history_view h = remember NODE_HISTORY_RECORD_COUNT (node_identity n)
      (replicate NODE_HISTORY_RECORD_COUNT zero_record)"
    and eq: "priv' = (granted_range node b (priv\<lparr>fcp_transactions := []\<rparr>))
      \<lparr>fcp_card_id := card_id n, history := h, fcp_node := node\<rparr>" "ns' = ns" "p = Err None"
    by auto
  have "unat (al_offset b) = unat FCP_RESPOND_ADDR"
    using b(3,4) by (simp add: FCP_RESPOND_ADDR_def FCP_MAXIMUM_FRAME_BYTES_def)
  then have off: "al_offset b = FCP_RESPOND_ADDR" by (simp add: word_unat_eq_iff)
  have sel: "history priv' = h" "fcp_node priv' = node" "offset priv' = FCP_RESPOND_ADDR"
    "width priv' = FCP_MAXIMUM_FRAME_BYTES" "fcp_card_id priv' = card_id n"
    using b(2) off by (simp_all add: eq granted_range_def)
  with eq h show ?thesis by simp
qed

text \<open>C21. Binding an object that is not bound yet to an opened node, with a kernel that keeps what it
  documents of allocations: if the call returns true, no error is reported, the object listens to
  exactly the 512 bytes at the address of FCP responses, and a request is then taken as a response
  frame exactly when it is a block write to that address, arrived at the card of the node, and comes from
  the node under the identity it had when it was bound. Requests whose source and generation are both
  zero are left out of this statement: they match the unused entries of the history, whatever the node.
  Binding a bound object again changes nothing.\<close>

lemma bound_object_hears_its_node:
  assumes K: "errno_ok K" "allocate_ok K" and free: "fcp_node priv = None" "resp_node priv = None"
    and n: "node_at ns node = Some n" "0 \<le> fd n"
    and bound: "hinawa_fw_fcp_bind K self priv ns node (Err None) = Ret (True, priv', ns', p, io)"
  shows "p = Err None \<and> ns' = ns \<and> fcp_node priv' = node \<and> offset priv' = FCP_RESPOND_ADDR \<and>
    width priv' = FCP_MAXIMUM_FRAME_BYTES \<and> history_ok (history priv') \<and>
    (\<forall>sig. source_record sig \<noteq> zero_record \<longrightarrow>
       (\<exists>h. accept_response c uninit sig priv' ns =
          Ret (rd_offset sig = FCP_RESPOND_ADDR \<and>
               rd_tcode sig = TCODE c HINAWA_FW_TCODE_WRITE_BLOCK_REQUEST \<and>
               rd_card_id sig = card_id n \<and> source_record sig = node_identity n,
               priv'\<lparr>history := h\<rparr>))) \<and>
    hinawa_fw_fcp_bind K self priv' ns node (Err None) = Ret (True, priv', ns, Err None, [])"
proof -
  note st = bound_state [OF assms]
  have node: "node \<noteq> None" using n(1) by (cases node) (simp_all add: node_at_def)
  have "\<exists>h'. accept_response c uninit sig priv' ns =
      Ret (rd_offset sig = FCP_RESPOND_ADDR \<and> rd_tcode sig = TCODE c HINAWA_FW_TCODE_WRITE_BLOCK_REQUEST \<and>
        rd_card_id sig = card_id n \<and> source_record sig = node_identity n, priv'\<lparr>history := h'\<rparr>)"
    if "source_record sig \<noteq> zero_record" for sig
  proof -
    have "source_record sig \<in> set (history_view (history priv')) \<longleftrightarrow> source_record sig = node_identity n"
      using st that by (simp only:) (intro remember_in_set; auto simp: NODE_HISTORY_RECORD_COUNT_def)
    with accept_response_eq [of priv' ns n c uninit sig] st n(1) show ?thesis
      by (auto simp: fcp_event_def)
  qed
  moreover have "hinawa_fw_fcp_bind K self priv' ns node (Err None) = Ret (True, priv', ns, Err None, [])"
    using st node by (auto simp: hinawa_fw_fcp_bind_def)
  ultimately show ?thesis using st by simp
qed

definition sample_fcp_node :: HinawaFwNode where
  "sample_fcp_node = hinawa_fw_node_init\<lparr>fd := 3, card_id := 1,
     generation := \<lparr>br_closure = 2, br_node_id = 0xffc1, br_local_node_id = 0xffc0,
       br_bm_node_id = 0xffc0, br_irm_node_id = 0xffc0, br_root_node_id = 0xffc1,
       br_generation = 6\<rparr>\<rparr>"

lemma bound_object_hears_its_node_witness:
  "\<exists>priv'. (\<exists>p io. hinawa_fw_fcp_bind (first_fit_kernel 5) 7 hinawa_fw_fcp_init
      [2 \<mapsto> sample_fcp_node] (Some 2) (Err None) = Ret (True, priv', [2 \<mapsto> sample_fcp_node], p, io)) \<and>
    offset priv' = FCP_RESPOND_ADDR \<and> width priv' = FCP_MAXIMUM_FRAME_BYTES"
proof -
  let ?ns = "[2 \<mapsto> sample_fcp_node] :: nodes"
  have n: "node_at ?ns (Some 2) = Some sample_fcp_node" "0 \<le> fd sample_fcp_node"
    by (simp_all add: node_at_def sample_fcp_node_def)
  have free: "fcp_node hinawa_fw_fcp_init = None" "resp_node hinawa_fw_fcp_init = None"
    by (simp_all add: hinawa_fw_fcp_init_def)
  have "first_fit_kernel 5 (fd sample_fcp_node) (FW_CDEV_IOC_ALLOCATE (allocate_request 7
      FCP_RESPOND_ADDR (FCP_RESPOND_ADDR + ucast FCP_MAXIMUM_FRAME_BYTES) FCP_MAXIMUM_FRAME_BYTES)) =
      Inr (FW_CDEV_IOC_ALLOCATE ((allocate_request 7 FCP_RESPOND_ADDR
        (FCP_RESPOND_ADDR + ucast FCP_MAXIMUM_FRAME_BYTES) FCP_MAXIMUM_FRAME_BYTES)\<lparr>al_handle := 5\<rparr>))"
    by (simp add: first_fit_kernel_def allocate_request_def FCP_RESPOND_ADDR_def
        FCP_MAXIMUM_FRAME_BYTES_def)
  from bind_eq [OF first_fit_ok(2) free n this] obtain priv' p io where
    b: "hinawa_fw_fcp_bind (first_fit_kernel 5) 7 hinawa_fw_fcp_init ?ns (Some 2) (Err None) =
      Ret (True, priv', ?ns, p, io)"
    by blast
  with bound_object_hears_its_node [OF first_fit_ok(2,1) free n b] show ?thesis by blast
qed

lemma response_frame_accepted_iff_witness:
  "\<exists>h. accept_response numbered_constants zero_record
      \<lparr>rd_tcode = 1, rd_offset = FCP_RESPOND_ADDR, rd_src_node_id = 0xffc1, rd_dst_node_id = 0xffc0,
       rd_card_id = 0, rd_generation = 6, rd_tstamp = 0, rd_frame = [9, 0, 0], rd_length = 3\<rparr>
      (hinawa_fw_fcp_init\<lparr>fcp_node := Some 2, history := node_history_reset node_history_init\<rparr>)
      [2 \<mapsto> sample_fcp_node] =
    Ret (True, hinawa_fw_fcp_init\<lparr>fcp_node := Some 2, history := h\<rparr>)"
proof -
  let ?self = "hinawa_fw_fcp_init\<lparr>fcp_node := Some 2, history := node_history_reset node_history_init\<rparr>"
  have "history_ok (history ?self)" by (simp add: history_ok_reset)
  moreover have "node_at [2 \<mapsto> sample_fcp_node] (fcp_node ?self) = Some sample_fcp_node"
    by (simp add: node_at_def)
  ultimately show ?thesis
    using response_frame_accepted_iff [of ?self "[2 \<mapsto> sample_fcp_node]" sample_fcp_node
        numbered_constants zero_record "\<lparr>rd_tcode = 1, rd_offset = FCP_RESPOND_ADDR,
        rd_src_node_id = 0xffc1, rd_dst_node_id = 0xffc0, rd_card_id = 0, rd_generation = 6,
        rd_tstamp = 0, rd_frame = [9, 0, 0], rd_length = 3\<rparr>"]
    by (auto simp: fcp_event_def source_record_def node_identity_def sample_fcp_node_def
        numbered_constants_def hinawa_fw_fcp_init_def)
qed

subsection \<open>An AV/C transaction on its own\<close>

text \<open>When no other AV/C transaction runs on the object, the waiting loop only concerns the
  transaction's own waiter: the loop below works on the waiter alone.\<close>

primrec own_action :: "fcp_action \<Rightarrow> bool" where
  "own_action (Responded s) = True"
| "own_action (Handled s) = True"
| "own_action Unbound = True"
| "own_action (Started a w) = False"
| "own_action (Finished a) = False"
| "own_action (Command_Failed a) = False"

primrec waiter_act :: "fcp_action \<Rightarrow> fcp_waiter \<Rightarrow> fcp_waiter run" where
  "waiter_act (Responded s) w = respond_waiter s w"
| "waiter_act (Handled s) w = respond_waiter s w"
| "waiter_act Unbound w = abort_waiter w"
| "waiter_act (Started a v) w = Ret w"
| "waiter_act (Finished a) w = Ret w"
| "waiter_act (Command_Failed a) w = Ret w"

primrec waiter_acts :: "fcp_action list \<Rightarrow> fcp_waiter \<Rightarrow> fcp_waiter run" where
  "waiter_acts [] w = Ret w"
| "waiter_acts (a # as) w = bind_run (waiter_act a w) (waiter_acts as)"

primrec waiter_wait ::
    "u32 \<Rightarrow> u64 \<Rightarrow> (fcp_action list \<times> bool) list \<Rightarrow> fcp_waiter \<Rightarrow> fcp_waiter run" where
  "waiter_wait gen resp_size [] w = Ret w"
| "waiter_wait gen resp_size (wake # wakes) w =
     bind_run (waiter_acts (fst wake) w) (\<lambda>w.
       if fw_state w = WAITER_STATE_PENDING then
         (if snd wake then waiter_wait gen resp_size wakes w else Ret w)
       else
         bind_run (deferred gen w) (\<lambda>again.
           if again then bind_run (await_again resp_size w) (waiter_wait gen resp_size wakes)
           else Ret w))"

text \<open>Whether the object is unbound before the wait is over.\<close>

primrec unbound_while ::
    "u32 \<Rightarrow> u64 \<Rightarrow> (fcp_action list \<times> bool) list \<Rightarrow> fcp_waiter \<Rightarrow> bool" where
  "unbound_while gen resp_size [] w = False"
| "unbound_while gen resp_size (wake # wakes) w =
     (Unbound \<in> set (fst wake) \<or>
      (case waiter_acts (fst wake) w of
         Fault _ \<Rightarrow> False
       | Ret w \<Rightarrow>
           if fw_state w = WAITER_STATE_PENDING then snd wake \<and> unbound_while gen resp_size wakes w
           else
             (case deferred gen w of
                Fault _ \<Rightarrow> False
              | Ret again \<Rightarrow>
                  again \<and>
                  (case await_again resp_size w of
                     Fault _ \<Rightarrow> False | Ret w \<Rightarrow> unbound_while gen resp_size wakes w))))"

lemma never_unbound:
  "list_all (\<lambda>wake. Unbound \<notin> set (fst wake)) wakes \<Longrightarrow> \<not> unbound_while gen resp_size wakes w"
  by (induction wakes arbitrary: w) (auto split: run.splits)

definition alone :: "obj_id \<Rightarrow> fcp_waiter \<Rightarrow> HinawaFwFcp \<Rightarrow> bool" where
  "alone wa w self \<longleftrightarrow> fcp_transactions self = [wa] \<and> stack self wa = Some w \<and>
     responded_handlers self = 1"

lemma put_waiter_sel [simp]:
  "stack (put_waiter wa self w) = (stack self)(wa \<mapsto> w)"
  "fcp_transactions (put_waiter wa self w) = fcp_transactions self"
  "responded_handlers (put_waiter wa self w) = responded_handlers self"
  by (simp_all add: put_waiter_def)

lemma put_waiter_put [simp]: "put_waiter wa (put_waiter wa self v) w = put_waiter wa self w"
  unfolding put_waiter_def by simp

lemma put_waiter_same: "alone wa w self \<Longrightarrow> put_waiter wa self w = self"
  unfolding put_waiter_def alone_def by (simp only: map_upd_triv) simp

lemma alone_put: "alone wa w self \<Longrightarrow> alone wa v (put_waiter wa self v)"
  by (simp add: alone_def)

lemma detach_sel [simp]:
  "stack (detach self) = stack self" "fcp_transactions (detach self) = fcp_transactions self"
  "responded_handlers (detach self) = responded_handlers self" "fcp_node (detach self) = None"
  by (simp_all add: detach_def)

lemma detach_detach [simp]: "detach (detach self) = detach self"
  by (simp add: detach_def)

lemma detach_put_waiter [simp]: "detach (put_waiter wa self w) = put_waiter wa (detach self) w"
  by (simp add: detach_def put_waiter_def)

lemma alone_detach: "alone wa w self \<Longrightarrow> alone wa w (detach self)"
  by (simp add: alone_def)

text \<open>The object after actions among which it may have been unbound.\<close>

definition left_by :: "bool \<Rightarrow> HinawaFwFcp \<Rightarrow> HinawaFwFcp" where
  "left_by unbound self = (if unbound then detach self else self)"

lemma left_by_simps [simp]:
  "left_by False self = self" "left_by True self = detach self"
  "left_by b (left_by c self) = left_by (b \<or> c) self"
  "left_by b (put_waiter wa self w) = put_waiter wa (left_by b self) w"
  by (simp_all add: left_by_def)

lemma alone_left_by: "alone wa w self \<Longrightarrow> alone wa w (left_by b self)"
  by (simp add: left_by_def alone_detach)

lemma fcp_act_alone:
  assumes "alone wa w self" and "own_action a"
  shows "fcp_act a self =
    bind_run (waiter_act a w) (\<lambda>v. Ret (put_waiter wa (left_by (Unbound = a) self) v))"
proof (cases a)
  case (Responded s)
  with assms show ?thesis
    by (cases "respond_waiter s w")
       (simp_all add: alone_def emit_responded_def handle_responded_signal_def put_waiter_def)
next
  case (Handled s)
  with assms show ?thesis
    by (cases "respond_waiter s w") (simp_all add: alone_def handle_responded_signal_def put_waiter_def)
next
  case Unbound
  with assms show ?thesis
    by (simp add: alone_def abort_waiter_def put_waiter_def)
qed (use assms in simp_all)

lemma fcp_acts_alone:
  assumes "alone wa w self" and "list_all own_action as"
  shows "fcp_acts as self =
    bind_run (waiter_acts as w) (\<lambda>v. Ret (put_waiter wa (left_by (Unbound \<in> set as) self) v))"
  using assms
proof (induction as arbitrary: w self)
  case Nil
  then show ?case
    by (simp add: put_waiter_same)
next
  case (Cons a as)
  then have a: "fcp_act a self =
      bind_run (waiter_act a w) (\<lambda>v. Ret (put_waiter wa (left_by (Unbound = a) self) v))"
    by (simp add: fcp_act_alone)
  show ?case
  proof (cases "waiter_act a w")
    case (Ret v)
    with a Cons.IH [OF alone_put [OF alone_left_by [OF Cons.prems(1)], of v]] Cons.prems show ?thesis
      by (simp add: disj_commute)
  qed (use a in simp)
qed

lemma avc_wait_alone:
  assumes "alone wa w self" and "list_all (\<lambda>wake. list_all own_action (fst wake)) wakes"
  shows "avc_wait gen resp_size wa wakes self =
    bind_run (waiter_wait gen resp_size wakes w) (\<lambda>v.
      Ret (put_waiter wa (left_by (unbound_while gen resp_size wakes w) self) v))"
  using assms
proof (induction wakes arbitrary: w self)
  case Nil
  then show ?case
    by (simp add: put_waiter_same)
next
  case (Cons wake wakes)
  let ?self = "left_by (Unbound \<in> set (fst wake)) self"
  have acts: "fcp_acts (fst wake) self = bind_run (waiter_acts (fst wake) w) (\<lambda>v. Ret (put_waiter wa ?self v))"
    using Cons.prems by (simp add: fcp_acts_alone)
  show ?case
  proof (cases "waiter_acts (fst wake) w")
    case (Fault e)
    with acts show ?thesis by simp
  next
    case v: (Ret v)
    have IH: "avc_wait gen resp_size wa wakes (put_waiter wa ?self u) =
        bind_run (waiter_wait gen resp_size wakes u) (\<lambda>v.
          Ret (put_waiter wa (left_by (unbound_while gen resp_size wakes u) ?self) v))" for u
      using Cons.IH [OF alone_put [OF alone_left_by [OF Cons.prems(1)], of u]] Cons.prems(2) by simp
    show ?thesis
    proof (cases "fw_state v = WAITER_STATE_PENDING")
      case True
      with acts v IH [of v] show ?thesis by (simp add: disj_commute)
    next
      case False
      show ?thesis
      proof (cases "deferred gen v")
        case (Ret again)
        with acts v False IH show ?thesis
          by (cases "await_again resp_size v") (auto simp: disj_commute)
      qed (use acts v False in simp)
    qed
  qed
qed

lemma command_link_waiter [simp]:
  "hinawa_fw_fcp_command_with_tstamp c K sch req (link_waiter wa w priv) ns cmd cmd_size t p =
   hinawa_fw_fcp_command_with_tstamp c K sch req priv ns cmd cmd_size t p"
proof -
  have "fcp_node (link_waiter wa w priv) = fcp_node priv" by (simp add: link_waiter_def)
  then show ?thesis by (simp only: hinawa_fw_fcp_command_with_tstamp_def)
qed

text \<open>An object on which no AV/C transaction runs, and an address on the stack that is not in use.\<close>

definition idle :: "obj_id \<Rightarrow> HinawaFwFcp \<Rightarrow> bool" where
  "idle wa priv \<longleftrightarrow> fcp_transactions priv = [] \<and> responded_handlers priv = 0 \<and> stack priv wa = None"

lemma alone_link: "idle wa priv \<Longrightarrow> alone wa w (link_waiter wa w priv)"
  by (simp add: idle_def alone_def link_waiter_def)

lemma unlink_put_link:
  assumes "idle wa priv"
  shows "unlink_waiter wa (put_waiter wa (left_by b (link_waiter wa w priv)) v) = left_by b priv"
proof -
  have "(stack priv)(wa := None) = stack priv" using assms by (auto simp: idle_def)
  with assms show ?thesis
    unfolding idle_def unlink_waiter_def put_waiter_def link_waiter_def left_by_def detach_def
    by (intro HinawaFwFcp.equality) (auto simp: fun_eq_iff)
qed

text \<open>The arguments the checks accept.\<close>

definition avc_args_ok :: "u64 \<Rightarrow> u64 \<Rightarrow> bool" where
  "avc_args_ok cmd_size rsize \<longleftrightarrow> 2 < cmd_size \<and> cmd_size < ucast FCP_MAXIMUM_FRAME_BYTES \<and> 0 < rsize"

lemma avc_transaction_sent:
  assumes idle: "idle wa priv" and own: "list_all (\<lambda>wake. list_all own_action (fst wake)) wakes"
    and args: "avc_args_ok cmd_size rsize" and n: "node_at ns (fcp_node priv) = Some n"
    and w: "avc_waiter cm rs rsize = Ret w"
    and sent: "hinawa_fw_fcp_command_with_tstamp c K sch req priv ns (Some cm) cmd_size True (Err None) =
      Ret (True, ts, ns', p, io)"
  shows "hinawa_fw_fcp_avc_transaction_with_tstamp c K sch wakes req wa priv ns (Some cm) cmd_size
      (Some rs) (Some rsize) True (Err None) =
    bind_run (waiter_wait (br_generation (generation n)) rsize wakes w) (\<lambda>v.
      Ret (Some (conclude_avc (br_generation (generation n)) rsize ts
        (left_by (unbound_while (br_generation (generation n)) rsize wakes w) priv) ns' p io v)))"
proof -
  have node: "fcp_node (link_waiter wa w priv) = fcp_node priv" by (simp add: link_waiter_def)
  show ?thesis
    using args w sent n
    by (cases "waiter_wait (br_generation (generation n)) rsize wakes w")
       (simp_all add: hinawa_fw_fcp_avc_transaction_with_tstamp_def avc_args_ok_def node Let_def
         avc_wait_alone [OF alone_link [OF idle] own] unlink_put_link [OF idle])
qed

lemma avc_waiter_ok:
  assumes "3 \<le> length cm" and "3 \<le> length rs"
  shows "avc_waiter cm rs rsize =
    Ret \<lparr>fw_state = WAITER_STATE_PENDING, fw_generation = 0,
         fw_frame = 0xff # cm ! 1 # cm ! 2 # drop 3 rs, fw_frame_size = ucast rsize,
         fw_tstamp = G_MAXUINT\<rparr>"
proof -
  obtain a b d rs' where "rs = a # b # d # rs'"
    using assms(2) by (auto simp: numeral_3_eq_3 Suc_le_length_iff)
  with assms(1) show ?thesis
    by (simp add: avc_waiter_def run_simps numeral_2_eq_2)
qed

subsection \<open>The waiter and its buffer\<close>

text \<open>A response frame that is within the event buffer and within the caller's buffer.\<close>

definition response_fits :: "u64 \<Rightarrow> fcp_responded \<Rightarrow> bool" where
  "response_fits rsize s \<longleftrightarrow> 3 \<le> length (fr_frame s) \<and>
     unat (fr_frame_size s) \<le> length (fr_frame s) \<and> unat (fr_frame_size s) \<le> unat rsize"

primrec action_fits :: "u64 \<Rightarrow> fcp_action \<Rightarrow> bool" where
  "action_fits rsize (Responded s) = response_fits rsize s"
| "action_fits rsize (Handled s) = response_fits rsize s"
| "action_fits rsize Unbound = True"
| "action_fits rsize (Started a w) = False"
| "action_fits rsize (Finished a) = False"
| "action_fits rsize (Command_Failed a) = False"

definition avc_waiter_inv :: "bytes \<Rightarrow> u64 \<Rightarrow> fcp_waiter \<Rightarrow> bool" where
  "avc_waiter_inv rs rsize w \<longleftrightarrow> length (fw_frame w) = length rs \<and>
     unat (fw_frame_size w) \<le> unat rsize \<and> drop (max 3 (unat rsize)) (fw_frame w) =
       drop (max 3 (unat rsize)) rs"

lemma frames_match_ok:
  "3 \<le> length a \<Longrightarrow> 3 \<le> length b \<Longrightarrow>
   frames_match a b = Ret (a ! 1 = b ! 1 \<and> a ! 2 = b ! 2)"
  by (auto simp: frames_match_def read_at_def)

lemma respond_waiter_inv:
  assumes "avc_waiter_inv rs rsize w" and "response_fits rsize s" and "3 \<le> length rs"
    and "unat rsize \<le> length rs"
  shows "\<exists>w'. respond_waiter s w = Ret w' \<and> avc_waiter_inv rs rsize w'"
proof -
  let ?n = "unat (fr_frame_size s)"
  have m: "frames_match (fw_frame w) (fr_frame s) =
      Ret (fw_frame w ! 1 = fr_frame s ! 1 \<and> fw_frame w ! 2 = fr_frame s ! 2)"
    using assms by (intro frames_match_ok) (simp_all add: avc_waiter_inv_def response_fits_def)
  have c: "memcpy (fw_frame w) (fr_frame s) ?n =
      Ret (take ?n (fr_frame s) @ drop ?n (fw_frame w))"
    using assms by (intro memcpy_ok) (simp_all add: avc_waiter_inv_def response_fits_def)
  have "drop (max 3 (unat rsize)) (take ?n (fr_frame s) @ drop ?n (fw_frame w)) =
      drop (max 3 (unat rsize)) (fw_frame w)"
    using assms(2) by (simp add: response_fits_def max_def)
  with assms m c show ?thesis
    by (auto simp: respond_waiter_def avc_waiter_inv_def response_fits_def)
qed

lemma waiter_acts_inv:
  assumes "avc_waiter_inv rs rsize w" and "list_all (action_fits rsize) as" and "3 \<le> length rs"
    and "unat rsize \<le> length rs"
  shows "\<exists>w'. waiter_acts as w = Ret w' \<and> avc_waiter_inv rs rsize w'"
  using assms(1,2)
proof (induction as arbitrary: w)
  case Nil
  then show ?case by simp
next
  case (Cons a as)
  have "\<exists>w'. waiter_act a w = Ret w' \<and> avc_waiter_inv rs rsize w'"
  proof (cases a)
    case (Responded s)
    with Cons.prems respond_waiter_inv [OF _ _ assms(3,4)] show ?thesis by simp
  next
    case (Handled s)
    with Cons.prems respond_waiter_inv [OF _ _ assms(3,4)] show ?thesis by simp
  next
    case Unbound
    with Cons.prems show ?thesis by (simp add: abort_waiter_def avc_waiter_inv_def)
  qed (use Cons.prems in simp_all)
  with Cons show ?case by auto
qed

lemma await_again_inv:
  assumes "avc_waiter_inv rs rsize w" and "3 \<le> length rs"
  shows "\<exists>w'. await_again rsize w = Ret w' \<and> avc_waiter_inv rs rsize w'"
proof -
  have "write_at (fw_frame w) 0 0 = Ret ((fw_frame w)[0 := 0])"
    using assms by (intro write_at_ok) (auto simp: avc_waiter_inv_def)
  moreover have "unat (ucast rsize :: u32) \<le> unat rsize"
    by (simp add: unsigned_ucast_eq take_bit_eq_mod)
  ultimately show ?thesis
    using assms by (simp add: await_again_def avc_waiter_inv_def drop_update_cancel)
qed

lemma waiter_wait_inv:
  assumes "avc_waiter_inv rs rsize w"
    and "list_all (\<lambda>wake. list_all (action_fits rsize) (fst wake)) wakes"
    and "3 \<le> length rs" and "unat rsize \<le> length rs"
  shows "\<exists>w'. waiter_wait gen rsize wakes w = Ret w' \<and> avc_waiter_inv rs rsize w'"
  using assms(1,2)
proof (induction wakes arbitrary: w)
  case Nil
  then show ?case by simp
next
  case (Cons wake wakes)
  obtain v where v: "waiter_acts (fst wake) w = Ret v" "avc_waiter_inv rs rsize v"
    using waiter_acts_inv [OF Cons.prems(1) _ assms(3,4), of "fst wake"] Cons.prems(2) by auto
  have "0 < length (fw_frame v)" using v(2) assms(3) by (auto simp: avc_waiter_inv_def)
  then obtain again where again: "deferred gen v = Ret again"
    by (cases "deferred gen v") (auto simp: deferred_def read_at_def split: if_splits)
  obtain u where u: "await_again rsize v = Ret u" "avc_waiter_inv rs rsize u"
    using await_again_inv [OF v(2) assms(3)] by blast
  show ?case
    using v again u Cons.IH [of v] Cons.IH [of u] Cons.prems(2) by simp
qed

subsection \<open>Properties of AV/C transactions\<close>

lemma command_returns:
  assumes "errno_ok K" and "list_all signal_ok (deliveries sch)" and "unat cmd_size \<le> length cm"
    and "node_at ns (fcp_node priv) = Some n"
  obtains sent ts ns' p io where
    "hinawa_fw_fcp_command_with_tstamp c K sch req priv ns (Some cm) cmd_size True (Err None) =
     Ret (sent, ts, ns', p, io)"
proof -
  let ?t = "hinawa_fw_req_transaction_with_tstamp c K sch req (Some n)
    HINAWA_FW_TCODE_WRITE_BLOCK_REQUEST FCP_REQUEST_ADDR cmd_size (Some cm) (Some cmd_size) True (Err None)"
  obtain t where "?t = Ret (Some t)"
    using transaction_returns [OF assms(1-3)] by blast
  with assms(4) that show ?thesis
    by (cases "0 < cmd_size \<and> cmd_size < ucast FCP_MAXIMUM_FRAME_BYTES")
       (auto simp: hinawa_fw_fcp_command_with_tstamp_def)
qed

lemma avc_transaction_failed:
  assumes "avc_args_ok cmd_size rsize" and "avc_waiter cm rs rsize = Ret w"
    and "hinawa_fw_fcp_command_with_tstamp c K sch req priv ns (Some cm) cmd_size True (Err None) =
      Ret (False, ts, ns', p, io)"
  shows "hinawa_fw_fcp_avc_transaction_with_tstamp c K sch wakes req wa priv ns (Some cm) cmd_size
      (Some rs) (Some rsize) True (Err None) =
    Ret (Some \<lparr>av_ok = False, av_resp = fw_frame w, av_resp_size = rsize, av_tstamp = (ts, None),
      av_fcp = abandon_waiter wa (link_waiter wa w priv), av_nodes = ns', av_error = p, av_io = io\<rparr>)"
  using assms by (simp add: hinawa_fw_fcp_avc_transaction_with_tstamp_def avc_args_ok_def)

lemma action_fits_own: "action_fits rsize a \<Longrightarrow> own_action a"
  by (cases a) simp_all

lemma conclude_avc_sel:
  "av_resp (conclude_avc gen rsize ts self ns p io w) = fw_frame w"
  "av_resp_size (conclude_avc gen rsize ts self ns p io w) \<in> {rsize} \<union>
     (if rsize < ucast (fw_frame_size w) then {} else {ucast (fw_frame_size w)})"
  "av_fcp (conclude_avc gen rsize ts self ns p io w) = self"
  by (simp_all add: conclude_avc_def Let_def split: waiter_state.split)

text \<open>C9. Memory safety of an AV/C transaction that runs alone on a bound object: whatever the
  responses and whenever they arrive, and even if the object is unbound meanwhile, as long as each
  response frame is within its event and no larger than the declared size of the caller's buffer, and
  that buffer really has the declared size and at least three bytes, the call returns without a fault;
  it hands back at most the declared size, and writes nothing past the declared size when that is three
  or more. When one or two bytes are declared, it writes three.\<close>

lemma avc_memory_safe:
  assumes K: "errno_ok K" and sch: "list_all signal_ok (deliveries sch)"
    and fits: "list_all (\<lambda>wake. list_all (action_fits rsize) (fst wake)) wakes"
    and idle: "idle wa priv" and n: "node_at ns (fcp_node priv) = Some n"
    and args: "avc_args_ok cmd_size rsize" and cm: "unat cmd_size \<le> length cm"
    and rs: "3 \<le> length rs" "unat rsize \<le> length rs"
  shows "\<exists>r. hinawa_fw_fcp_avc_transaction_with_tstamp c K sch wakes req wa priv ns (Some cm) cmd_size
      (Some rs) (Some rsize) True (Err None) = Ret (Some r) \<and>
    length (av_resp r) = length rs \<and>
    drop (max 3 (unat rsize)) (av_resp r) = drop (max 3 (unat rsize)) rs \<and>
    av_resp_size r \<le> rsize"
proof -
  have own: "list_all (\<lambda>wake. list_all own_action (fst wake)) wakes"
    using fits by (auto simp: list_all_iff intro: action_fits_own)
  have "2 < unat cmd_size" using args by (simp add: avc_args_ok_def word_less_nat_alt)
  with cm have cm3: "3 \<le> length cm" by simp
  let ?w = "\<lparr>fw_state = WAITER_STATE_PENDING, fw_generation = 0,
    fw_frame = 0xff # cm ! 1 # cm ! 2 # drop 3 rs, fw_frame_size = ucast rsize, fw_tstamp = G_MAXUINT\<rparr>"
  note w = avc_waiter_ok [OF cm3 rs(1), of rsize]
  have inv: "avc_waiter_inv rs rsize ?w"
  proof -
    have "unat (ucast rsize :: u32) \<le> unat rsize" by (simp add: unsigned_ucast_eq take_bit_eq_mod)
    moreover have "drop (max 3 (unat rsize)) (0xff # cm ! 1 # cm ! 2 # drop 3 rs) =
        drop (max 3 (unat rsize)) rs"
    proof -
      have "max 3 (unat rsize) = Suc (Suc (Suc (max 3 (unat rsize) - 3)))"
        by arith
      then obtain m where "max 3 (unat rsize) = Suc (Suc (Suc m))" by blast
      then show ?thesis by (simp add: numeral_3_eq_3)
    qed
    ultimately show ?thesis using rs(1) by (simp add: avc_waiter_inv_def)
  qed
  obtain sent ts ns' p io where
    cmd: "hinawa_fw_fcp_command_with_tstamp c K sch req priv ns (Some cm) cmd_size True (Err None) =
      Ret (sent, ts, ns', p, io)"
    using command_returns [OF K sch cm n] by blast
  show ?thesis
  proof (cases sent)
    case False
    with cmd inv show ?thesis
      by (simp add: avc_transaction_failed [OF args w] avc_waiter_inv_def)
  next
    case True
    obtain w' where w': "waiter_wait (br_generation (generation n)) rsize wakes ?w = Ret w'"
      "avc_waiter_inv rs rsize w'"
      using waiter_wait_inv [OF inv fits rs] by blast
    have "rsize < ucast (fw_frame_size w') \<or> (ucast (fw_frame_size w') :: u64) \<le> rsize" by auto
    with w' show ?thesis
      using conclude_avc_sel [of "br_generation (generation n)" rsize ts
          "left_by (unbound_while (br_generation (generation n)) rsize wakes ?w) priv" ns' p io w'] cmd True
      by (auto simp: avc_transaction_sent [OF idle own args n w] avc_waiter_inv_def split: if_splits)
  qed
qed

text \<open>A response frame to the command \<open>cm\<close> in the generation \<open>gen\<close> that fits the caller's buffer, and one
  that belongs to another command.\<close>

definition responds :: "u32 \<Rightarrow> bytes \<Rightarrow> u64 \<Rightarrow> fcp_responded \<Rightarrow> bool" where
  "responds gen cm rsize s \<longleftrightarrow> fr_generation s = gen \<and> response_fits rsize s \<and> 0 < fr_frame_size s \<and>
     fr_frame s ! 1 = cm ! 1 \<and> fr_frame s ! 2 = cm ! 2"

definition unrelated :: "bytes \<Rightarrow> fcp_responded \<Rightarrow> bool" where
  "unrelated cm s \<longleftrightarrow> 3 \<le> length (fr_frame s) \<and>
     \<not> (fr_frame s ! 1 = cm ! 1 \<and> fr_frame s ! 2 = cm ! 2)"

definition interim :: "fcp_responded \<Rightarrow> bool" where
  "interim s \<longleftrightarrow> fr_frame s ! 0 = avc_status_code AVC_STATUS_INTERIM"

definition pending_for :: "bytes \<Rightarrow> bytes \<Rightarrow> u64 \<Rightarrow> fcp_waiter \<Rightarrow> bool" where
  "pending_for cm rs rsize w \<longleftrightarrow> fw_state w = WAITER_STATE_PENDING \<and> fw_frame_size w = ucast rsize \<and>
     length (fw_frame w) = length rs \<and> fw_frame w ! 1 = cm ! 1 \<and> fw_frame w ! 2 = cm ! 2"

definition answered :: "fcp_responded \<Rightarrow> fcp_waiter \<Rightarrow> fcp_waiter" where
  "answered s w =
     \<lparr>fw_state = WAITER_STATE_RESPONDED, fw_generation = fr_generation s,
      fw_frame = take (unat (fr_frame_size s)) (fr_frame s) @
        drop (unat (fr_frame_size s)) (fw_frame w),
      fw_frame_size = fr_frame_size s, fw_tstamp = fr_tstamp s\<rparr>"

text \<open>One wake-up: responses to other commands, then one to this one.\<close>

definition response_wake :: "fcp_responded list \<times> fcp_responded \<Rightarrow> fcp_action list \<times> bool" where
  "response_wake x = (map Responded (fst x) @ [Responded (snd x)], True)"

lemma unrelated_ignored:
  assumes "list_all (unrelated cm) ss" and "pending_for cm rs rsize w" and "3 \<le> length rs"
  shows "waiter_acts (map Responded ss @ as) w = waiter_acts as w"
  using assms(1)
proof (induction ss)
  case (Cons s ss)
  have "frames_match (fw_frame w) (fr_frame s) =
      Ret (fw_frame w ! 1 = fr_frame s ! 1 \<and> fw_frame w ! 2 = fr_frame s ! 2)"
    using assms(2,3) Cons.prems by (intro frames_match_ok) (simp_all add: pending_for_def unrelated_def)
  with Cons assms(2) show ?case
    by (auto simp: respond_waiter_def pending_for_def unrelated_def)
qed simp

lemma response_taken:
  assumes "responds gen cm rsize s" and "pending_for cm rs rsize w" and "3 \<le> length rs"
    and "unat rsize \<le> length rs" and "unat rsize < 2 ^ 32"
  shows "respond_waiter s w = Ret (answered s w)"
proof -
  have m: "frames_match (fw_frame w) (fr_frame s) = Ret True"
    using assms(1-3) by (subst frames_match_ok)
      (simp_all add: pending_for_def responds_def response_fits_def)
  have size: "unat (ucast rsize :: u32) = unat rsize"
    using assms(5) by (simp add: unsigned_ucast_eq take_bit_nat_eq_self)
  have le: "fr_frame_size s \<le> fw_frame_size w"
    using assms(1,2) size by (simp add: word_le_nat_alt pending_for_def responds_def response_fits_def)
  have "memcpy (fw_frame w) (fr_frame s) (unat (fr_frame_size s)) =
      Ret (take (unat (fr_frame_size s)) (fr_frame s) @ drop (unat (fr_frame_size s)) (fw_frame w))"
    using assms by (intro memcpy_ok) (auto simp: pending_for_def responds_def response_fits_def)
  with m le show ?thesis
    by (simp add: respond_waiter_def answered_def)
qed

lemma answered_frame:
  assumes "responds gen cm rsize s" and "pending_for cm rs rsize w" and "3 \<le> length rs"
    and "unat rsize \<le> length rs"
  shows "length (fw_frame (answered s w)) = length rs" "fw_frame (answered s w) ! 0 = fr_frame s ! 0"
    "fw_frame (answered s w) ! 1 = cm ! 1" "fw_frame (answered s w) ! 2 = cm ! 2"
proof -
  have size: "unat (fr_frame_size s) \<le> length rs" "unat (fr_frame_size s) \<le> length (fr_frame s)"
    using assms(1,4) by (auto simp: responds_def response_fits_def)
  have pos: "0 < unat (fr_frame_size s)"
    using assms(1) by (simp add: responds_def unat_gt_0 word_gt_0)
  show "length (fw_frame (answered s w)) = length rs"
    using size assms(2) by (simp add: answered_def pending_for_def)
  show "fw_frame (answered s w) ! 0 = fr_frame s ! 0"
    using size pos by (simp add: answered_def nth_append)
  show "fw_frame (answered s w) ! 1 = cm ! 1" "fw_frame (answered s w) ! 2 = cm ! 2"
    using size assms(1-3)
    by (auto simp: answered_def nth_append pending_for_def responds_def response_fits_def)
qed

lemma interim_defers:
  assumes "responds gen cm rsize s" and "interim s" and "pending_for cm rs rsize w"
    and "3 \<le> length rs" and "unat rsize \<le> length rs"
  shows "deferred gen (answered s w) = Ret True"
    and "\<exists>v. await_again rsize (answered s w) = Ret v \<and> pending_for cm rs rsize v"
proof -
  note fr = answered_frame [OF assms(1,3-5)]
  have len: "0 < length (fw_frame (answered s w))" using fr(1) assms(4) by linarith
  have "fw_state (answered s w) = WAITER_STATE_RESPONDED" "fw_generation (answered s w) = gen"
    using assms(1) by (simp_all add: answered_def responds_def)
  with fr(2) assms(2) len show "deferred gen (answered s w) = Ret True"
    by (simp add: deferred_def read_at_ok interim_def)
  show "\<exists>v. await_again rsize (answered s w) = Ret v \<and> pending_for cm rs rsize v"
    using fr len by (simp add: await_again_def write_at_ok pending_for_def)
qed

lemma final_not_deferred:
  assumes "responds gen cm rsize s" and "\<not> interim s" and "pending_for cm rs rsize w"
    and "3 \<le> length rs" and "unat rsize \<le> length rs"
  shows "deferred gen (answered s w) = Ret False"
proof -
  note fr = answered_frame [OF assms(1,3-5)]
  have "0 < length (fw_frame (answered s w))" using fr(1) assms(4) by linarith
  with fr(2) assms(2) show ?thesis by (simp add: deferred_def read_at_ok interim_def)
qed

lemma waiter_wait_interims:
  assumes rs: "3 \<le> length rs" "unat rsize \<le> length rs" "unat rsize < 2 ^ 32"
    and "pending_for cm rs rsize w"
    and "list_all (\<lambda>x. list_all (unrelated cm) (fst x) \<and> responds gen cm rsize (snd x) \<and>
      interim (snd x)) xs"
  shows "\<exists>w'. waiter_wait gen rsize (map response_wake xs @ wakes) w = waiter_wait gen rsize wakes w' \<and>
    unbound_while gen rsize (map response_wake xs @ wakes) w = unbound_while gen rsize wakes w' \<and>
    pending_for cm rs rsize w'"
  using assms(4,5)
proof (induction xs arbitrary: w)
  case Nil
  then show ?case by auto
next
  case (Cons x xs)
  then have x: "list_all (unrelated cm) (fst x)" "responds gen cm rsize (snd x)" "interim (snd x)"
    by simp_all
  have acts: "waiter_acts (fst (response_wake x)) w = Ret (answered (snd x) w)"
    using unrelated_ignored [OF x(1) Cons.prems(1) rs(1)] response_taken [OF x(2) Cons.prems(1) rs]
    by (simp add: response_wake_def)
  note d = interim_defers [OF x(2,3) Cons.prems(1) rs(1,2)]
  obtain v where v: "await_again rsize (answered (snd x) w) = Ret v" "pending_for cm rs rsize v"
    using d(2) by blast
  have "Unbound \<notin> set (fst (response_wake x))" by (auto simp: response_wake_def)
  with Cons.IH [OF v(2)] Cons.prems(2) acts d(1) v(1) show ?case by (simp add: answered_def)
qed

text \<open>An AV/C transaction that runs alone on a bound object, whose command succeeds, with a caller that
  runs after each response to its command: responses to other commands are ignored, any number of
  interim responses defers the transaction, and the first final response in the same generation ends
  it: the call returns true with the bytes, the size and the time stamp of that response, reports
  nothing, and leaves the object as it found it.\<close>

lemma avc_answered:
  assumes "idle wa priv" and "node_at ns (fcp_node priv) = Some n" and "avc_args_ok cmd_size rsize"
    and "3 \<le> length cm" and "3 \<le> length rs" and "unat rsize \<le> length rs" and "unat rsize < 2 ^ 32"
    and "hinawa_fw_fcp_command_with_tstamp c K sch req priv ns (Some cm) cmd_size True (Err None) =
      Ret (True, ts, ns', Err None, io)"
    and "list_all (\<lambda>x. list_all (unrelated cm) (fst x) \<and>
      responds (br_generation (generation n)) cm rsize (snd x) \<and> interim (snd x)) xs"
    and "list_all (unrelated cm) others"
    and "responds (br_generation (generation n)) cm rsize s" and "\<not> interim s"
    and "list_all (\<lambda>wake. list_all own_action (fst wake)) later"
  shows "\<exists>resp. hinawa_fw_fcp_avc_transaction_with_tstamp c K sch
      (map response_wake (xs @ [(others, s)]) @ later) req wa priv ns (Some cm) cmd_size
      (Some rs) (Some rsize) True (Err None) =
    Ret (Some \<lparr>av_ok = True, av_resp = resp, av_resp_size = ucast (fr_frame_size s),
      av_tstamp = (ts, Some (fr_tstamp s)), av_fcp = priv, av_nodes = ns', av_error = Err None,
      av_io = io\<rparr>) \<and>
    take (unat (fr_frame_size s)) resp = take (unat (fr_frame_size s)) (fr_frame s) \<and>
    length resp = length rs"
proof -
  let ?gen = "br_generation (generation n)"
  let ?wakes = "map response_wake (xs @ [(others, s)]) @ later"
  let ?w = "\<lparr>fw_state = WAITER_STATE_PENDING, fw_generation = 0,
    fw_frame = 0xff # cm ! 1 # cm ! 2 # drop 3 rs, fw_frame_size = ucast rsize, fw_tstamp = G_MAXUINT\<rparr>"
  note w = avc_waiter_ok [OF assms(4,5), of rsize]
  have "pending_for cm rs rsize ?w" using assms(5) by (simp add: pending_for_def)
  from waiter_wait_interims [OF assms(5-7) this assms(9), of "response_wake (others, s) # later"]
  obtain v where v: "waiter_wait ?gen rsize ?wakes ?w =
      waiter_wait ?gen rsize (response_wake (others, s) # later) v" "pending_for cm rs rsize v"
      "unbound_while ?gen rsize ?wakes ?w = unbound_while ?gen rsize (response_wake (others, s) # later) v"
    by auto
  note fr = answered_frame [OF assms(11) v(2) assms(5,6)]
  have "waiter_acts (fst (response_wake (others, s))) v = Ret (answered s v)"
    using unrelated_ignored [OF assms(10) v(2) assms(5)] response_taken [OF assms(11) v(2) assms(5-7)]
    by (simp add: response_wake_def)
  moreover have "deferred ?gen (answered s v) = Ret False"
    by (rule final_not_deferred [OF assms(11,12) v(2) assms(5,6)])
  moreover have "fw_state (answered s v) = WAITER_STATE_RESPONDED"
    by (simp add: answered_def)
  ultimately have wait: "waiter_wait ?gen rsize ?wakes ?w = Ret (answered s v)"
      "\<not> unbound_while ?gen rsize ?wakes ?w"
    using v(1,3) by (auto simp: response_wake_def)
  have own: "list_all (\<lambda>wake. list_all own_action (fst wake)) ?wakes"
    using assms(13) by (auto simp: list_all_iff response_wake_def)
  have size: "\<not> rsize < ucast (fr_frame_size s)" "fr_generation s = ?gen"
    "unat (fr_frame_size s) \<le> length (fr_frame s)"
    using assms(11) by (auto simp: responds_def response_fits_def word_less_nat_alt)
  show ?thesis
    unfolding avc_transaction_sent [OF assms(1) own assms(3,2) w assms(8)] wait(1)
    using wait(2) size fr(1) by (simp add: conclude_avc_def answered_def)
qed

lemma unbind_idle:
  assumes "idle wa priv"
  shows "\<exists>ns' io. hinawa_fw_fcp_unbind K priv ns = Ret (detach priv, ns', io)"
proof -
  have "bind_run (hinawa_fw_fcp_unbind K priv ns) (\<lambda>(self, ns, io). Ret self) = Ret (detach priv)"
    unfolding unbound_action [symmetric] using assms by (simp add: idle_def detach_def)
  then show ?thesis by (cases "hinawa_fw_fcp_unbind K priv ns") (auto split: prod.splits)
qed

text \<open>C37. An AV/C transaction that runs alone on a bound object, whose command succeeds but to which no
  response arrives until the deadline: the call returns false with a timeout and leaves the object
  as it found it. When the object is unbound meanwhile, the call ends at once, under the same code
  (\<open>HINAWA_FW_FCP_ERROR_ABORTED\<close> is not used for transactions that unbinding aborts), and leaves the
  object as \<open>hinawa_fw_fcp_unbind\<close> leaves it when no transaction runs.\<close>

lemma avc_unanswered:
  assumes "idle wa priv" and "node_at ns (fcp_node priv) = Some n" and "avc_args_ok cmd_size rsize"
    and "3 \<le> length cm" and "3 \<le> length rs"
    and "hinawa_fw_fcp_command_with_tstamp c K sch req priv ns (Some cm) cmd_size True (Err None) =
      Ret (True, ts, ns', Err None, io)"
    and "list_all (\<lambda>x. list_all (unrelated cm) x) xs" and "list_all (unrelated cm) others"
    and "final \<in> {[], [Unbound]}"
  shows "hinawa_fw_fcp_avc_transaction_with_tstamp c K sch
      (map (\<lambda>x. (map Responded x, True)) xs @ [(map Responded others @ final, woken)]) req wa priv ns
      (Some cm) cmd_size (Some rs) (Some rsize) True (Err None) =
    Ret (Some \<lparr>av_ok = False, av_resp = 0xff # cm ! 1 # cm ! 2 # drop 3 rs, av_resp_size = rsize,
      av_tstamp = (ts, None), av_fcp = (if final = [] then priv else detach priv), av_nodes = ns',
      av_error = Err (Some (fcp_local_error HINAWA_FW_FCP_ERROR_TIMEOUT)), av_io = io\<rparr>) \<and>
    (\<exists>ns'' io'. hinawa_fw_fcp_unbind K priv ns = Ret (detach priv, ns'', io'))"
proof -
  let ?gen = "br_generation (generation n)"
  let ?last = "(map Responded others @ final, woken)"
  let ?wakes = "map (\<lambda>x. (map Responded x, True)) xs @ [?last]"
  let ?w = "\<lparr>fw_state = WAITER_STATE_PENDING, fw_generation = 0,
    fw_frame = 0xff # cm ! 1 # cm ! 2 # drop 3 rs, fw_frame_size = ucast rsize, fw_tstamp = G_MAXUINT\<rparr>"
  note w = avc_waiter_ok [OF assms(4,5), of rsize]
  have pend: "pending_for cm rs rsize ?w" using assms(5) by (simp add: pending_for_def)
  have steps: "waiter_wait ?gen rsize ?wakes ?w = waiter_wait ?gen rsize [?last] ?w \<and>
      unbound_while ?gen rsize ?wakes ?w = unbound_while ?gen rsize [?last] ?w"
    using assms(7)
  proof (induction xs)
    case (Cons x xs)
    with unrelated_ignored [OF _ pend assms(5), of x "[]"] show ?case by auto
  qed simp
  have last: "waiter_wait ?gen rsize [?last] ?w = Ret (if final = [] then ?w else ?w\<lparr>fw_state := WAITER_STATE_ABORTED\<rparr>)"
    using assms(9) unrelated_ignored [OF assms(8) pend assms(5), of final]
    by (auto simp: abort_waiter_def deferred_def)
  have unbound: "unbound_while ?gen rsize [?last] ?w \<longleftrightarrow> final \<noteq> []"
    using assms(9) by (auto split: run.splits)
  have own: "list_all (\<lambda>wake. list_all own_action (fst wake)) ?wakes"
    using assms(9) by (auto simp: list_all_iff)
  show ?thesis
    unfolding avc_transaction_sent [OF assms(1) own assms(3,2) w assms(6)]
    using steps last unbound unbind_idle [OF assms(1)] assms(9) by (auto simp: conclude_avc_def)
qed

subsection \<open>Properties of commands\<close>

definition command_ioctl :: "fw_constants \<Rightarrow> obj_id \<Rightarrow> HinawaFwNode \<Rightarrow> bytes \<Rightarrow> u64 \<Rightarrow> fw_ioctl" where
  "command_ioctl c req n cm cmd_size =
     FW_CDEV_IOC_SEND_REQUEST
       \<lparr>sr_tcode = TCODE c HINAWA_FW_TCODE_WRITE_BLOCK_REQUEST, sr_length = ucast cmd_size,
        sr_offset = FCP_REQUEST_ADDR, sr_closure = req, sr_data = Some cm,
        sr_generation = br_generation (generation n)\<rparr>"

lemma command_request_length:
  "0 < cmd_size \<Longrightarrow> request_length HINAWA_FW_TCODE_WRITE_BLOCK_REQUEST FCP_REQUEST_ADDR cmd_size
     (Some cm) (Some cmd_size) (Err None) = Some cmd_size"
  by (simp add: request_length_def aligned_tcodes_def lock_tcodes_def read_write_tcodes_def)

lemma command_answered_eq:
  assumes c: "constants_ok c" and K: "errno_ok K" and n: "node_at ns (fcp_node priv) = Some n" "0 \<le> fd n"
    and accepted: "K (fd n) (command_ioctl c req n cm cmd_size) = Inr b"
    and s: "deliveries sch = [s]" "signal_ok s" "rp_rcode s = RCODE c r" "r \<noteq> HINAWA_FW_RCODE_INVALID"
    and cm: "0 < cmd_size" "cmd_size < 0x200" "unat cmd_size \<le> length cm"
  shows "hinawa_fw_fcp_command_with_tstamp c K sch req priv ns (Some cm) cmd_size True (Err None) =
    Ret (r = HINAWA_FW_RCODE_COMPLETE, Some (rp_request_tstamp s, rp_response_tstamp s),
      node_put (fcp_node priv) (Some (hinawa_fw_node_invalidate_transaction req
        (sch_node sch (register_transaction req n)))) ns,
      Err (if r = HINAWA_FW_RCODE_COMPLETE then None else Some (fw_req_error_literal (req_error_of_rcode r))),
      [command_ioctl c req n cm cmd_size])"
proof -
  have arg: "FW_CDEV_IOC_SEND_REQUEST (send_request_arg c req n HINAWA_FW_TCODE_WRITE_BLOCK_REQUEST
      FCP_REQUEST_ADDR cmd_size (Some cm)) = command_ioctl c req n cm cmd_size"
    by (simp add: send_request_arg_def command_ioctl_def)
  have "cmd_size < ucast FCP_MAXIMUM_FRAME_BYTES" using cm(2) by (simp add: FCP_MAXIMUM_FRAME_BYTES_def)
  then show ?thesis
    unfolding hinawa_fw_fcp_command_with_tstamp_def n(1)
    using cm(1) transaction_answered_eq [OF c K n(2) command_request_length [OF cm(1)]
        accepted [folded arg] s cm(3)]
    by (simp add: arg)
qed

text \<open>Sending an FCP command from a bound object, with an accepted request and a response before
  the deadline: exactly one ioctl is issued, a block write of exactly the command's bytes to the
  address of FCP requests in the generation the node has cached, and the call returns true exactly
  for completion, with the time stamps; the request is no longer outstanding on the node. A command
  of no bytes or of 512 bytes and more is refused with no effect.\<close>

lemma command_answered:
  assumes "constants_ok c" and "errno_ok K" and "node_at ns (fcp_node priv) = Some n" and "0 \<le> fd n"
    and "K (fd n) (command_ioctl c req n cm cmd_size) = Inr b"
    and "deliveries sch = [s]" and "signal_ok s" and "rp_rcode s = RCODE c r"
    and "r \<noteq> HINAWA_FW_RCODE_INVALID" and "unat cmd_size \<le> length cm"
  shows "hinawa_fw_fcp_command_with_tstamp c K sch req priv ns (Some cm) cmd_size True (Err None) =
    Ret (if 0 < cmd_size \<and> cmd_size < 0x200 then
        (r = HINAWA_FW_RCODE_COMPLETE, Some (rp_request_tstamp s, rp_response_tstamp s),
         node_put (fcp_node priv) (Some (hinawa_fw_node_invalidate_transaction req
           (sch_node sch (register_transaction req n)))) ns,
         Err (if r = HINAWA_FW_RCODE_COMPLETE then None else Some (fw_req_error_literal (req_error_of_rcode r))),
         [command_ioctl c req n cm cmd_size])
      else (False, None, ns, Err None, []))"
proof (cases "0 < cmd_size \<and> cmd_size < 0x200")
  case True
  with command_answered_eq [OF assms(1-9) _ _ assms(10)] show ?thesis by simp
next
  case False
  then show ?thesis
    by (auto simp: hinawa_fw_fcp_command_with_tstamp_def FCP_MAXIMUM_FRAME_BYTES_def)
qed

text \<open>Closed instances: an object bound to a node, a command and its responses.\<close>

definition sample_fcp :: HinawaFwFcp where
  "sample_fcp = hinawa_fw_fcp_init\<lparr>resp_node := Some 2, offset := FCP_RESPOND_ADDR, width := 0x200,
     resp_frame := Some (replicate 0x200 0), fcp_node := Some 2, fcp_card_id := 1,
     history := node_history_reset node_history_init\<rparr>"

definition sample_fcp_nodes :: nodes where
  "sample_fcp_nodes = [2 \<mapsto> sample_fcp_node]"

definition sample_command :: bytes where
  "sample_command = [0x01, 0xff, 0x19, 0x00]"

definition avc_frame :: "u8 \<Rightarrow> bytes \<Rightarrow> fcp_responded" where
  "avc_frame status rest = \<lparr>fr_generation = 6, fr_tstamp = 0x345, fr_frame = status # rest,
     fr_frame_size = word_of_nat (Suc (length rest))\<rparr>"

lemma sample_fcp_bound: "node_at sample_fcp_nodes (fcp_node sample_fcp) = Some sample_fcp_node"
  by (simp add: sample_fcp_def sample_fcp_nodes_def node_at_def)

lemma sample_fcp_idle: "idle 0x7f sample_fcp"
  by (simp add: idle_def sample_fcp_def hinawa_fw_fcp_init_def)

lemma sample_fcp_fd: "0 \<le> fd sample_fcp_node"
  by (simp add: sample_fcp_node_def)

lemma sample_ack:
  "deliveries (schedule_of [[sample_response 0 []]]) = [sample_response 0 []]"
  "signal_ok (sample_response 0 [])"
  "rp_rcode (sample_response 0 []) = RCODE numbered_constants HINAWA_FW_RCODE_COMPLETE"
  by (simp_all add: schedule_of_def deliveries_def sample_response_def signal_ok_def
      numbered_constants_def)

lemma sample_command_node:
  "node_put (fcp_node sample_fcp) (Some (hinawa_fw_node_invalidate_transaction 9
     (sch_node (schedule_of wakes) (register_transaction 9 sample_fcp_node)))) sample_fcp_nodes =
   sample_fcp_nodes"
  by (simp add: schedule_of_def register_transaction_def hinawa_fw_node_invalidate_transaction_def
      sample_fcp_node_def sample_fcp_nodes_def node_put_def sample_fcp_def hinawa_fw_node_init_def)

lemma sample_command_sent:
  "hinawa_fw_fcp_command_with_tstamp numbered_constants granting_kernel
     (schedule_of [[sample_response 0 []]]) 9 sample_fcp sample_fcp_nodes (Some sample_command) 4 True
     (Err None) =
   Ret (True, Some (0x1234, 0x1240), sample_fcp_nodes, Err None,
     [command_ioctl numbered_constants 9 sample_fcp_node sample_command 4])"
  using command_answered_eq [OF numbered_constants_ok errno_ok_granting sample_fcp_bound sample_fcp_fd _
      sample_ack, of 9 sample_command 4]
  by (simp add: granting_kernel_def sample_command_node sample_command_def)
     (simp add: sample_response_def)

lemma command_answered_witness:
  "hinawa_fw_fcp_command_with_tstamp numbered_constants granting_kernel
     (schedule_of [[sample_response 0 []]]) 9 sample_fcp sample_fcp_nodes (Some sample_command) 4 True
     (Err None) =
   Ret (True, Some (0x1234, 0x1240), sample_fcp_nodes, Err None,
     [command_ioctl numbered_constants 9 sample_fcp_node sample_command 4])"
  using command_answered [OF numbered_constants_ok errno_ok_granting sample_fcp_bound sample_fcp_fd _
      sample_ack, of 9 sample_command 4]
  by (simp add: granting_kernel_def sample_command_node sample_command_def)
     (simp add: sample_response_def)

lemma sample_avc_args: "avc_args_ok 4 8"
  by (simp add: avc_args_ok_def FCP_MAXIMUM_FRAME_BYTES_def)

lemma sample_generation: "br_generation (generation sample_fcp_node) = 6"
  by (simp add: sample_fcp_node_def)

lemma avc_answered_witness:
  "\<exists>resp. hinawa_fw_fcp_avc_transaction_with_tstamp numbered_constants granting_kernel
      (schedule_of [[sample_response 0 []]])
      (map response_wake ([([], avc_frame 0x0f [0xff, 0x19, 0x00])] @
        [([avc_frame 0x09 [0x60, 0x02]], avc_frame 0x0c [0xff, 0x19, 0x07])]) @ [])
      9 0x7f sample_fcp sample_fcp_nodes (Some sample_command) 4 (Some (replicate 8 0)) (Some 8)
      True (Err None) =
    Ret (Some \<lparr>av_ok = True, av_resp = resp, av_resp_size = 4,
      av_tstamp = (Some (0x1234, 0x1240), Some 0x345), av_fcp = sample_fcp,
      av_nodes = sample_fcp_nodes, av_error = Err None,
      av_io = [command_ioctl numbered_constants 9 sample_fcp_node sample_command 4]\<rparr>) \<and>
    take 4 resp = [0x0c, 0xff, 0x19, 0x07]"
proof -
  have r: "responds 6 sample_command 8 (avc_frame 0x0c [0xff, 0x19, 0x07])"
    "responds 6 sample_command 8 (avc_frame 0x0f [0xff, 0x19, 0x00])"
    "unrelated sample_command (avc_frame 0x09 [0x60, 0x02])"
    "interim (avc_frame 0x0f [0xff, 0x19, 0x00])" "\<not> interim (avc_frame 0x0c [0xff, 0x19, 0x07])"
    by (simp_all add: responds_def unrelated_def interim_def response_fits_def avc_frame_def
        sample_command_def)
  have "length (replicate 8 (0 :: u8)) = 8" by simp
  with avc_answered [OF sample_fcp_idle sample_fcp_bound sample_avc_args _ _ _ _ sample_command_sent,
      of "replicate 8 0" "[([], avc_frame 0x0f [0xff, 0x19, 0x00])]" "[avc_frame 0x09 [0x60, 0x02]]"
      "avc_frame 0x0c [0xff, 0x19, 0x07]" "[]"] r
  show ?thesis
    unfolding sample_generation by (simp add: sample_command_def) (auto simp: avc_frame_def)
qed

lemma avc_unanswered_witness:
  "hinawa_fw_fcp_avc_transaction_with_tstamp numbered_constants granting_kernel
      (schedule_of [[sample_response 0 []]])
      (map (\<lambda>x. (map Responded x, True)) [[], [avc_frame 0x09 [0x60, 0x02]]] @
        [(map Responded [] @ [Unbound], True)])
      9 0x7f sample_fcp sample_fcp_nodes (Some sample_command) 4 (Some (replicate 8 0)) (Some 8)
      True (Err None) =
    Ret (Some \<lparr>av_ok = False, av_resp = 0xff # sample_command ! 1 # sample_command ! 2 #
        drop 3 (replicate 8 0), av_resp_size = 8,
      av_tstamp = (Some (0x1234, 0x1240), None), av_fcp = detach sample_fcp,
      av_nodes = sample_fcp_nodes, av_error = Err (Some (fcp_local_error HINAWA_FW_FCP_ERROR_TIMEOUT)),
      av_io = [command_ioctl numbered_constants 9 sample_fcp_node sample_command 4]\<rparr>)"
proof -
  have "unrelated sample_command (avc_frame 0x09 [0x60, 0x02])"
    by (simp add: unrelated_def avc_frame_def sample_command_def)
  then have "list_all (\<lambda>x. list_all (unrelated sample_command) x) [[], [avc_frame 0x09 [0x60, 0x02]]]"
    by simp
  from avc_unanswered [OF sample_fcp_idle sample_fcp_bound sample_avc_args _ _ sample_command_sent this,
      of "replicate 8 0" "[]" "[Unbound]" True]
  show ?thesis by (simp add: sample_command_def)
qed

lemma avc_memory_safe_witness:
  "\<exists>r. hinawa_fw_fcp_avc_transaction_with_tstamp numbered_constants granting_kernel
      (schedule_of [[sample_response 0 []]])
      [([Responded (avc_frame 0x0f [0xff, 0x19]), Unbound, Responded (avc_frame 0x0c [0xff, 0x19, 0x07])],
        True)] 9 0x7f sample_fcp sample_fcp_nodes (Some sample_command) 4 (Some (replicate 8 0)) (Some 8)
      True (Err None) = Ret (Some r) \<and> length (av_resp r) = length (replicate 8 (0 :: u8))"
proof -
  have d: "list_all signal_ok (deliveries (schedule_of [[sample_response 0 []]]))"
    using sample_ack by simp
  have f: "list_all (\<lambda>wake. list_all (action_fits 8) (fst wake))
      [([Responded (avc_frame 0x0f [0xff, 0x19]), Unbound, Responded (avc_frame 0x0c [0xff, 0x19, 0x07])],
        True)]"
    by (simp add: response_fits_def avc_frame_def)
  have "unat (4 :: u64) \<le> length sample_command" by (simp add: sample_command_def)
  from avc_memory_safe [OF errno_ok_granting d f sample_fcp_idle sample_fcp_bound sample_avc_args this,
      of "replicate 8 0" numbered_constants 9]
  show ?thesis by auto
qed

subsection \<open>AV/C transactions that go wrong\<close>

text \<open>C38. When the command of an AV/C transaction fails, the call returns false but leaves the address
  of its waiter, on a stack frame that is gone, in the object's list: the next unbinding, or the
  next response during another AV/C transaction, follows the dangling pointer.\<close>

lemma avc_command_failure_dangles:
  assumes "idle wa priv" and "avc_args_ok cmd_size rsize" and "3 \<le> length cm" and "3 \<le> length rs"
    and "hinawa_fw_fcp_command_with_tstamp c K sch req priv ns (Some cm) cmd_size True (Err None) =
      Ret (False, ts, ns', p, io)"
  shows "\<exists>r. hinawa_fw_fcp_avc_transaction_with_tstamp c K sch wakes req wa priv ns (Some cm) cmd_size
      (Some rs) (Some rsize) True (Err None) = Ret (Some r) \<and> \<not> av_ok r \<and> av_error r = p \<and>
    fcp_transactions (av_fcp r) = [wa] \<and> stack (av_fcp r) wa = None \<and>
    (\<forall>K ns. hinawa_fw_fcp_unbind K (av_fcp r) ns = Fault Dangling) \<and>
    (\<forall>a v v' s. a \<noteq> wa \<longrightarrow> respond_waiter s v = Ret v' \<longrightarrow>
       fcp_acts [Started a v, Responded s] (av_fcp r) = Fault Dangling)"
proof -
  obtain w where w: "avc_waiter cm rs rsize = Ret w"
    using avc_waiter_ok [OF assms(3,4)] by blast
  let ?f = "abandon_waiter wa (link_waiter wa w priv)"
  have f: "fcp_transactions ?f = [wa]" "stack ?f wa = None" "responded_handlers ?f = 0"
    using assms(1) by (simp_all add: idle_def abandon_waiter_def link_waiter_def)
  have rel: "fcp_transactions (fst (hinawa_fw_resp_release K ?f ns)) = [wa] \<and>
      stack (fst (hinawa_fw_resp_release K ?f ns)) wa = None" for K ns
    using f(1,2) by (auto simp: hinawa_fw_resp_release_def ioctl_at_def split: prod.split)
  then have unbind: "hinawa_fw_fcp_unbind K ?f ns = Fault Dangling" for K ns
    using f(1,2) rel [of K ns]
    by (cases "hinawa_fw_resp_release K ?f ns") (simp add: hinawa_fw_fcp_unbind_def)
  have "fcp_acts [Started a v, Responded s] ?f = Fault Dangling"
    if "a \<noteq> wa" "respond_waiter s v = Ret v'" for a v v' s
    using that f by (simp add: emit_responded_def handle_responded_signal_def link_waiter_def [of a])
  with unbind f show ?thesis
    unfolding avc_transaction_failed [OF assms(2) w assms(5)] by simp
qed

lemma avc_command_failure_dangles_witness:
  "\<exists>r. hinawa_fw_fcp_avc_transaction_with_tstamp numbered_constants granting_kernel (schedule_of []) []
      9 0x7f hinawa_fw_fcp_init sample_fcp_nodes (Some sample_command) 4 (Some (replicate 8 0)) (Some 8)
      True (Err None) = Ret (Some r) \<and>
    hinawa_fw_fcp_unbind granting_kernel (av_fcp r) sample_fcp_nodes = Fault Dangling"
proof -
  have "hinawa_fw_fcp_command_with_tstamp numbered_constants granting_kernel (schedule_of []) 9
      hinawa_fw_fcp_init sample_fcp_nodes (Some sample_command) 4 True (Err None) =
      Ret (False, None, sample_fcp_nodes, Err None, [])"
    by (simp add: hinawa_fw_fcp_command_with_tstamp_def hinawa_fw_req_transaction_with_tstamp_def
        node_at_def hinawa_fw_fcp_init_def FCP_MAXIMUM_FRAME_BYTES_def)
  moreover have "idle 0x7f hinawa_fw_fcp_init" by (simp add: idle_def hinawa_fw_fcp_init_def)
  moreover have "3 \<le> length sample_command" "3 \<le> length (replicate 8 (0 :: u8))"
    by (simp_all add: sample_command_def)
  ultimately show ?thesis
    using avc_command_failure_dangles [OF _ sample_avc_args, of "0x7f" hinawa_fw_fcp_init sample_command
        "replicate 8 0" numbered_constants granting_kernel "schedule_of []" 9 sample_fcp_nodes None
        sample_fcp_nodes "Err None" "[]" "[]"]
    by blast
qed

text \<open>A response larger than the caller's buffer is reported as such and not copied. But the
  handler also stores the large size as the size of the buffer, so when a second matching response,
  at most as large, arrives before the caller wakes up, it is copied past the end of the buffer.\<close>

lemma avc_large_responses:
  assumes "idle wa priv" and "node_at ns (fcp_node priv) = Some n" and "avc_args_ok cmd_size rsize"
    and "3 \<le> length cm" and "3 \<le> length rs" and "unat rsize = length rs"
    and "hinawa_fw_fcp_command_with_tstamp c K sch req priv ns (Some cm) cmd_size True (Err None) =
      Ret (True, ts, ns', Err None, io)"
    and "\<And>s. s \<in> {s1, s2} \<Longrightarrow> fr_frame s ! 1 = cm ! 1 \<and> fr_frame s ! 2 = cm ! 2 \<and>
      unat (fr_frame_size s) \<le> length (fr_frame s) \<and> unat rsize < unat (fr_frame_size s)"
    and "fr_frame_size s2 \<le> fr_frame_size s1" and "fr_generation s1 = br_generation (generation n)"
  shows "hinawa_fw_fcp_avc_transaction_with_tstamp c K sch [([Responded s1], True)] req wa priv ns
      (Some cm) cmd_size (Some rs) (Some rsize) True (Err None) =
    Ret (Some \<lparr>av_ok = False, av_resp = 0xff # cm ! 1 # cm ! 2 # drop 3 rs, av_resp_size = rsize,
      av_tstamp = (ts, None), av_fcp = priv, av_nodes = ns',
      av_error = Err (Some (fcp_local_error HINAWA_FW_FCP_ERROR_LARGE_RESP)), av_io = io\<rparr>) \<and>
    hinawa_fw_fcp_avc_transaction_with_tstamp c K sch [([Responded s1, Responded s2], True)] req wa priv
      ns (Some cm) cmd_size (Some rs) (Some rsize) True (Err None) = Fault Out_Of_Bounds"
proof -
  let ?fr = "0xff # cm ! 1 # cm ! 2 # drop 3 rs"
  let ?w = "\<lparr>fw_state = WAITER_STATE_PENDING, fw_generation = 0, fw_frame = ?fr,
    fw_frame_size = ucast rsize, fw_tstamp = G_MAXUINT\<rparr>"
  let ?v = "\<lparr>fw_state = WAITER_STATE_RESPONDED, fw_generation = fr_generation s1, fw_frame = ?fr,
    fw_frame_size = fr_frame_size s1, fw_tstamp = fr_tstamp s1\<rparr>"
  note w = avc_waiter_ok [OF assms(4,5), of rsize]
  have s1: "fr_frame s1 ! 1 = cm ! 1" "fr_frame s1 ! 2 = cm ! 2" "unat rsize < unat (fr_frame_size s1)"
    "unat (fr_frame_size s1) \<le> length (fr_frame s1)"
    and s2: "fr_frame s2 ! 1 = cm ! 1" "fr_frame s2 ! 2 = cm ! 2" "unat rsize < unat (fr_frame_size s2)"
    "unat (fr_frame_size s2) \<le> length (fr_frame s2)"
    using assms(8) by auto
  have "unat (ucast rsize :: u32) \<le> unat rsize" by (simp add: unsigned_ucast_eq take_bit_eq_mod)
  then have big: "\<not> fr_frame_size s1 \<le> ucast rsize"
    using s1(3) by (simp add: word_le_nat_alt)
  have "3 \<le> length (fr_frame s1)" "3 \<le> length (fr_frame s2)" "3 \<le> length ?fr"
    using s1(3,4) s2(3,4) assms(5,6) by simp_all
  then have m: "frames_match ?fr (fr_frame s1) = Ret True" "frames_match ?fr (fr_frame s2) = Ret True"
    using s1 s2 by (simp_all add: frames_match_ok)
  have r1: "respond_waiter s1 ?w = Ret ?v"
    using m(1) big by (simp add: respond_waiter_def)
  have "memcpy ?fr (fr_frame s2) (unat (fr_frame_size s2)) = Fault Out_Of_Bounds"
  proof -
    have "length ?fr = length rs" using assms(5) by simp
    then have "length ?fr < unat (fr_frame_size s2)" using s2(3) assms(6) by linarith
    then show ?thesis unfolding memcpy_def by (auto simp only: not_le [symmetric] simp_thms if_False)
  qed
  then have r2: "respond_waiter s2 ?v = Fault Out_Of_Bounds"
    using m(2) assms(9) by (simp add: respond_waiter_def)
  have own: "list_all (\<lambda>wake. list_all own_action (fst wake)) [([Responded s1], True)]"
    "list_all (\<lambda>wake. list_all own_action (fst wake)) [([Responded s1, Responded s2], True)]"
    by simp_all
  have bound: "\<not> unbound_while gen rsize [([Responded s1], True)] ?w" for gen
    by (rule never_unbound) simp
  have large: "rsize < ucast (fr_frame_size s1)" using s1(3) by (simp add: word_less_nat_alt)
  show ?thesis
    unfolding avc_transaction_sent [OF assms(1) own(1) assms(3,2) w assms(7)]
      avc_transaction_sent [OF assms(1) own(2) assms(3,2) w assms(7)]
    using r1 r2 large assms(10) bound
    by (simp add: deferred_def read_at_def conclude_avc_def del: unbound_while.simps)
qed

lemma avc_large_responses_witness:
  "hinawa_fw_fcp_avc_transaction_with_tstamp numbered_constants granting_kernel
      (schedule_of [[sample_response 0 []]])
      [([Responded (avc_frame 0x0c [0xff, 0x19, 0x07]), Responded (avc_frame 0x0c [0xff, 0x19, 0x07])],
        True)] 9 0x7f sample_fcp sample_fcp_nodes (Some sample_command) 4 (Some [0, 0, 0]) (Some 3)
      True (Err None) = Fault Out_Of_Bounds"
proof -
  let ?s = "avc_frame 0x0c [0xff, 0x19, 0x07]"
  have s: "fr_frame ?s ! 1 = sample_command ! 1 \<and> fr_frame ?s ! 2 = sample_command ! 2 \<and>
      unat (fr_frame_size ?s) \<le> length (fr_frame ?s) \<and> unat (3 :: u64) < unat (fr_frame_size ?s)"
    by (simp add: avc_frame_def sample_command_def)
  have "avc_args_ok 4 3" by (simp add: avc_args_ok_def FCP_MAXIMUM_FRAME_BYTES_def)
  moreover have "fr_generation ?s = br_generation (generation sample_fcp_node)"
    by (simp add: avc_frame_def sample_fcp_node_def)
  moreover have "3 \<le> length sample_command" by (simp add: sample_command_def)
  ultimately show ?thesis
    using avc_large_responses [OF sample_fcp_idle sample_fcp_bound _ _ _ _ sample_command_sent,
        of 3 "[0, 0, 0]" ?s ?s] s
    by simp
qed

text \<open>A second response to the command that is larger than the first one, handled before the caller runs: its
  size is stored, its bytes are not.\<close>

lemma larger_response_ignored:
  assumes s: "responds gen cm rsize s1" "responds gen cm rsize s2" "fr_frame_size s1 < fr_frame_size s2"
    and w: "pending_for cm rs rsize w" and rs: "3 \<le> length rs" "unat rsize \<le> length rs"
  shows "respond_waiter s2 (answered s1 w) =
    Ret ((answered s1 w)\<lparr>fw_frame_size := fr_frame_size s2, fw_tstamp := fr_tstamp s2\<rparr>)"
proof -
  note fr = answered_frame [OF s(1) w rs]
  have "frames_match (fw_frame (answered s1 w)) (fr_frame s2) = Ret True"
    using fr s(2) rs(1) by (subst frames_match_ok) (simp_all add: responds_def response_fits_def)
  moreover have "fr_generation s2 = fr_generation s1" using s(1,2) by (simp add: responds_def)
  moreover have "\<not> fr_frame_size s2 \<le> fw_frame_size (answered s1 w)" using s(3) by (simp add: answered_def)
  ultimately show ?thesis by (simp add: respond_waiter_def) (simp add: answered_def)
qed

text \<open>C26. A final response that arrives right after an interim one and is larger is lost: when both are
  handled before the caller of the AV/C transaction runs again, the handler does not copy the second
  one, since it compares its size with that of the first, so the caller finds the interim response,
  waits again, and ends with a timeout. With the same two responses, and the caller running in
  between, the transaction succeeds with the final response.\<close>

lemma avc_overtaken_response_lost:
  assumes "idle wa priv" and "node_at ns (fcp_node priv) = Some n" and "avc_args_ok cmd_size rsize"
    and "3 \<le> length cm" and "3 \<le> length rs" and "unat rsize \<le> length rs" and "unat rsize < 2 ^ 32"
    and "hinawa_fw_fcp_command_with_tstamp c K sch req priv ns (Some cm) cmd_size True (Err None) =
      Ret (True, ts, ns', Err None, io)"
    and "responds (br_generation (generation n)) cm rsize s1" and "interim s1"
    and "responds (br_generation (generation n)) cm rsize s2" and "\<not> interim s2"
    and "fr_frame_size s1 < fr_frame_size s2"
  shows "\<exists>resp resp'.
    hinawa_fw_fcp_avc_transaction_with_tstamp c K sch [([Responded s1, Responded s2], True)] req wa priv ns
      (Some cm) cmd_size (Some rs) (Some rsize) True (Err None) =
    Ret (Some \<lparr>av_ok = False, av_resp = resp, av_resp_size = rsize, av_tstamp = (ts, None), av_fcp = priv,
      av_nodes = ns', av_error = Err (Some (fcp_local_error HINAWA_FW_FCP_ERROR_TIMEOUT)), av_io = io\<rparr>) \<and>
    hinawa_fw_fcp_avc_transaction_with_tstamp c K sch [([Responded s1], True), ([Responded s2], True)] req wa
      priv ns (Some cm) cmd_size (Some rs) (Some rsize) True (Err None) =
    Ret (Some \<lparr>av_ok = True, av_resp = resp', av_resp_size = ucast (fr_frame_size s2),
      av_tstamp = (ts, Some (fr_tstamp s2)), av_fcp = priv, av_nodes = ns', av_error = Err None,
      av_io = io\<rparr>) \<and>
    take (unat (fr_frame_size s2)) resp' = take (unat (fr_frame_size s2)) (fr_frame s2)"
proof -
  let ?gen = "br_generation (generation n)"
  let ?w = "\<lparr>fw_state = WAITER_STATE_PENDING, fw_generation = 0,
    fw_frame = 0xff # cm ! 1 # cm ! 2 # drop 3 rs, fw_frame_size = ucast rsize, fw_tstamp = G_MAXUINT\<rparr>"
  let ?v = "(answered s1 ?w)\<lparr>fw_frame_size := fr_frame_size s2, fw_tstamp := fr_tstamp s2\<rparr>"
  let ?wakes = "[([Responded s1, Responded s2], True)]"
  have pend: "pending_for cm rs rsize ?w" using assms(5) by (simp add: pending_for_def)
  have acts: "waiter_acts [Responded s1, Responded s2] ?w = Ret ?v"
    using response_taken [OF assms(9) pend assms(5-7)]
      larger_response_ignored [OF assms(9,11,13) pend assms(5,6)] by simp
  note d = interim_defers [OF assms(9,10) pend assms(5,6)]
  obtain u where u: "await_again rsize ?v = Ret u" "fw_state u = WAITER_STATE_PENDING"
    using d(2) by (auto simp: await_again_def pending_for_def run_simps)
  have "deferred ?gen ?v = deferred ?gen (answered s1 ?w)" unfolding deferred_def by simp
  with d(1) acts u have wait: "waiter_wait ?gen rsize ?wakes ?w = Ret u" by (simp add: answered_def)
  have bound: "\<not> unbound_while ?gen rsize ?wakes ?w" by (rule never_unbound) simp
  have own: "list_all (\<lambda>wake. list_all own_action (fst wake)) ?wakes" by simp
  have "hinawa_fw_fcp_avc_transaction_with_tstamp c K sch ?wakes req wa priv ns
      (Some cm) cmd_size (Some rs) (Some rsize) True (Err None) =
    Ret (Some \<lparr>av_ok = False, av_resp = fw_frame u, av_resp_size = rsize, av_tstamp = (ts, None), av_fcp = priv,
      av_nodes = ns', av_error = Err (Some (fcp_local_error HINAWA_FW_FCP_ERROR_TIMEOUT)), av_io = io\<rparr>)"
    unfolding avc_transaction_sent [OF assms(1) own assms(3,2) avc_waiter_ok [OF assms(4,5)] assms(8)] wait
    using u(2) bound by (simp add: conclude_avc_def del: unbound_while.simps)
  moreover have "list_all (\<lambda>x. list_all (unrelated cm) (fst x) \<and> responds ?gen cm rsize (snd x) \<and>
      interim (snd x)) [([], s1)]" using assms(9,10) by simp
  from avc_answered [OF assms(1-8) this _ assms(11,12), of "[]" "[]"] obtain resp' where
    "hinawa_fw_fcp_avc_transaction_with_tstamp c K sch [([Responded s1], True), ([Responded s2], True)] req wa
      priv ns (Some cm) cmd_size (Some rs) (Some rsize) True (Err None) =
    Ret (Some \<lparr>av_ok = True, av_resp = resp', av_resp_size = ucast (fr_frame_size s2),
      av_tstamp = (ts, Some (fr_tstamp s2)), av_fcp = priv, av_nodes = ns', av_error = Err None,
      av_io = io\<rparr>)" "take (unat (fr_frame_size s2)) resp' = take (unat (fr_frame_size s2)) (fr_frame s2)"
    by (auto simp: response_wake_def)
  ultimately show ?thesis by blast
qed

lemma avc_overtaken_response_lost_witness:
  "\<exists>resp. hinawa_fw_fcp_avc_transaction_with_tstamp numbered_constants granting_kernel
      (schedule_of [[sample_response 0 []]])
      [([Responded (avc_frame 0x0f [0xff, 0x19, 0x00]), Responded (avc_frame 0x0c [0xff, 0x19, 0x07, 0x01])],
        True)] 9 0x7f sample_fcp sample_fcp_nodes (Some sample_command) 4 (Some (replicate 8 0)) (Some 8)
      True (Err None) =
    Ret (Some \<lparr>av_ok = False, av_resp = resp, av_resp_size = 8,
      av_tstamp = (Some (0x1234, 0x1240), None), av_fcp = sample_fcp, av_nodes = sample_fcp_nodes,
      av_error = Err (Some (fcp_local_error HINAWA_FW_FCP_ERROR_TIMEOUT)),
      av_io = [command_ioctl numbered_constants 9 sample_fcp_node sample_command 4]\<rparr>)"
proof -
  let ?s1 = "avc_frame 0x0f [0xff, 0x19, 0x00]" and ?s2 = "avc_frame 0x0c [0xff, 0x19, 0x07, 0x01]"
  have r: "responds 6 sample_command 8 ?s1" "interim ?s1" "responds 6 sample_command 8 ?s2" "\<not> interim ?s2"
    "fr_frame_size ?s1 < fr_frame_size ?s2"
    by (simp_all add: responds_def interim_def response_fits_def avc_frame_def sample_command_def)
  have "3 \<le> length sample_command" "3 \<le> length (replicate 8 (0 :: u8))"
    "unat (8 :: u64) \<le> length (replicate 8 (0 :: u8))" "unat (8 :: u64) < 2 ^ 32"
    by (simp_all add: sample_command_def)
  from avc_overtaken_response_lost [OF sample_fcp_idle sample_fcp_bound sample_avc_args this sample_command_sent,
      unfolded sample_generation, OF r]
  show ?thesis by blast
qed

text \<open>The argument checks accept a response buffer of one or two bytes although the call stores
  three bytes into it before the command is sent: it then writes past the end of the buffer.\<close>

lemma avc_short_buffer_overflow:
  assumes "avc_args_ok cmd_size rsize" and "3 \<le> length cm" and "length rs < 3"
  shows "hinawa_fw_fcp_avc_transaction_with_tstamp c K sch wakes req wa priv ns (Some cm) cmd_size
      (Some rs) (Some rsize) True (Err None) = Fault Out_Of_Bounds"
proof -
  have "avc_waiter cm rs rsize = Fault Out_Of_Bounds"
    using assms(2,3) by (auto simp: avc_waiter_def write_at_def read_at_def)
  with assms(1) show ?thesis
    by (simp add: hinawa_fw_fcp_avc_transaction_with_tstamp_def avc_args_ok_def)
qed

end
