(* ===== verification/C_Layout.thy ===== *)
theory C_Layout
  imports Config_Rom
begin

unbundle bit_operations_syntax

text \<open>
  The memory layout of C structures of 32-bit and 64-bit integers, as the structures of
  \<open>include/linux/firewire-cdev.h\<close> are: the offset of each member, the size of the structure, and how a
  member is stored to and loaded from a buffer of bytes.

  Two things depend on the platform (the record \<open>abi\<close>): the byte order, and the alignment of a 64-bit
  integer inside a structure, which is 4 in the System V ABI for i386 and 8 elsewhere.
\<close>

section \<open>Scalars\<close>

definition be_bytes64 :: "u64 \<Rightarrow> bytes" where
  "be_bytes64 w = be_bytes (ucast (drop_bit 32 w)) @ be_bytes (ucast w)"

definition of_be_bytes64 :: "bytes \<Rightarrow> u64" where
  "of_be_bytes64 bs =
     push_bit 32 (ucast (of_be_bytes (take 4 bs))) OR ucast (of_be_bytes (drop 4 bs))"

definition host_bytes64 :: "bool \<Rightarrow> u64 \<Rightarrow> bytes" where
  "host_bytes64 le w = (if le then rev (be_bytes64 w) else be_bytes64 w)"

definition of_host_bytes64 :: "bool \<Rightarrow> bytes \<Rightarrow> u64" where
  "of_host_bytes64 le bs = of_be_bytes64 (if le then rev bs else bs)"

text \<open>Loading a scalar of \<open>n\<close> bytes at an offset of a buffer, faulting outside it.\<close>

definition load_at :: "nat \<Rightarrow> (bytes \<Rightarrow> 'a) \<Rightarrow> bytes \<Rightarrow> nat \<Rightarrow> 'a run" where
  "load_at n load buf off =
     (if off + n \<le> length buf then Ret (load (take n (drop off buf))) else Fault Out_Of_Bounds)"

text \<open>The contract of a scalar: its representation has a fixed width, and loading it gives it back.\<close>

locale wire_scalar =
  fixes store :: "'a \<Rightarrow> bytes" and load :: "bytes \<Rightarrow> 'a" and width :: nat
  assumes store_width: "length (store v) = width"
    and load_store: "load (store v) = v"
begin

lemma load_at_stored:
  assumes "buf = a @ store v @ b"
  shows "load_at width load buf (length a) = Ret v"
  using assms by (simp add: load_at_def store_width load_store)

lemma store_inj: "store v @ b = store w @ c \<Longrightarrow> v = w \<and> b = c"
  by (metis append_eq_append_conv load_store store_width)

end

lemma of_be_bytes64_be_bytes64 [simp]: "of_be_bytes64 (be_bytes64 w) = w"
proof (rule bit_word_eqI)
  fix n assume "n < LENGTH(64)"
  then consider "n < 32" | "32 \<le> n" "n < 64" by fastforce
  then show "bit (of_be_bytes64 (be_bytes64 w)) n \<longleftrightarrow> bit w n"
    by cases (auto simp: of_be_bytes64_def be_bytes64_def bit_simps)
qed

interpretation wire32: wire_scalar "host_bytes le" "of_host_bytes le" 4 for le
  by unfold_locales simp_all

interpretation wire64: wire_scalar "host_bytes64 le" "of_host_bytes64 le" 8 for le
  by unfold_locales (simp_all add: host_bytes64_def of_host_bytes64_def, simp_all add: be_bytes64_def)

section \<open>Structures\<close>

datatype ctype = U32 | S32 | U64 | S64 | U32_array nat | U32_flexible

type_synonym struct = "(string \<times> ctype) list"

record abi =
  little_endian :: bool
  u64_align :: nat

definition abi_ok :: "abi \<Rightarrow> bool" where
  "abi_ok abi \<longleftrightarrow> u64_align abi = 4 \<or> u64_align abi = 8"

fun type_size :: "ctype \<Rightarrow> nat" where
  "type_size U32 = 4"
| "type_size S32 = 4"
| "type_size U64 = 8"
| "type_size S64 = 8"
| "type_size (U32_array n) = 4 * n"
| "type_size U32_flexible = 0"

fun type_align :: "nat \<Rightarrow> ctype \<Rightarrow> nat" where
  "type_align al U64 = al"
| "type_align al S64 = al"
| "type_align al _ = 4"

definition align_up :: "nat \<Rightarrow> nat \<Rightarrow> nat" where
  "align_up a n = (n + a - 1) div a * a"

text \<open>The members of a structure that starts at \<open>pos\<close>, with their offsets, and the position after the
  last one.\<close>

fun layout_from :: "nat \<Rightarrow> nat \<Rightarrow> struct \<Rightarrow> (string \<times> nat) list" where
  "layout_from al pos [] = []"
| "layout_from al pos ((m, t) # ms) =
     (let p = align_up (type_align al t) pos in (m, p) # layout_from al (p + type_size t) ms)"

fun end_from :: "nat \<Rightarrow> nat \<Rightarrow> struct \<Rightarrow> nat" where
  "end_from al pos [] = pos"
| "end_from al pos ((m, t) # ms) = end_from al (align_up (type_align al t) pos + type_size t) ms"

definition offset_of :: "nat \<Rightarrow> struct \<Rightarrow> string \<Rightarrow> nat option" where
  "offset_of al s m = map_of (layout_from al 0 s) m"

definition struct_align :: "nat \<Rightarrow> struct \<Rightarrow> nat" where
  "struct_align al s = foldr (\<lambda>(m, t). max (type_align al t)) s 1"

definition sizeof :: "nat \<Rightarrow> struct \<Rightarrow> nat" where
  "sizeof al s = align_up (struct_align al s) (end_from al 0 s)"

section \<open>Loading members\<close>

definition member32 :: "abi \<Rightarrow> struct \<Rightarrow> bytes \<Rightarrow> string \<Rightarrow> u32 run" where
  "member32 abi s buf m =
     (case offset_of (u64_align abi) s m of
        None \<Rightarrow> Fault Out_Of_Bounds
      | Some off \<Rightarrow> load_at 4 (of_host_bytes (little_endian abi)) buf off)"

definition member64 :: "abi \<Rightarrow> struct \<Rightarrow> bytes \<Rightarrow> string \<Rightarrow> u64 run" where
  "member64 abi s buf m =
     (case offset_of (u64_align abi) s m of
        None \<Rightarrow> Fault Out_Of_Bounds
      | Some off \<Rightarrow> load_at 8 (of_host_bytes64 (little_endian abi)) buf off)"

text \<open>A flexible array member: the bytes from its offset to the end of the buffer.\<close>

definition member_bytes :: "abi \<Rightarrow> struct \<Rightarrow> bytes \<Rightarrow> string \<Rightarrow> bytes run" where
  "member_bytes abi s buf m =
     (case offset_of (u64_align abi) s m of
        None \<Rightarrow> Fault Out_Of_Bounds
      | Some off \<Rightarrow> if off \<le> length buf then Ret (drop off buf) else Fault Out_Of_Bounds)"

section \<open>Storing a structure\<close>

datatype cval = V32 u32 | V64 u64

primrec val_bytes :: "bool \<Rightarrow> cval \<Rightarrow> bytes" where
  "val_bytes le (V32 w) = host_bytes le w"
| "val_bytes le (V64 w) = host_bytes64 le w"

fun has_type :: "cval \<Rightarrow> ctype \<Rightarrow> bool" where
  "has_type (V32 _) t \<longleftrightarrow> t = U32 \<or> t = S32"
| "has_type (V64 _) t \<longleftrightarrow> t = U64 \<or> t = S64"

text \<open>The values of the members of a structure, in order; a flexible array member at the end has none.\<close>

fun typed :: "cval list \<Rightarrow> struct \<Rightarrow> bool" where
  "typed [] s \<longleftrightarrow> True"
| "typed (v # vs) ((m, t) # s) \<longleftrightarrow> has_type v t \<and> typed vs s"
| "typed (v # vs) [] \<longleftrightarrow> False"

fun store_from :: "abi \<Rightarrow> nat \<Rightarrow> struct \<Rightarrow> cval list \<Rightarrow> bytes" where
  "store_from abi pos ((m, t) # ms) (v # vs) =
     (let p = align_up (type_align (u64_align abi) t) pos
      in replicate (p - pos) 0 @ val_bytes (little_endian abi) v @
         store_from abi (p + type_size t) ms vs)"
| "store_from abi pos _ _ = []"

definition struct_bytes :: "abi \<Rightarrow> struct \<Rightarrow> cval list \<Rightarrow> bytes" where
  "struct_bytes abi s vs = store_from abi 0 s vs"

section \<open>Loading what was stored\<close>

lemma align_up_ge: "0 < a \<Longrightarrow> n \<le> align_up a n"
proof -
  assume "0 < a"
  then have "n + a - 1 < (n + a - 1) div a * a + a" 
    using dividend_less_div_times [of a "n + a - 1"] by simp
  then show ?thesis using \<open>0 < a\<close> by (simp add: align_up_def)
qed

lemma align_up_dvd: "a dvd align_up a n"
  by (simp add: align_up_def)

lemma type_align_pos: "0 < al \<Longrightarrow> 0 < type_align al t"
  by (cases t) simp_all

lemma length_val_bytes: "has_type v t \<Longrightarrow> length (val_bytes le v) = type_size t"
  by (cases v) (auto simp: wire64.store_width)

lemma stored_value:
  assumes "0 < u64_align abi" and "length pre = pos" and "typed vs s"
    and "map_of (zip (map fst s) vs) m = Some v"
  shows "\<exists>a b. pre @ store_from abi pos s vs = a @ val_bytes (little_endian abi) v @ b \<and>
    map_of (layout_from (u64_align abi) pos s) m = Some (length a)"
  using assms(2-)
proof (induction vs s arbitrary: pos pre rule: typed.induct)
  case (2 w vs n t s)
  let ?al = "u64_align abi" and ?le = "little_endian abi"
  let ?p = "align_up (type_align ?al t) pos"
  have p: "pos \<le> ?p" by (intro align_up_ge type_align_pos assms(1))
  show ?case
  proof (cases "m = n")
    case True
    with 2 p show ?thesis
      by (intro exI [of _ "pre @ replicate (?p - pos) 0"] exI) (simp add: Let_def)
  next
    case False
    let ?pre = "pre @ replicate (?p - pos) 0 @ val_bytes ?le w"
    have "length ?pre = ?p + type_size t" using 2(2,3) p by (simp add: length_val_bytes)
    from 2(1) [OF this] 2(3,4) False obtain a b where
      "?pre @ store_from abi (?p + type_size t) s vs = a @ val_bytes ?le v @ b"
      "map_of (layout_from ?al (?p + type_size t) s) m = Some (length a)"
      by auto
    with False show ?thesis by (intro exI [of _ a] exI [of _ b]) (simp add: Let_def)
  qed
qed simp_all

lemma member32_stored:
  assumes "0 < u64_align abi" and "typed vs s" and "map_of (zip (map fst s) vs) m = Some (V32 w)"
  shows "member32 abi s (struct_bytes abi s vs @ rest) m = Ret w"
proof -
  obtain a b where ab: "store_from abi 0 s vs = a @ host_bytes (little_endian abi) w @ b"
    and "offset_of (u64_align abi) s m = Some (length a)"
    using stored_value [OF assms(1) _ assms(2,3), of "[]"] by (auto simp: offset_of_def)
  then show ?thesis
    using wire32.load_at_stored [where a = a and v = w and b = "b @ rest"]
    by (simp add: member32_def struct_bytes_def)
qed

lemma member64_stored:
  assumes "0 < u64_align abi" and "typed vs s" and "map_of (zip (map fst s) vs) m = Some (V64 w)"
  shows "member64 abi s (struct_bytes abi s vs @ rest) m = Ret w"
proof -
  obtain a b where ab: "store_from abi 0 s vs = a @ host_bytes64 (little_endian abi) w @ b"
    and "offset_of (u64_align abi) s m = Some (length a)"
    using stored_value [OF assms(1) _ assms(2,3), of "[]"] by (auto simp: offset_of_def)
  then show ?thesis
    using wire64.load_at_stored [where a = a and v = w and b = "b @ rest"]
    by (simp add: member64_def struct_bytes_def)
qed

lemma flexible_offset:
  assumes "0 < u64_align abi" and "typed vs s" and "length vs = length s" and "m \<notin> fst ` set s"
    and "4 dvd end_from (u64_align abi) pos s"
  shows "map_of (layout_from (u64_align abi) pos (s @ [(m, U32_flexible)])) m =
    Some (pos + length (store_from abi pos (s @ [(m, U32_flexible)]) vs))"
  using assms(2-)
proof (induction vs s arbitrary: pos rule: typed.induct)
  case (1 s)
  then have "4 dvd pos" by simp
  then have "align_up 4 pos = pos" by (auto simp: align_up_def)
  with 1 show ?case by simp
next
  case (2 w vs n t s)
  have "pos \<le> align_up (type_align (u64_align abi) t) pos"
    by (intro align_up_ge type_align_pos assms(1))
  with 2 show ?case by (auto simp: Let_def length_val_bytes)
qed simp_all

lemma member_bytes_stored:
  assumes "0 < u64_align abi" and "typed vs s" and "length vs = length s" and "m \<notin> fst ` set s"
    and "4 dvd end_from (u64_align abi) 0 s"
  shows "member_bytes abi (s @ [(m, U32_flexible)])
    (struct_bytes abi (s @ [(m, U32_flexible)]) vs @ rest) m = Ret rest"
  using flexible_offset [OF assms] by (simp add: member_bytes_def offset_of_def struct_bytes_def)

end
