(* ===== verification/Cdev_Layout.thy ===== *)
theory Cdev_Layout
  imports C_Layout Fw_Cdev
begin

text \<open>
  The structures, event types and ioctl requests of \<open>include/linux/firewire-cdev.h\<close>, as the C compiler sees
  them: the members of every structure in order, from which \<open>C_Layout\<close> computes offsets and sizes, and the
  request codes, of which the size of the argument is a part.
\<close>

section \<open>Structures\<close>

definition fw_cdev_event_common_struct :: struct where
  "fw_cdev_event_common_struct =
    [(''closure'', U64), (''type'', U32)]"

definition fw_cdev_event_bus_reset_struct :: struct where
  "fw_cdev_event_bus_reset_struct =
    [(''closure'', U64), (''type'', U32), (''node_id'', U32), (''local_node_id'', U32),
     (''bm_node_id'', U32), (''irm_node_id'', U32), (''root_node_id'', U32), (''generation'', U32)]"

definition fw_cdev_event_response_struct :: struct where
  "fw_cdev_event_response_struct =
    [(''closure'', U64), (''type'', U32), (''rcode'', U32), (''length'', U32),
     (''data'', U32_flexible)]"

definition fw_cdev_event_response2_struct :: struct where
  "fw_cdev_event_response2_struct =
    [(''closure'', U64), (''type'', U32), (''rcode'', U32), (''length'', U32),
     (''request_tstamp'', U32), (''response_tstamp'', U32), (''padding'', U32),
     (''data'', U32_flexible)]"

definition fw_cdev_event_request_struct :: struct where
  "fw_cdev_event_request_struct =
    [(''closure'', U64), (''type'', U32), (''tcode'', U32), (''offset'', U64), (''handle'', U32),
     (''length'', U32), (''data'', U32_flexible)]"

definition fw_cdev_event_request2_struct :: struct where
  "fw_cdev_event_request2_struct =
    [(''closure'', U64), (''type'', U32), (''tcode'', U32), (''offset'', U64),
     (''source_node_id'', U32), (''destination_node_id'', U32), (''card'', U32),
     (''generation'', U32), (''handle'', U32), (''length'', U32), (''data'', U32_flexible)]"

definition fw_cdev_event_request3_struct :: struct where
  "fw_cdev_event_request3_struct =
    [(''closure'', U64), (''type'', U32), (''tcode'', U32), (''offset'', U64),
     (''source_node_id'', U32), (''destination_node_id'', U32), (''card'', U32),
     (''generation'', U32), (''handle'', U32), (''length'', U32), (''tstamp'', U32),
     (''padding'', U32), (''data'', U32_flexible)]"

definition fw_cdev_event_iso_interrupt_struct :: struct where
  "fw_cdev_event_iso_interrupt_struct =
    [(''closure'', U64), (''type'', U32), (''cycle'', U32), (''header_length'', U32),
     (''header'', U32_flexible)]"

definition fw_cdev_event_iso_interrupt_mc_struct :: struct where
  "fw_cdev_event_iso_interrupt_mc_struct =
    [(''closure'', U64), (''type'', U32), (''completed'', U32)]"

definition fw_cdev_event_iso_resource_struct :: struct where
  "fw_cdev_event_iso_resource_struct =
    [(''closure'', U64), (''type'', U32), (''handle'', U32), (''channel'', S32),
     (''bandwidth'', S32)]"

definition fw_cdev_event_phy_packet_struct :: struct where
  "fw_cdev_event_phy_packet_struct =
    [(''closure'', U64), (''type'', U32), (''rcode'', U32), (''length'', U32),
     (''data'', U32_flexible)]"

definition fw_cdev_event_phy_packet2_struct :: struct where
  "fw_cdev_event_phy_packet2_struct =
    [(''closure'', U64), (''type'', U32), (''rcode'', U32), (''length'', U32), (''tstamp'', U32),
     (''data'', U32_flexible)]"

definition fw_cdev_get_info_struct :: struct where
  "fw_cdev_get_info_struct =
    [(''version'', U32), (''rom_length'', U32), (''rom'', U64), (''bus_reset'', U64),
     (''bus_reset_closure'', U64), (''card'', U32)]"

definition fw_cdev_send_request_struct :: struct where
  "fw_cdev_send_request_struct =
    [(''tcode'', U32), (''length'', U32), (''offset'', U64), (''closure'', U64), (''data'', U64),
     (''generation'', U32)]"

definition fw_cdev_send_response_struct :: struct where
  "fw_cdev_send_response_struct =
    [(''rcode'', U32), (''length'', U32), (''data'', U64), (''handle'', U32)]"

definition fw_cdev_allocate_struct :: struct where
  "fw_cdev_allocate_struct =
    [(''offset'', U64), (''closure'', U64), (''length'', U32), (''handle'', U32),
     (''region_end'', U64)]"

definition fw_cdev_deallocate_struct :: struct where
  "fw_cdev_deallocate_struct =
    [(''handle'', U32)]"

definition fw_cdev_initiate_bus_reset_struct :: struct where
  "fw_cdev_initiate_bus_reset_struct =
    [(''type'', U32)]"

definition fw_cdev_add_descriptor_struct :: struct where
  "fw_cdev_add_descriptor_struct =
    [(''immediate'', U32), (''key'', U32), (''data'', U64), (''length'', U32), (''handle'', U32)]"

definition fw_cdev_remove_descriptor_struct :: struct where
  "fw_cdev_remove_descriptor_struct =
    [(''handle'', U32)]"

definition fw_cdev_create_iso_context_struct :: struct where
  "fw_cdev_create_iso_context_struct =
    [(''type'', U32), (''header_size'', U32), (''channel'', U32), (''speed'', U32),
     (''closure'', U64), (''handle'', U32)]"

definition fw_cdev_set_iso_channels_struct :: struct where
  "fw_cdev_set_iso_channels_struct =
    [(''channels'', U64), (''handle'', U32)]"

definition fw_cdev_iso_packet_struct :: struct where
  "fw_cdev_iso_packet_struct =
    [(''control'', U32), (''header'', U32_flexible)]"

definition fw_cdev_queue_iso_struct :: struct where
  "fw_cdev_queue_iso_struct =
    [(''packets'', U64), (''data'', U64), (''size'', U32), (''handle'', U32)]"

definition fw_cdev_start_iso_struct :: struct where
  "fw_cdev_start_iso_struct =
    [(''cycle'', S32), (''sync'', U32), (''tags'', U32), (''handle'', U32)]"

definition fw_cdev_stop_iso_struct :: struct where
  "fw_cdev_stop_iso_struct =
    [(''handle'', U32)]"

definition fw_cdev_flush_iso_struct :: struct where
  "fw_cdev_flush_iso_struct =
    [(''handle'', U32)]"

definition fw_cdev_get_cycle_timer_struct :: struct where
  "fw_cdev_get_cycle_timer_struct =
    [(''local_time'', U64), (''cycle_timer'', U32)]"

definition fw_cdev_get_cycle_timer2_struct :: struct where
  "fw_cdev_get_cycle_timer2_struct =
    [(''tv_sec'', S64), (''tv_nsec'', S32), (''clk_id'', S32), (''cycle_timer'', U32)]"

definition fw_cdev_allocate_iso_resource_struct :: struct where
  "fw_cdev_allocate_iso_resource_struct =
    [(''closure'', U64), (''channels'', U64), (''bandwidth'', U32), (''handle'', U32)]"

definition fw_cdev_send_stream_packet_struct :: struct where
  "fw_cdev_send_stream_packet_struct =
    [(''length'', U32), (''tag'', U32), (''channel'', U32), (''sy'', U32), (''closure'', U64),
     (''data'', U64), (''generation'', U32), (''speed'', U32)]"

definition fw_cdev_send_phy_packet_struct :: struct where
  "fw_cdev_send_phy_packet_struct =
    [(''closure'', U64), (''data'', U32_array 2), (''generation'', U32)]"

definition fw_cdev_receive_phy_packets_struct :: struct where
  "fw_cdev_receive_phy_packets_struct =
    [(''closure'', U64)]"

text \<open>The members of the union \<open>fw_cdev_event\<close>, and the arguments of ioctl requests with what they point to.\<close>

definition event_structs :: "struct list" where
  "event_structs =
    [fw_cdev_event_common_struct, fw_cdev_event_bus_reset_struct, fw_cdev_event_response_struct,
     fw_cdev_event_response2_struct, fw_cdev_event_request_struct, fw_cdev_event_request2_struct,
     fw_cdev_event_request3_struct, fw_cdev_event_iso_interrupt_struct,
     fw_cdev_event_iso_interrupt_mc_struct, fw_cdev_event_iso_resource_struct,
     fw_cdev_event_phy_packet_struct, fw_cdev_event_phy_packet2_struct]"

definition argument_structs :: "struct list" where
  "argument_structs =
    [fw_cdev_get_info_struct, fw_cdev_send_request_struct, fw_cdev_send_response_struct,
     fw_cdev_allocate_struct, fw_cdev_deallocate_struct, fw_cdev_initiate_bus_reset_struct,
     fw_cdev_add_descriptor_struct, fw_cdev_remove_descriptor_struct,
     fw_cdev_create_iso_context_struct, fw_cdev_set_iso_channels_struct, fw_cdev_iso_packet_struct,
     fw_cdev_queue_iso_struct, fw_cdev_start_iso_struct, fw_cdev_stop_iso_struct,
     fw_cdev_flush_iso_struct, fw_cdev_get_cycle_timer_struct, fw_cdev_get_cycle_timer2_struct,
     fw_cdev_allocate_iso_resource_struct, fw_cdev_send_stream_packet_struct,
     fw_cdev_send_phy_packet_struct, fw_cdev_receive_phy_packets_struct]"

section \<open>Requests\<close>

text \<open>A request code is made by \<open>_IO\<close>, \<open>_IOR\<close>, \<open>_IOW\<close> or \<open>_IOWR\<close> from the direction of the transfer, a number
  and the size of the argument; the type is \<open>#\<close> for all of them.\<close>

datatype ioc_dir = IO | IOR | IOW | IOWR

definition fw_cdev_ioctls :: "(string \<times> ioc_dir \<times> nat \<times> struct) list" where
  "fw_cdev_ioctls =
    [(''FW_CDEV_IOC_GET_INFO'', IOWR, 0x00, fw_cdev_get_info_struct),
     (''FW_CDEV_IOC_SEND_REQUEST'', IOW, 0x01, fw_cdev_send_request_struct),
     (''FW_CDEV_IOC_ALLOCATE'', IOWR, 0x02, fw_cdev_allocate_struct),
     (''FW_CDEV_IOC_DEALLOCATE'', IOW, 0x03, fw_cdev_deallocate_struct),
     (''FW_CDEV_IOC_SEND_RESPONSE'', IOW, 0x04, fw_cdev_send_response_struct),
     (''FW_CDEV_IOC_INITIATE_BUS_RESET'', IOW, 0x05, fw_cdev_initiate_bus_reset_struct),
     (''FW_CDEV_IOC_ADD_DESCRIPTOR'', IOWR, 0x06, fw_cdev_add_descriptor_struct),
     (''FW_CDEV_IOC_REMOVE_DESCRIPTOR'', IOW, 0x07, fw_cdev_remove_descriptor_struct),
     (''FW_CDEV_IOC_CREATE_ISO_CONTEXT'', IOWR, 0x08, fw_cdev_create_iso_context_struct),
     (''FW_CDEV_IOC_QUEUE_ISO'', IOWR, 0x09, fw_cdev_queue_iso_struct),
     (''FW_CDEV_IOC_START_ISO'', IOW, 0x0a, fw_cdev_start_iso_struct),
     (''FW_CDEV_IOC_STOP_ISO'', IOW, 0x0b, fw_cdev_stop_iso_struct),
     (''FW_CDEV_IOC_GET_CYCLE_TIMER'', IOR, 0x0c, fw_cdev_get_cycle_timer_struct),
     (''FW_CDEV_IOC_ALLOCATE_ISO_RESOURCE'', IOWR, 0x0d, fw_cdev_allocate_iso_resource_struct),
     (''FW_CDEV_IOC_DEALLOCATE_ISO_RESOURCE'', IOW, 0x0e, fw_cdev_deallocate_struct),
     (''FW_CDEV_IOC_ALLOCATE_ISO_RESOURCE_ONCE'', IOW, 0x0f, fw_cdev_allocate_iso_resource_struct),
     (''FW_CDEV_IOC_DEALLOCATE_ISO_RESOURCE_ONCE'', IOW, 0x10, fw_cdev_allocate_iso_resource_struct),
     (''FW_CDEV_IOC_GET_SPEED'', IO, 0x11, []),
     (''FW_CDEV_IOC_SEND_BROADCAST_REQUEST'', IOW, 0x12, fw_cdev_send_request_struct),
     (''FW_CDEV_IOC_SEND_STREAM_PACKET'', IOW, 0x13, fw_cdev_send_stream_packet_struct),
     (''FW_CDEV_IOC_GET_CYCLE_TIMER2'', IOWR, 0x14, fw_cdev_get_cycle_timer2_struct),
     (''FW_CDEV_IOC_SEND_PHY_PACKET'', IOWR, 0x15, fw_cdev_send_phy_packet_struct),
     (''FW_CDEV_IOC_RECEIVE_PHY_PACKETS'', IOW, 0x16, fw_cdev_receive_phy_packets_struct),
     (''FW_CDEV_IOC_SET_ISO_CHANNELS'', IOW, 0x17, fw_cdev_set_iso_channels_struct),
     (''FW_CDEV_IOC_FLUSH_ISO'', IOW, 0x18, fw_cdev_flush_iso_struct)]"

definition request_code :: "nat \<Rightarrow> ioc_dir \<times> nat \<times> struct \<Rightarrow> ioc_dir \<times> nat \<times> nat" where
  "request_code al r = (case r of (dir, nr, s) \<Rightarrow> (dir, nr, if s = [] then 0 else sizeof al s))"

section \<open>The layout on both alignments\<close>

text \<open>The layout without any padding between members.\<close>

fun packed_from :: "nat \<Rightarrow> struct \<Rightarrow> (string \<times> nat) list" where
  "packed_from pos [] = []"
| "packed_from pos ((m, t) # ms) = (m, pos) # packed_from (pos + type_size t) ms"

fun packed_size :: "struct \<Rightarrow> nat" where
  "packed_size [] = 0"
| "packed_size ((m, t) # ms) = type_size t + packed_size ms"

lemma layouts_packed:
  "list_all (\<lambda>s. layout_from 4 0 s = packed_from 0 s \<and> layout_from 8 0 s = packed_from 0 s)
    (event_structs @ argument_structs)"
  by code_simp

lemma sizes_aligned:
  "list_all (\<lambda>s. sizeof 4 s = packed_size s \<and> sizeof 8 s = align_up (struct_align 8 s) (packed_size s))
    (event_structs @ argument_structs)"
  by code_simp

lemma request_codes_distinct:
  "distinct (map (request_code 4 \<circ> snd) fw_cdev_ioctls)"
  "distinct (map (request_code 8 \<circ> snd) fw_cdev_ioctls)"
  by code_simp+

lemma differing_requests:
  "map fst (filter (\<lambda>r. request_code 4 (snd r) \<noteq> request_code 8 (snd r)) fw_cdev_ioctls) =
    [''FW_CDEV_IOC_GET_INFO'', ''FW_CDEV_IOC_SEND_REQUEST'', ''FW_CDEV_IOC_SEND_RESPONSE'',
     ''FW_CDEV_IOC_CREATE_ISO_CONTEXT'', ''FW_CDEV_IOC_GET_CYCLE_TIMER'',
     ''FW_CDEV_IOC_SEND_BROADCAST_REQUEST'', ''FW_CDEV_IOC_GET_CYCLE_TIMER2'',
     ''FW_CDEV_IOC_SEND_PHY_PACKET'', ''FW_CDEV_IOC_SET_ISO_CHANNELS'']"
  by code_simp

text \<open>The interface between the library and the kernel on platforms that align 64-bit integers to 4
  and to 8 bytes: no structure of the header has padding between its members, so the offset of every
  member is the same on both; a structure has padding at its end exactly where its members do not fill
  a multiple of 8 bytes and the platform aligns to 8; the two events of the latest version have a
  multiple of 8 bytes before their data, as the header says of their padding; and the codes of the ioctl
  requests are pairwise different on either platform, but depend on it for the requests listed, which
  include four of the six that the library issues.\<close>

theorem cdev_abi:
  assumes "s \<in> set (event_structs @ argument_structs)" and "al \<in> {4, 8}"
  shows "layout_from al 0 s = packed_from 0 s \<and>
    sizeof al s = (if al = 8 then align_up (struct_align 8 s) (packed_size s) else packed_size s) \<and>
    8 dvd packed_size fw_cdev_event_response2_struct \<and> 8 dvd packed_size fw_cdev_event_request3_struct \<and>
    distinct (map (request_code al \<circ> snd) fw_cdev_ioctls) \<and>
    map fst (filter (\<lambda>r. request_code 4 (snd r) \<noteq> request_code 8 (snd r)) fw_cdev_ioctls) =
      [''FW_CDEV_IOC_GET_INFO'', ''FW_CDEV_IOC_SEND_REQUEST'', ''FW_CDEV_IOC_SEND_RESPONSE'',
       ''FW_CDEV_IOC_CREATE_ISO_CONTEXT'', ''FW_CDEV_IOC_GET_CYCLE_TIMER'',
       ''FW_CDEV_IOC_SEND_BROADCAST_REQUEST'', ''FW_CDEV_IOC_GET_CYCLE_TIMER2'',
       ''FW_CDEV_IOC_SEND_PHY_PACKET'', ''FW_CDEV_IOC_SET_ISO_CHANNELS'']"
proof -
  have "layout_from al 0 s = packed_from 0 s"
    using assms layouts_packed by (auto simp only: list_all_iff)
  moreover have "sizeof al s = (if al = 8 then align_up (struct_align 8 s) (packed_size s) else packed_size s)"
    using assms sizes_aligned by (auto simp only: list_all_iff split: if_splits)
  moreover have "distinct (map (request_code al \<circ> snd) fw_cdev_ioctls)"
    using assms(2) request_codes_distinct by auto
  moreover have "8 dvd packed_size fw_cdev_event_response2_struct" "8 dvd packed_size fw_cdev_event_request3_struct"
    by code_simp+
  ultimately show ?thesis using differing_requests by simp
qed

theorem cdev_abi_witness:
  "layout_from 8 0 fw_cdev_get_cycle_timer2_struct =
     [(''tv_sec'', 0), (''tv_nsec'', 8), (''clk_id'', 12), (''cycle_timer'', 16)] \<and>
   sizeof 8 fw_cdev_get_cycle_timer2_struct = 24"
proof -
  have "fw_cdev_get_cycle_timer2_struct \<in> set (event_structs @ argument_structs)"
    by (simp add: argument_structs_def)
  from cdev_abi [OF this, of 8] show ?thesis
    by (simp add: fw_cdev_get_cycle_timer2_struct_def struct_align_def align_up_def)
qed

end
