(* ===== verification/Event_Wire.thy ===== *)
theory Event_Wire
  imports Cdev_Layout
begin

text \<open>
  Events as bytes: how \<open>dispatch_src\<close> of \<open>src/fw_node.c\<close> reads an event from its buffer through the members
  of the union \<open>fw_cdev_event\<close>, and what the kernel writes there.

  \<open>decode_event\<close> is the reading side, member by member at the offsets of the layout. \<open>encode_event\<close> is what
  the header documents of the writing side: the structure of the event, followed by its data. Decoding an
  encoded event gives it back, with whatever the buffer holds behind it at the end of its data.
\<close>

section \<open>Types\<close>

primrec event_type :: "fw_cdev_event \<Rightarrow> u32" where
  "event_type (FW_CDEV_EVENT_BUS_RESET _) = 0x00"
| "event_type (FW_CDEV_EVENT_RESPONSE _) = 0x01"
| "event_type (FW_CDEV_EVENT_REQUEST _) = 0x02"
| "event_type (FW_CDEV_EVENT_REQUEST2 _) = 0x06"
| "event_type (FW_CDEV_EVENT_REQUEST3 _) = 0x0a"
| "event_type (FW_CDEV_EVENT_RESPONSE2 _) = 0x0b"
| "event_type (FW_CDEV_EVENT_OTHER _ t) = t"

text \<open>The types the library handles; the others have no structure in the model.\<close>

definition handled_types :: "u32 list" where
  "handled_types = [0x00, 0x01, 0x02, 0x06, 0x0a, 0x0b]"

text \<open>All types of the header.\<close>

definition fw_cdev_event_types :: "(string \<times> u32) list" where
  "fw_cdev_event_types =
    [(''BUS_RESET'', 0x00), (''RESPONSE'', 0x01), (''REQUEST'', 0x02), (''ISO_INTERRUPT'', 0x03),
     (''ISO_RESOURCE_ALLOCATED'', 0x04), (''ISO_RESOURCE_DEALLOCATED'', 0x05), (''REQUEST2'', 0x06),
     (''PHY_PACKET_SENT'', 0x07), (''PHY_PACKET_RECEIVED'', 0x08), (''ISO_INTERRUPT_MULTICHANNEL'', 0x09),
     (''REQUEST3'', 0x0a), (''RESPONSE2'', 0x0b), (''PHY_PACKET_SENT2'', 0x0c),
     (''PHY_PACKET_RECEIVED2'', 0x0d)]"

text \<open>They are told apart by their numbers, and those the library handles are the asynchronous ones.\<close>

lemma event_types_distinct: "distinct (map snd fw_cdev_event_types)"
  by (simp add: fw_cdev_event_types_def)

lemma handled_event_types:
  "map fst (filter (\<lambda>(name, t). t \<in> set handled_types) fw_cdev_event_types) =
    [''BUS_RESET'', ''RESPONSE'', ''REQUEST'', ''REQUEST2'', ''REQUEST3'', ''RESPONSE2'']"
  by (simp add: fw_cdev_event_types_def handled_types_def)

definition wire_event :: "fw_cdev_event \<Rightarrow> bool" where
  "wire_event e = (case e of FW_CDEV_EVENT_OTHER _ t \<Rightarrow> t \<notin> set handled_types | _ \<Rightarrow> True)"

section \<open>Reading\<close>

definition load_bus_reset :: "abi \<Rightarrow> bytes \<Rightarrow> fw_cdev_event_bus_reset run" where
  "load_bus_reset abi buf =
     (let s = fw_cdev_event_bus_reset_struct in
      bind_run (member64 abi s buf ''closure'') (\<lambda>x_closure.
      bind_run (member32 abi s buf ''node_id'') (\<lambda>x_node_id.
      bind_run (member32 abi s buf ''local_node_id'') (\<lambda>x_local_node_id.
      bind_run (member32 abi s buf ''bm_node_id'') (\<lambda>x_bm_node_id.
      bind_run (member32 abi s buf ''irm_node_id'') (\<lambda>x_irm_node_id.
      bind_run (member32 abi s buf ''root_node_id'') (\<lambda>x_root_node_id.
      bind_run (member32 abi s buf ''generation'') (\<lambda>x_generation.
        Ret \<lparr>br_closure = x_closure, br_node_id = x_node_id, br_local_node_id = x_local_node_id,
           br_bm_node_id = x_bm_node_id, br_irm_node_id = x_irm_node_id, br_root_node_id = x_root_node_id,
           br_generation = x_generation\<rparr>))))))))"

definition load_response :: "abi \<Rightarrow> bytes \<Rightarrow> fw_cdev_event_response run" where
  "load_response abi buf =
     (let s = fw_cdev_event_response_struct in
      bind_run (member64 abi s buf ''closure'') (\<lambda>x_closure.
      bind_run (member32 abi s buf ''rcode'') (\<lambda>x_rcode.
      bind_run (member32 abi s buf ''length'') (\<lambda>x_length.
      bind_run (member_bytes abi s buf ''data'') (\<lambda>x_data.
        Ret \<lparr>rs_closure = x_closure, rs_rcode = x_rcode, rs_length = x_length, rs_data = x_data\<rparr>)))))"

definition load_response2 :: "abi \<Rightarrow> bytes \<Rightarrow> fw_cdev_event_response2 run" where
  "load_response2 abi buf =
     (let s = fw_cdev_event_response2_struct in
      bind_run (member64 abi s buf ''closure'') (\<lambda>x_closure.
      bind_run (member32 abi s buf ''rcode'') (\<lambda>x_rcode.
      bind_run (member32 abi s buf ''length'') (\<lambda>x_length.
      bind_run (member32 abi s buf ''request_tstamp'') (\<lambda>x_request_tstamp.
      bind_run (member32 abi s buf ''response_tstamp'') (\<lambda>x_response_tstamp.
      bind_run (member_bytes abi s buf ''data'') (\<lambda>x_data.
        Ret \<lparr>rs2_closure = x_closure, rs2_rcode = x_rcode, rs2_length = x_length,
           rs2_request_tstamp = x_request_tstamp, rs2_response_tstamp = x_response_tstamp, rs2_data = x_data\<rparr>)))))))"

definition load_request :: "abi \<Rightarrow> bytes \<Rightarrow> fw_cdev_event_request run" where
  "load_request abi buf =
     (let s = fw_cdev_event_request_struct in
      bind_run (member64 abi s buf ''closure'') (\<lambda>x_closure.
      bind_run (member32 abi s buf ''tcode'') (\<lambda>x_tcode.
      bind_run (member64 abi s buf ''offset'') (\<lambda>x_offset.
      bind_run (member32 abi s buf ''handle'') (\<lambda>x_handle.
      bind_run (member32 abi s buf ''length'') (\<lambda>x_length.
      bind_run (member_bytes abi s buf ''data'') (\<lambda>x_data.
        Ret \<lparr>rq_closure = x_closure, rq_tcode = x_tcode, rq_offset = x_offset, rq_handle = x_handle,
           rq_length = x_length, rq_data = x_data\<rparr>)))))))"

definition load_request2 :: "abi \<Rightarrow> bytes \<Rightarrow> fw_cdev_event_request2 run" where
  "load_request2 abi buf =
     (let s = fw_cdev_event_request2_struct in
      bind_run (member64 abi s buf ''closure'') (\<lambda>x_closure.
      bind_run (member32 abi s buf ''tcode'') (\<lambda>x_tcode.
      bind_run (member64 abi s buf ''offset'') (\<lambda>x_offset.
      bind_run (member32 abi s buf ''source_node_id'') (\<lambda>x_source_node_id.
      bind_run (member32 abi s buf ''destination_node_id'') (\<lambda>x_destination_node_id.
      bind_run (member32 abi s buf ''card'') (\<lambda>x_card.
      bind_run (member32 abi s buf ''generation'') (\<lambda>x_generation.
      bind_run (member32 abi s buf ''handle'') (\<lambda>x_handle.
      bind_run (member32 abi s buf ''length'') (\<lambda>x_length.
      bind_run (member_bytes abi s buf ''data'') (\<lambda>x_data.
        Ret \<lparr>rq2_closure = x_closure, rq2_tcode = x_tcode, rq2_offset = x_offset,
           rq2_source_node_id = x_source_node_id, rq2_destination_node_id = x_destination_node_id,
           rq2_card = x_card, rq2_generation = x_generation, rq2_handle = x_handle, rq2_length = x_length,
           rq2_data = x_data\<rparr>)))))))))))"

definition load_request3 :: "abi \<Rightarrow> bytes \<Rightarrow> fw_cdev_event_request3 run" where
  "load_request3 abi buf =
     (let s = fw_cdev_event_request3_struct in
      bind_run (member64 abi s buf ''closure'') (\<lambda>x_closure.
      bind_run (member32 abi s buf ''tcode'') (\<lambda>x_tcode.
      bind_run (member64 abi s buf ''offset'') (\<lambda>x_offset.
      bind_run (member32 abi s buf ''source_node_id'') (\<lambda>x_source_node_id.
      bind_run (member32 abi s buf ''destination_node_id'') (\<lambda>x_destination_node_id.
      bind_run (member32 abi s buf ''card'') (\<lambda>x_card.
      bind_run (member32 abi s buf ''generation'') (\<lambda>x_generation.
      bind_run (member32 abi s buf ''handle'') (\<lambda>x_handle.
      bind_run (member32 abi s buf ''length'') (\<lambda>x_length.
      bind_run (member32 abi s buf ''tstamp'') (\<lambda>x_tstamp.
      bind_run (member_bytes abi s buf ''data'') (\<lambda>x_data.
        Ret \<lparr>rq3_closure = x_closure, rq3_tcode = x_tcode, rq3_offset = x_offset,
           rq3_source_node_id = x_source_node_id, rq3_destination_node_id = x_destination_node_id,
           rq3_card = x_card, rq3_generation = x_generation, rq3_handle = x_handle, rq3_length = x_length,
           rq3_tstamp = x_tstamp, rq3_data = x_data\<rparr>))))))))))))"

text \<open>The cast of the buffer to the union: the type in the common part says which member is valid.\<close>

definition decode_event :: "abi \<Rightarrow> bytes \<Rightarrow> fw_cdev_event run" where
  "decode_event abi buf =
     bind_run (member64 abi fw_cdev_event_common_struct buf ''closure'') (\<lambda>closure.
     bind_run (member32 abi fw_cdev_event_common_struct buf ''type'') (\<lambda>type.
       if type = 0x00 then bind_run (load_bus_reset abi buf) (\<lambda>e. Ret (FW_CDEV_EVENT_BUS_RESET e))
       else if type = 0x01 then bind_run (load_response abi buf) (\<lambda>e. Ret (FW_CDEV_EVENT_RESPONSE e))
       else if type = 0x02 then bind_run (load_request abi buf) (\<lambda>e. Ret (FW_CDEV_EVENT_REQUEST e))
       else if type = 0x06 then bind_run (load_request2 abi buf) (\<lambda>e. Ret (FW_CDEV_EVENT_REQUEST2 e))
       else if type = 0x0a then bind_run (load_request3 abi buf) (\<lambda>e. Ret (FW_CDEV_EVENT_REQUEST3 e))
       else if type = 0x0b then bind_run (load_response2 abi buf) (\<lambda>e. Ret (FW_CDEV_EVENT_RESPONSE2 e))
       else Ret (FW_CDEV_EVENT_OTHER closure type)))"

section \<open>Writing\<close>

definition bus_reset_values :: "fw_cdev_event_bus_reset \<Rightarrow> cval list" where
  "bus_reset_values e =
    [V64 (br_closure e), V32 (event_type (FW_CDEV_EVENT_BUS_RESET e)), V32 (br_node_id e),
     V32 (br_local_node_id e), V32 (br_bm_node_id e), V32 (br_irm_node_id e),
     V32 (br_root_node_id e), V32 (br_generation e)]"

definition response_values :: "fw_cdev_event_response \<Rightarrow> cval list" where
  "response_values e =
    [V64 (rs_closure e), V32 (event_type (FW_CDEV_EVENT_RESPONSE e)), V32 (rs_rcode e),
     V32 (rs_length e)]"

definition response2_values :: "fw_cdev_event_response2 \<Rightarrow> cval list" where
  "response2_values e =
    [V64 (rs2_closure e), V32 (event_type (FW_CDEV_EVENT_RESPONSE2 e)), V32 (rs2_rcode e),
     V32 (rs2_length e), V32 (rs2_request_tstamp e), V32 (rs2_response_tstamp e), V32 0]"

definition request_values :: "fw_cdev_event_request \<Rightarrow> cval list" where
  "request_values e =
    [V64 (rq_closure e), V32 (event_type (FW_CDEV_EVENT_REQUEST e)), V32 (rq_tcode e),
     V64 (rq_offset e), V32 (rq_handle e), V32 (rq_length e)]"

definition request2_values :: "fw_cdev_event_request2 \<Rightarrow> cval list" where
  "request2_values e =
    [V64 (rq2_closure e), V32 (event_type (FW_CDEV_EVENT_REQUEST2 e)), V32 (rq2_tcode e),
     V64 (rq2_offset e), V32 (rq2_source_node_id e), V32 (rq2_destination_node_id e),
     V32 (rq2_card e), V32 (rq2_generation e), V32 (rq2_handle e), V32 (rq2_length e)]"

definition request3_values :: "fw_cdev_event_request3 \<Rightarrow> cval list" where
  "request3_values e =
    [V64 (rq3_closure e), V32 (event_type (FW_CDEV_EVENT_REQUEST3 e)), V32 (rq3_tcode e),
     V64 (rq3_offset e), V32 (rq3_source_node_id e), V32 (rq3_destination_node_id e),
     V32 (rq3_card e), V32 (rq3_generation e), V32 (rq3_handle e), V32 (rq3_length e),
     V32 (rq3_tstamp e), V32 0]"

primrec event_struct :: "fw_cdev_event \<Rightarrow> struct" where
  "event_struct (FW_CDEV_EVENT_BUS_RESET _) = fw_cdev_event_bus_reset_struct"
| "event_struct (FW_CDEV_EVENT_RESPONSE _) = fw_cdev_event_response_struct"
| "event_struct (FW_CDEV_EVENT_REQUEST _) = fw_cdev_event_request_struct"
| "event_struct (FW_CDEV_EVENT_REQUEST2 _) = fw_cdev_event_request2_struct"
| "event_struct (FW_CDEV_EVENT_REQUEST3 _) = fw_cdev_event_request3_struct"
| "event_struct (FW_CDEV_EVENT_RESPONSE2 _) = fw_cdev_event_response2_struct"
| "event_struct (FW_CDEV_EVENT_OTHER _ _) = fw_cdev_event_common_struct"

primrec event_values :: "fw_cdev_event \<Rightarrow> cval list" where
  "event_values (FW_CDEV_EVENT_BUS_RESET e) = bus_reset_values e"
| "event_values (FW_CDEV_EVENT_RESPONSE e) = response_values e"
| "event_values (FW_CDEV_EVENT_REQUEST e) = request_values e"
| "event_values (FW_CDEV_EVENT_REQUEST2 e) = request2_values e"
| "event_values (FW_CDEV_EVENT_REQUEST3 e) = request3_values e"
| "event_values (FW_CDEV_EVENT_RESPONSE2 e) = response2_values e"
| "event_values (FW_CDEV_EVENT_OTHER c t) = [V64 c, V32 t]"

primrec event_data :: "fw_cdev_event \<Rightarrow> bytes" where
  "event_data (FW_CDEV_EVENT_BUS_RESET _) = []"
| "event_data (FW_CDEV_EVENT_RESPONSE e) = rs_data e"
| "event_data (FW_CDEV_EVENT_REQUEST e) = rq_data e"
| "event_data (FW_CDEV_EVENT_REQUEST2 e) = rq2_data e"
| "event_data (FW_CDEV_EVENT_REQUEST3 e) = rq3_data e"
| "event_data (FW_CDEV_EVENT_RESPONSE2 e) = rs2_data e"
| "event_data (FW_CDEV_EVENT_OTHER _ _) = []"

definition event_header :: "abi \<Rightarrow> fw_cdev_event \<Rightarrow> bytes" where
  "event_header abi e = struct_bytes abi (event_struct e) (event_values e)"

definition encode_event :: "abi \<Rightarrow> fw_cdev_event \<Rightarrow> bytes" where
  "encode_event abi e = event_header abi e @ event_data e"

text \<open>The event with other data.\<close>

primrec with_data :: "bytes \<Rightarrow> fw_cdev_event \<Rightarrow> fw_cdev_event" where
  "with_data d (FW_CDEV_EVENT_BUS_RESET e) = FW_CDEV_EVENT_BUS_RESET e"
| "with_data d (FW_CDEV_EVENT_RESPONSE e) = FW_CDEV_EVENT_RESPONSE (e\<lparr>rs_data := d\<rparr>)"
| "with_data d (FW_CDEV_EVENT_REQUEST e) = FW_CDEV_EVENT_REQUEST (e\<lparr>rq_data := d\<rparr>)"
| "with_data d (FW_CDEV_EVENT_REQUEST2 e) = FW_CDEV_EVENT_REQUEST2 (e\<lparr>rq2_data := d\<rparr>)"
| "with_data d (FW_CDEV_EVENT_REQUEST3 e) = FW_CDEV_EVENT_REQUEST3 (e\<lparr>rq3_data := d\<rparr>)"
| "with_data d (FW_CDEV_EVENT_RESPONSE2 e) = FW_CDEV_EVENT_RESPONSE2 (e\<lparr>rs2_data := d\<rparr>)"
| "with_data d (FW_CDEV_EVENT_OTHER c t) = FW_CDEV_EVENT_OTHER c t"

section \<open>Decoding what was encoded\<close>

lemmas event_struct_defs = fw_cdev_event_common_struct_def fw_cdev_event_bus_reset_struct_def
  fw_cdev_event_response_struct_def fw_cdev_event_response2_struct_def fw_cdev_event_request_struct_def
  fw_cdev_event_request2_struct_def fw_cdev_event_request3_struct_def

lemmas event_values_defs = bus_reset_values_def response_values_def response2_values_def
  request_values_def request2_values_def request3_values_def

lemma event_values_typed: "typed (event_values e) (event_struct e)"
  by (cases e) (simp_all add: event_struct_defs event_values_defs)

lemma abi_ok_pos: "abi_ok abi \<Longrightarrow> 0 < u64_align abi"
  by (auto simp: abi_ok_def)

text \<open>A member is looked up by its name among the values.\<close>

lemma header_member32:
  assumes "abi_ok abi" and "map_of (zip (map fst (event_struct e)) (event_values e)) m = Some (V32 w)"
  shows "member32 abi (event_struct e) (event_header abi e @ rest) m = Ret w"
  unfolding event_header_def
  by (rule member32_stored [OF abi_ok_pos [OF assms(1)] event_values_typed assms(2)])

lemma header_member64:
  assumes "abi_ok abi" and "map_of (zip (map fst (event_struct e)) (event_values e)) m = Some (V64 w)"
  shows "member64 abi (event_struct e) (event_header abi e @ rest) m = Ret w"
  unfolding event_header_def
  by (rule member64_stored [OF abi_ok_pos [OF assms(1)] event_values_typed assms(2)])

lemma header_data:
  assumes "abi_ok abi" and "event_struct e = s @ [(''data'', U32_flexible)]"
  shows "member_bytes abi (event_struct e) (event_header abi e @ rest) ''data'' = Ret rest"
proof -
  have s: "s = butlast (event_struct e)" using assms(2) by simp
  have "length (event_values e) = length s" "typed (event_values e) s" "''data'' \<notin> fst ` set s"
    using assms(2) unfolding s by (cases e; simp add: event_struct_defs event_values_defs)+
  moreover have "4 dvd end_from (u64_align abi) 0 s"
    using assms unfolding s abi_ok_def
    by (cases e; elim disjE; simp add: event_struct_defs align_up_def)
  ultimately show ?thesis
    unfolding event_header_def assms(2)
    by (intro member_bytes_stored abi_ok_pos assms(1)) simp_all
qed

text \<open>The common part of every event.\<close>

lemma common_offsets:
  "offset_of al fw_cdev_event_common_struct ''closure'' = offset_of al (event_struct e) ''closure''"
  "offset_of al fw_cdev_event_common_struct ''type'' = offset_of al (event_struct e) ''type''"
  by (cases e; simp add: event_struct_defs offset_of_def Let_def)+

lemma event_values_closure:
  "map_of (zip (map fst (event_struct e)) (event_values e)) ''closure'' = Some (V64 (event_closure e))"
  by (cases e) (simp_all add: event_struct_defs event_values_defs)

lemma event_values_type:
  "map_of (zip (map fst (event_struct e)) (event_values e)) ''type'' = Some (V32 (event_type e))"
  by (cases e) (simp_all add: event_struct_defs event_values_defs)

lemma common_members:
  assumes "abi_ok abi"
  shows "member64 abi fw_cdev_event_common_struct (event_header abi e @ rest) ''closure'' =
      Ret (event_closure e)"
    and "member32 abi fw_cdev_event_common_struct (event_header abi e @ rest) ''type'' =
      Ret (event_type e)"
  using header_member64 [OF assms event_values_closure, of e rest]
    header_member32 [OF assms event_values_type, of e rest]
  by (simp_all add: member64_def member32_def common_offsets [of _ e])

lemma load_bus_reset_header:
  assumes "abi_ok abi"
  shows "load_bus_reset abi (event_header abi (FW_CDEV_EVENT_BUS_RESET e) @ d) = Ret e"
  using header_member32 [OF assms, of "FW_CDEV_EVENT_BUS_RESET e"]
    header_member64 [OF assms, of "FW_CDEV_EVENT_BUS_RESET e"]
  by (simp add: load_bus_reset_def) (simp add: fw_cdev_event_bus_reset_struct_def bus_reset_values_def)

lemma load_response_header:
  assumes "abi_ok abi"
  shows "load_response abi (event_header abi (FW_CDEV_EVENT_RESPONSE e) @ d) = Ret (e\<lparr>rs_data := d\<rparr>)"
  using header_member32 [OF assms, of "FW_CDEV_EVENT_RESPONSE e"]
    header_member64 [OF assms, of "FW_CDEV_EVENT_RESPONSE e"]
    header_data [OF assms, of "FW_CDEV_EVENT_RESPONSE e"]
  by (simp add: load_response_def) (simp add: fw_cdev_event_response_struct_def response_values_def)

lemma load_response2_header:
  assumes "abi_ok abi"
  shows "load_response2 abi (event_header abi (FW_CDEV_EVENT_RESPONSE2 e) @ d) = Ret (e\<lparr>rs2_data := d\<rparr>)"
  using header_member32 [OF assms, of "FW_CDEV_EVENT_RESPONSE2 e"]
    header_member64 [OF assms, of "FW_CDEV_EVENT_RESPONSE2 e"]
    header_data [OF assms, of "FW_CDEV_EVENT_RESPONSE2 e"]
  by (simp add: load_response2_def) (simp add: fw_cdev_event_response2_struct_def response2_values_def)

lemma load_request_header:
  assumes "abi_ok abi"
  shows "load_request abi (event_header abi (FW_CDEV_EVENT_REQUEST e) @ d) = Ret (e\<lparr>rq_data := d\<rparr>)"
  using header_member32 [OF assms, of "FW_CDEV_EVENT_REQUEST e"]
    header_member64 [OF assms, of "FW_CDEV_EVENT_REQUEST e"]
    header_data [OF assms, of "FW_CDEV_EVENT_REQUEST e"]
  by (simp add: load_request_def) (simp add: fw_cdev_event_request_struct_def request_values_def)

lemma load_request2_header:
  assumes "abi_ok abi"
  shows "load_request2 abi (event_header abi (FW_CDEV_EVENT_REQUEST2 e) @ d) = Ret (e\<lparr>rq2_data := d\<rparr>)"
  using header_member32 [OF assms, of "FW_CDEV_EVENT_REQUEST2 e"]
    header_member64 [OF assms, of "FW_CDEV_EVENT_REQUEST2 e"]
    header_data [OF assms, of "FW_CDEV_EVENT_REQUEST2 e"]
  by (simp add: load_request2_def) (simp add: fw_cdev_event_request2_struct_def request2_values_def)

lemma load_request3_header:
  assumes "abi_ok abi"
  shows "load_request3 abi (event_header abi (FW_CDEV_EVENT_REQUEST3 e) @ d) = Ret (e\<lparr>rq3_data := d\<rparr>)"
  using header_member32 [OF assms, of "FW_CDEV_EVENT_REQUEST3 e"]
    header_member64 [OF assms, of "FW_CDEV_EVENT_REQUEST3 e"]
    header_data [OF assms, of "FW_CDEV_EVENT_REQUEST3 e"]
  by (simp add: load_request3_def) (simp add: fw_cdev_event_request3_struct_def request3_values_def)

lemmas load_headers = load_bus_reset_header load_response_header load_response2_header
  load_request_header load_request2_header load_request3_header

lemma decode_header:
  assumes "abi_ok abi" and "wire_event e"
  shows "decode_event abi (event_header abi e @ d) = Ret (with_data d e)"
  using assms
  by (cases e)
     (simp_all add: decode_event_def common_members load_headers wire_event_def handled_types_def)

lemma with_data_closure [simp]: "event_closure (with_data d e) = event_closure e"
  by (cases e) simp_all

text \<open>C13. Reading an event back: for every event the library handles, on either byte order and alignment,
  the members that the dispatcher reads through the union from a buffer that starts with the bytes the
  kernel wrote for the event are exactly those of the event, and its data are followed by what the buffer
  holds behind them; of an event of another type the dispatcher reads its closure and its type.\<close>

theorem decode_encoded_event:
  assumes "abi_ok abi" and "wire_event e"
  shows "decode_event abi (encode_event abi e @ rest) = Ret (with_data (event_data e @ rest) e)"
  using decode_header [OF assms, of "event_data e @ rest"] by (simp add: encode_event_def)

theorem decode_encoded_event_witness:
  "\<exists>e. decode_event \<lparr>little_endian = True, u64_align = 8\<rparr>
      ([9, 0, 0, 0, 0, 0, 0, 0, 1, 0, 0, 0, 4, 0, 0, 0, 2, 0, 0, 0, 0xaa, 0xbb] @ [0xcc]) =
    Ret (FW_CDEV_EVENT_RESPONSE \<lparr>rs_closure = 9, rs_rcode = 4, rs_length = 2, rs_data = [0xaa, 0xbb, 0xcc]\<rparr>) \<and>
    wire_event e \<and> event_data e = [0xaa, 0xbb]"
proof -
  let ?abi = "\<lparr>little_endian = True, u64_align = 8\<rparr>"
  let ?e = "FW_CDEV_EVENT_RESPONSE \<lparr>rs_closure = 9, rs_rcode = 4, rs_length = 2, rs_data = [0xaa, 0xbb]\<rparr>"
  have ok: "abi_ok ?abi" "wire_event ?e" by (simp_all add: abi_ok_def wire_event_def)
  have "encode_event ?abi ?e =
      [9, 0, 0, 0, 0, 0, 0, 0, 1, 0, 0, 0, 4, 0, 0, 0, 2, 0, 0, 0, 0xaa, 0xbb]"
    by code_simp
  with decode_encoded_event [OF ok, of "[0xcc]"] ok show ?thesis by (intro exI [of _ ?e]) simp
qed

end
