(* ===== verification/Fw_Dispatch.thy ===== *)
theory Fw_Dispatch
  imports Fw_Fcp Event_Wire
begin

text \<open>
  The event source of a node (\<open>check_src\<close>, \<open>dispatch_src\<close>, \<open>finalize_src\<close> and
  \<open>hinawa_fw_node_create_source\<close> of \<open>src/fw_node.c\<close>): reading one event from the character device
  and handing it to the object that its closure names.

  The objects are stores by address: nodes, responders, FCP objects and requests. A request has no
  state of its own, so the live ones are a predicate. A closure that is in no store is an object that
  has been freed: reading its type is the fault \<open>Dangling\<close>; the null closure is of no type.

  What the environment contributes is the record \<open>environment\<close>: the constants of the kernel header,
  the system calls, the byte order of the host, what an uninitialised local variable holds, and the
  handlers that users connected to the signal \<open>requested\<close> of each responder. The handler of an FCP
  object is the one of its class. Emissions of \<open>responded\<close>, \<open>bus-update\<close> and \<open>disconnected\<close> are
  returned in order.
\<close>

subsection \<open>Objects\<close>

record objects =
  obj_nodes :: nodes
  obj_resps :: "obj_id \<Rightarrow> HinawaFwResp option"
  obj_fcps :: "obj_id \<Rightarrow> HinawaFwFcp option"
  obj_reqs :: "obj_id \<Rightarrow> bool"

record environment =
  env_constants :: fw_constants
  env_ioctl :: sys_ioctl
  env_get_info :: sys_get_info
  env_little_endian :: bool
  env_u64_align :: nat
  env_uninit_record :: node_record
  env_requested :: "obj_id \<Rightarrow> unit requested_emission"

datatype emission =
    Req_Responded obj_id responded
  | Bus_Update obj_id
  | Disconnected obj_id

datatype object_type = FW_NODE | FW_RESP | FW_REQ | OTHER_TYPE

text \<open>The run-time type checks \<open>HINAWA_IS_FW_NODE\<close>, \<open>HINAWA_IS_FW_RESP\<close> (which an FCP object also
  passes) and \<open>HINAWA_IS_FW_REQ\<close> on a closure.\<close>

definition object_type_of :: "objects \<Rightarrow> obj_id \<Rightarrow> object_type run" where
  "object_type_of objs p =
     (if p = 0 then Ret OTHER_TYPE
      else if obj_nodes objs p \<noteq> None then Ret FW_NODE
      else if obj_resps objs p \<noteq> None \<or> obj_fcps objs p \<noteq> None then Ret FW_RESP
      else if obj_reqs objs p then Ret FW_REQ
      else Fault Dangling)"

subsection \<open>The source\<close>

record FwNodeSource =
  src_self :: obj_id
  src_len :: nat
  src_buf :: "bytes option"

text \<open>\<open>page\<close> is what \<open>sysconf(_SC_PAGESIZE)\<close> returns.\<close>

definition hinawa_fw_node_create_source ::
    "nat \<Rightarrow> obj_id \<Rightarrow> HinawaFwNode \<Rightarrow> bool \<Rightarrow> gerror_ptr \<Rightarrow> bool \<times> FwNodeSource option \<times> gerror_ptr" where
  "hinawa_fw_node_create_source page self priv gsrc_ok error =
     (if \<not> gsrc_ok \<or> \<not> error_unset error then (False, None, error)
      else if fd priv < 0 then
        (False, None, g_set_error error (node_local_error HINAWA_FW_NODE_ERROR_NOT_OPENED))
      else (True, Some \<lparr>src_self = self, src_len = page, src_buf = g_malloc0 page\<rparr>, error))"

definition finalize_src :: "FwNodeSource \<Rightarrow> FwNodeSource" where
  "finalize_src src = src\<lparr>src_buf := None\<rparr>"

text \<open>The poll condition: input available, error.\<close>

definition check_src :: "bool \<Rightarrow> bool \<Rightarrow> bool" where
  "check_src io_in io_err = (io_in \<or> io_err)"

subsection \<open>Dispatching an event\<close>

text \<open>The handler that an emission of \<open>requested\<close> on an FCP object runs.\<close>

definition fcp_requested :: "fw_constants \<Rightarrow> node_record \<Rightarrow>
    requested \<Rightarrow> HinawaFwFcp \<times> nodes \<Rightarrow> (u32 \<times> HinawaFwFcp \<times> nodes) run" where
  "fcp_requested c uninit sig st =
     bind_run (handle_requested_signal c uninit sig (fst st) (snd st)) (\<lambda>(rcode, self).
       Ret (rcode, self, snd st))"

text \<open>The \<open>switch\<close> on the type of an event for a responder.\<close>

definition handle_resp_event ::
    "environment \<Rightarrow> 'a requested_emission \<Rightarrow> fw_cdev_event \<Rightarrow> 'a HinawaFwResp_scheme \<times> nodes \<Rightarrow>
     (('a HinawaFwResp_scheme \<times> nodes) \<times> fw_ioctl list) run" where
  "handle_resp_event env E event st =
     (case event of
        FW_CDEV_EVENT_REQUEST e \<Rightarrow>
          hinawa_fw_resp_handle_request (env_constants env) (env_ioctl env) E e st
      | FW_CDEV_EVENT_REQUEST2 e \<Rightarrow>
          hinawa_fw_resp_handle_request2 (env_constants env) (env_ioctl env) E e st
      | FW_CDEV_EVENT_REQUEST3 e \<Rightarrow>
          hinawa_fw_resp_handle_request3 (env_constants env) (env_ioctl env) E e st
      | _ \<Rightarrow> Ret (st, []))"

definition handle_resp_object ::
    "environment \<Rightarrow> fw_cdev_event \<Rightarrow> obj_id \<Rightarrow> objects \<Rightarrow>
     (objects \<times> emission list \<times> fw_ioctl list) run" where
  "handle_resp_object env event p objs =
     (case obj_fcps objs p of
        Some f \<Rightarrow>
          bind_run
            (handle_resp_event env (fcp_requested (env_constants env) (env_uninit_record env)) event
               (f, obj_nodes objs))
            (\<lambda>((f, ns), io). Ret (objs\<lparr>obj_nodes := ns, obj_fcps := (obj_fcps objs)(p \<mapsto> f)\<rparr>, [], io))
      | None \<Rightarrow>
          (case obj_resps objs p of
             Some r \<Rightarrow>
               bind_run (handle_resp_event env (env_requested env p) event (r, obj_nodes objs))
                 (\<lambda>((r, ns), io).
                   Ret (objs\<lparr>obj_nodes := ns, obj_resps := (obj_resps objs)(p \<mapsto> r)\<rparr>, [], io))
           | None \<Rightarrow> Fault Dangling))"

text \<open>An event for a request: nothing happens unless the request is outstanding on the node.\<close>

definition handle_req_object ::
    "fw_cdev_event \<Rightarrow> obj_id \<Rightarrow> HinawaFwNode \<Rightarrow> HinawaFwNode \<times> emission list" where
  "handle_req_object event p priv =
     (if p \<in> set (transactions priv) then
        (priv\<lparr>transactions := remove1 p (transactions priv)\<rparr>,
         (case event of
            FW_CDEV_EVENT_RESPONSE e \<Rightarrow> [Req_Responded p (hinawa_fw_req_handle_response e)]
          | FW_CDEV_EVENT_RESPONSE2 e \<Rightarrow> [Req_Responded p (hinawa_fw_req_handle_response2 e)]
          | _ \<Rightarrow> []))
      else (priv, []))"

definition is_bus_reset :: "fw_cdev_event \<Rightarrow> bool" where
  "is_bus_reset event = (case event of FW_CDEV_EVENT_BUS_RESET _ \<Rightarrow> True | _ \<Rightarrow> False)"

definition put_node :: "obj_id \<Rightarrow> HinawaFwNode \<Rightarrow> objects \<Rightarrow> objects" where
  "put_node self n objs = objs\<lparr>obj_nodes := (obj_nodes objs)(self \<mapsto> n)\<rparr>"

text \<open>The part of \<open>dispatch_src\<close> after an event has been read, on the node \<open>self\<close> of the source with the
  state \<open>priv\<close>.\<close>

definition dispatch_event ::
    "environment \<Rightarrow> obj_id \<Rightarrow> HinawaFwNode \<Rightarrow> fw_cdev_event \<Rightarrow> objects \<Rightarrow>
     (objects \<times> emission list \<times> fw_ioctl list) run" where
  "dispatch_event env self priv event objs =
     bind_run (object_type_of objs (event_closure event)) (\<lambda>ty.
       if ty = FW_NODE \<and> is_bus_reset event then
         bind_run (handle_update (env_little_endian env) (env_get_info env) self priv) (\<lambda>priv.
           Ret (put_node self priv objs, [Bus_Update self], []))
       else if ty = FW_RESP then handle_resp_object env event (event_closure event) objs
       else if ty = FW_REQ then
         let (priv, sigs) = handle_req_object event (event_closure event) priv
         in Ret (put_node self priv objs, sigs, [])
       else Ret (objs, [], []))"

definition env_abi :: "environment \<Rightarrow> abi" where
  "env_abi env = \<lparr>little_endian = env_little_endian env, u64_align = env_u64_align env\<rparr>"

text \<open>\<open>io_err\<close> is the poll condition, \<open>sys_read\<close> what \<open>read\<close> gives for a descriptor and a count: errno, or
  the bytes it stores at the start of the buffer. The first component of the result is whether the
  source continues (\<open>G_SOURCE_CONTINUE\<close>). The number of bytes read is not looked at: what they do not
  overwrite is left from earlier events.\<close>

definition dispatch_src ::
    "environment \<Rightarrow> FwNodeSource \<Rightarrow> bool \<Rightarrow> (int \<Rightarrow> nat \<Rightarrow> int + bytes) \<Rightarrow> objects \<Rightarrow>
     (bool \<times> FwNodeSource \<times> objects \<times> emission list \<times> fw_ioctl list) run" where
  "dispatch_src env src io_err sys_read objs =
     (case obj_nodes objs (src_self src) of
        None \<Rightarrow> Fault Dangling
      | Some priv \<Rightarrow>
        if fd priv < 0 then Ret (False, src, objs, [], [])
        else if io_err then Ret (False, src, objs, [Disconnected (src_self src)], [])
        else
          (case sys_read (fd priv) (src_len src) of
             Inl errno \<Rightarrow> Ret (errno = EAGAIN, src, objs, [], [])
           | Inr bs \<Rightarrow>
               (case src_buf src of
                  None \<Rightarrow> Fault Dangling
                | Some buf \<Rightarrow>
                    bind_run (memcpy buf bs (length bs)) (\<lambda>buf.
                    bind_run (decode_event (env_abi env) buf) (\<lambda>event.
                    bind_run (dispatch_event env (src_self src) priv event objs) (\<lambda>(objs, sigs, io).
                      Ret (True, src\<lparr>src_buf := Some buf\<rparr>, objs, sigs, io)))))))"

text \<open>The same at the level of events: \<open>sys_read\<close> gives the event that the buffer holds after \<open>read\<close>.\<close>

definition dispatch_decoded ::
    "environment \<Rightarrow> FwNodeSource \<Rightarrow> bool \<Rightarrow> (int \<Rightarrow> nat \<Rightarrow> int + fw_cdev_event) \<Rightarrow> objects \<Rightarrow>
     (bool \<times> objects \<times> emission list \<times> fw_ioctl list) run" where
  "dispatch_decoded env src io_err sys_read objs =
     (case obj_nodes objs (src_self src) of
        None \<Rightarrow> Fault Dangling
      | Some priv \<Rightarrow>
        if fd priv < 0 then Ret (False, objs, [], [])
        else if io_err then Ret (False, objs, [Disconnected (src_self src)], [])
        else
          (case sys_read (fd priv) (src_len src) of
             Inl errno \<Rightarrow> Ret (errno = EAGAIN, objs, [], [])
           | Inr event \<Rightarrow>
               bind_run (dispatch_event env (src_self src) priv event objs) (\<lambda>(objs, sigs, io).
                 Ret (True, objs, sigs, io))))"

text \<open>Several events, each read by a dispatch of its own.\<close>

primrec dispatch_all ::
    "environment \<Rightarrow> FwNodeSource \<Rightarrow> fw_cdev_event list \<Rightarrow> objects \<Rightarrow>
     (objects \<times> emission list \<times> fw_ioctl list) run" where
  "dispatch_all env src [] objs = Ret (objs, [], [])"
| "dispatch_all env src (event # events) objs =
     bind_run (dispatch_decoded env src False (\<lambda>_ _. Inr event) objs) (\<lambda>(continue, objs, sigs, io).
       bind_run (dispatch_all env src events objs) (\<lambda>(objs, sigs', io').
         Ret (objs, sigs @ sigs', io @ io')))"

subsection \<open>Responses to requests\<close>

lemma put_node_sel [simp]:
  "obj_nodes (put_node self n objs) = (obj_nodes objs)(self \<mapsto> n)"
  "obj_resps (put_node self n objs) = obj_resps objs"
  "obj_fcps (put_node self n objs) = obj_fcps objs"
  "obj_reqs (put_node self n objs) = obj_reqs objs"
  by (simp_all add: put_node_def)

lemma put_node_put [simp]: "put_node self n (put_node self m objs) = put_node self n objs"
  unfolding put_node_def by simp

lemma put_node_same: "obj_nodes objs self = Some n \<Longrightarrow> put_node self n objs = objs"
  unfolding put_node_def by (simp only: map_upd_triv) simp

text \<open>The object at \<open>p\<close> is a live request.\<close>

definition live_request :: "objects \<Rightarrow> obj_id \<Rightarrow> bool" where
  "live_request objs p \<longleftrightarrow> p \<noteq> 0 \<and> obj_nodes objs p = None \<and> obj_resps objs p = None \<and>
     obj_fcps objs p = None \<and> obj_reqs objs p"

text \<open>An opened node behind the source.\<close>

definition opened :: "objects \<Rightarrow> obj_id \<Rightarrow> bool" where
  "opened objs self \<longleftrightarrow> (case obj_nodes objs self of None \<Rightarrow> False | Some n \<Rightarrow> 0 \<le> fd n)"

lemma openedE:
  assumes "opened objs self"
  obtains n where "obj_nodes objs self = Some n" "0 \<le> fd n"
  using assms by (auto simp: opened_def split: option.splits)

lemma dispatch_event_read:
  assumes "obj_nodes objs (src_self src) = Some n" and "0 \<le> fd n"
  shows "dispatch_decoded env src False (\<lambda>_ _. Inr event) objs =
    bind_run (dispatch_event env (src_self src) n event objs) (\<lambda>(objs, sigs, io).
      Ret (True, objs, sigs, io))"
  using assms by (simp add: dispatch_decoded_def)

lemma live_request_type: "live_request objs p \<Longrightarrow> object_type_of objs p = Ret FW_REQ"
  by (simp add: live_request_def object_type_of_def)

lemma dispatch_response:
  assumes "obj_nodes objs (src_self src) = Some n" and "0 \<le> fd n" and "live_request objs p"
    and "event_closure event = p"
  shows "dispatch_decoded env src False (\<lambda>_ _. Inr event) objs =
    Ret (True, put_node (src_self src) (fst (handle_req_object event p n)) objs,
      snd (handle_req_object event p n), [])"
  using assms
  by (simp add: dispatch_event_read dispatch_event_def live_request_type split_beta)

text \<open>The node after \<open>k\<close> responses to \<open>p\<close> were dispatched.\<close>

definition forget_times :: "nat \<Rightarrow> obj_id \<Rightarrow> HinawaFwNode \<Rightarrow> HinawaFwNode" where
  "forget_times k p = hinawa_fw_node_invalidate_transaction p ^^ k"

lemma forget_times_Suc:
  "forget_times (Suc k) p n = forget_times k p (hinawa_fw_node_invalidate_transaction p n)"
  by (simp add: forget_times_def funpow_swap1)

lemma handle_req_object_eq:
  "fst (handle_req_object event p n) = hinawa_fw_node_invalidate_transaction p n"
  by (simp add: handle_req_object_def hinawa_fw_node_invalidate_transaction_def)

lemma count_forget:
  "count_list (transactions (hinawa_fw_node_invalidate_transaction p n)) p =
   count_list (transactions n) p - 1"
  by (simp add: node_reg.pending_forget flip: count_mset)

lemma dispatch_responses:
  assumes "obj_nodes objs (src_self src) = Some n" and "0 \<le> fd n" and "live_request objs p"
    and "list_all (\<lambda>e. rs2_closure e = p) es"
  shows "dispatch_all env src (map FW_CDEV_EVENT_RESPONSE2 es) objs =
    Ret (put_node (src_self src) (forget_times (length es) p n) objs,
      map (\<lambda>e. Req_Responded p (hinawa_fw_req_handle_response2 e))
        (take (count_list (transactions n) p) es), [])"
  using assms
proof (induction es arbitrary: objs n)
  case Nil
  then show ?case by (simp add: put_node_same forget_times_def)
next
  case (Cons e es)
  let ?n = "hinawa_fw_node_invalidate_transaction p n"
  let ?objs = "put_node (src_self src) ?n objs"
  have self: "src_self src \<noteq> p" using Cons.prems by (auto simp: live_request_def)
  have fd: "0 \<le> fd ?n" using Cons.prems(2) by (simp add: hinawa_fw_node_invalidate_transaction_def)
  have live: "live_request ?objs p" using Cons.prems(3) self by (simp add: live_request_def)
  have first: "dispatch_decoded env src False (\<lambda>_ _. Inr (FW_CDEV_EVENT_RESPONSE2 e)) objs =
      Ret (True, ?objs, if p \<in> set (transactions n)
        then [Req_Responded p (hinawa_fw_req_handle_response2 e)] else [], [])"
    using dispatch_response [OF Cons.prems(1-3), of "FW_CDEV_EVENT_RESPONSE2 e" env] Cons.prems(4)
    by (simp add: handle_req_object_eq) (simp add: handle_req_object_def)
  have rest: "dispatch_all env src (map FW_CDEV_EVENT_RESPONSE2 es) ?objs =
      Ret (put_node (src_self src) (forget_times (length es) p ?n) ?objs,
        map (\<lambda>e. Req_Responded p (hinawa_fw_req_handle_response2 e))
          (take (count_list (transactions n) p - 1) es), [])"
    using Cons.IH [OF _ fd live] Cons.prems(4) by (simp add: count_forget)
  show ?case
  proof (cases "p \<in> set (transactions n)")
    case True
    then obtain k where "count_list (transactions n) p = Suc k"
      by (metis count_list_0_iff not0_implies_Suc)
    with True first rest show ?thesis by (simp add: forget_times_Suc)
  next
    case False
    then have "count_list (transactions n) p = 0" by (simp add: count_list_0_iff)
    with False first rest show ?thesis by (simp add: forget_times_Suc)
  qed
qed

text \<open>Responses that arrive for a live request: as long as the request is outstanding on the node,
  each one emits \<open>responded\<close> on it exactly once, with the code, time stamps and data of the event,
  and ends one registration; from then on, in particular after the request was invalidated because
  its caller's deadline had passed, further responses are dropped.\<close>

lemma dispatch_responses_delivered:
  assumes "obj_nodes objs (src_self src) = Some n" and "0 \<le> fd n" and "live_request objs p"
    and "list_all (\<lambda>e. rs2_closure e = p) es"
  shows "\<exists>objs'. dispatch_all env src (map FW_CDEV_EVENT_RESPONSE2 es) objs =
    Ret (objs', map (\<lambda>e. Req_Responded p
        \<lparr>rp_rcode = rs2_rcode e, rp_request_tstamp = rs2_request_tstamp e,
         rp_response_tstamp = rs2_response_tstamp e, rp_frame = rs2_data e,
         rp_frame_size = rs2_length e\<rparr>)
      (take (count_list (transactions n) p) es), []) \<and>
    (\<exists>n'. obj_nodes objs' (src_self src) = Some n' \<and>
       count_list (transactions n') p = count_list (transactions n) p - length es)"
proof -
  have "count_list (transactions (forget_times k p m)) p = count_list (transactions m) p - k" for k m
    by (induction k arbitrary: m) (simp_all add: forget_times_Suc count_forget, simp add: forget_times_def)
  with dispatch_responses [OF assms, of env] show ?thesis
    by (simp add: hinawa_fw_req_handle_response2_def)
qed

text \<open>Closed instances: a source on an opened node, a live request.\<close>

definition sample_env :: environment where
  "sample_env = \<lparr>env_constants = numbered_constants, env_ioctl = granting_kernel,
     env_get_info = (\<lambda>_ _. Inl ENODEV), env_little_endian = True, env_u64_align = 8,
     env_uninit_record = zero_record, env_requested = (\<lambda>_. no_handler)\<rparr>"

definition sample_src :: FwNodeSource where
  "sample_src = \<lparr>src_self = 2, src_len = 4096, src_buf = Some (replicate 4096 0)\<rparr>"

definition sample_objects :: objects where
  "sample_objects = \<lparr>obj_nodes = [2 \<mapsto> hinawa_fw_node_init\<lparr>fd := 3, transactions := [9]\<rparr>],
     obj_resps = [7 \<mapsto> sample_resp], obj_fcps = Map.empty, obj_reqs = (\<lambda>p. p = 9)\<rparr>"

definition sample_response2 :: "u32 \<Rightarrow> fw_cdev_event_response2" where
  "sample_response2 rcode = \<lparr>rs2_closure = 9, rs2_rcode = rcode, rs2_length = 2,
     rs2_request_tstamp = 0x10, rs2_response_tstamp = 0x12, rs2_data = [1, 2, 0, 0]\<rparr>"

text \<open>The check that a request is outstanding comes after the type checks on the closure. A late
  response for a request object that has been freed meanwhile, as \<open>hinawa_fw_fcp_command\<close> frees its
  own after a timeout, makes the dispatcher read the type of the freed object, although the request
  is outstanding no more.\<close>

lemma dispatch_late_response:
  assumes "opened objs (src_self src)" and "rs2_closure e \<noteq> 0"
    and "obj_nodes objs (rs2_closure e) = None" and "obj_resps objs (rs2_closure e) = None"
    and "obj_fcps objs (rs2_closure e) = None" and "\<not> obj_reqs objs (rs2_closure e)"
  shows "dispatch_decoded env src False (\<lambda>_ _. Inr (FW_CDEV_EVENT_RESPONSE2 e)) objs = Fault Dangling"
proof -
  obtain n where "obj_nodes objs (src_self src) = Some n" "0 \<le> fd n" using assms(1) by (rule openedE)
  with assms show ?thesis
    by (simp add: dispatch_event_read dispatch_event_def object_type_of_def)
qed

subsection \<open>Requests, bus resets and the end of the source\<close>

text \<open>A bus reset makes the node read its information again, whatever node the closure names, and
  emits \<open>bus-update\<close> whether that succeeded or not: with a kernel that keeps its documented bounds the
  node stays well-formed with its descriptor and its outstanding requests, its cached generation is
  the one the kernel reports now, and a failure leaves it as it was.\<close>

lemma dispatch_bus_reset:
  assumes "obj_nodes objs (src_self src) = Some n" and "node_ok n" and "0 \<le> fd n"
    and "info_ok (env_get_info env)"
    and "br_closure e \<noteq> 0" and "obj_nodes objs (br_closure e) \<noteq> None"
  shows "\<exists>objs' n'. dispatch_decoded env src False (\<lambda>_ _. Inr (FW_CDEV_EVENT_BUS_RESET e)) objs =
      Ret (True, objs', [Bus_Update (src_self src)], []) \<and>
    obj_nodes objs' (src_self src) = Some n' \<and> node_ok n' \<and> fd n' = fd n \<and>
    transactions n' = transactions n \<and>
    (case env_get_info env (fd n) (info_request (src_self src)) of
       Inl _ \<Rightarrow> n' = n
     | Inr reply \<Rightarrow> generation n' = ir_bus_reset reply \<and> card_id n' = ir_card reply)"
proof -
  obtain err n' where u: "update_info (env_little_endian env) (env_get_info env) (src_self src) n =
      Ret (err, n')" "node_ok n'" "fd n' = fd n" "transactions n' = transactions n"
    using update_info_ok [OF assms(2,4)] by metis
  have "case env_get_info env (fd n) (info_request (src_self src)) of
       Inl _ \<Rightarrow> n' = n
     | Inr reply \<Rightarrow> generation n' = ir_bus_reset reply \<and> card_id n' = ir_card reply"
    using u(1) by (auto simp: update_info_def Let_def run_simps split: sum.splits)
  with u assms show ?thesis
    by (simp add: dispatch_event_read dispatch_event_def object_type_of_def is_bus_reset_def
        handle_update_def)
qed

text \<open>When the source is removed: a dispatch without an event touches no object and ends the
  source exactly when the node has no descriptor, the poll reports an error, or \<open>read\<close> fails with
  another errno than \<open>EAGAIN\<close>; only the poll error emits \<open>disconnected\<close>, so a failing \<open>read\<close> ends
  the source silently. A dispatch that reads an event never ends it.\<close>

lemma source_ends_when:
  assumes "obj_nodes objs (src_self src) = Some n"
  shows "(case sys_read (fd n) (src_len src) of
      Inl errno \<Rightarrow>
        dispatch_src env src io_err sys_read objs =
          Ret (0 \<le> fd n \<and> \<not> io_err \<and> errno = EAGAIN, src, objs,
               if 0 \<le> fd n \<and> io_err then [Disconnected (src_self src)] else [], [])
    | Inr bs \<Rightarrow>
        (\<forall>continue src' objs' sigs io.
           dispatch_src env src io_err sys_read objs = Ret (continue, src', objs', sigs, io) \<longrightarrow>
           (continue \<longleftrightarrow> 0 \<le> fd n \<and> \<not> io_err)))"
  using assms by (auto simp: dispatch_src_def run_simps split: sum.split prod.splits option.splits)

lemma source_ends_when_witness:
  "dispatch_src sample_env sample_src False (\<lambda>_ _. Inl ENODEV) sample_objects =
     Ret (False, sample_src, sample_objects, [], [])"
proof -
  have "obj_nodes sample_objects (src_self sample_src) =
      Some (hinawa_fw_node_init\<lparr>fd := 3, transactions := [9]\<rparr>)"
    by (simp add: sample_objects_def sample_src_def)
  from source_ends_when [OF this, where sys_read = "\<lambda>_ _. Inl ENODEV" and env = sample_env and
      io_err = False]
  show ?thesis by simp
qed

subsection \<open>Responses of FCP\<close>

definition response_of_event :: "fw_cdev_event_request3 \<Rightarrow> fcp_responded" where
  "response_of_event e = \<lparr>fr_generation = rq3_generation e, fr_tstamp = rq3_tstamp e,
     fr_frame = rq3_data e, fr_frame_size = rq3_length e\<rparr>"

text \<open>A block write to the address of FCP responses at the card of the bound node, from that node under
  its present identity.\<close>

definition response_event :: "fw_constants \<Rightarrow> HinawaFwFcp \<Rightarrow> HinawaFwNode \<Rightarrow> fw_cdev_event_request3 \<Rightarrow> bool"
  where
  "response_event c f n e \<longleftrightarrow> rq3_offset e = FCP_RESPOND_ADDR \<and>
     rq3_tcode e = TCODE c HINAWA_FW_TCODE_WRITE_BLOCK_REQUEST \<and> rq3_card e = fcp_card_id f \<and>
     rq3_generation e = br_generation (generation n) \<and> rq3_source_node_id e = br_node_id (generation n) \<and>
     rq3_length e \<le> width f"

lemma fcp_cleared_sel [simp]:
  fixes f :: HinawaFwFcp
  shows "history (cleared f) = history f" "fcp_node (cleared f) = fcp_node f"
    "fcp_card_id (cleared f) = fcp_card_id f" "fcp_transactions (cleared f) = fcp_transactions f"
    "stack (cleared f) = stack f" "responded_handlers (cleared f) = responded_handlers f"
  by (simp_all add: cleared_def)

lemma handle_requested_alone:
  assumes hist: "history_ok (history f)" and n: "node_at ns (fcp_node f) = Some n"
    and al: "alone wa w f" and ev: "fcp_event c f sig" "source_record sig = node_identity n"
    and r: "respond_waiter \<lparr>fr_generation = rd_generation sig, fr_tstamp = rd_tstamp sig,
      fr_frame = rd_frame sig, fr_frame_size = rd_length sig\<rparr> w = Ret w'"
  shows "\<exists>h. handle_requested_signal c uninit sig f ns =
    Ret (RCODE c HINAWA_FW_RCODE_COMPLETE, put_waiter wa (f\<lparr>history := h\<rparr>) w')"
proof -
  let ?s = "\<lparr>fr_generation = rd_generation sig, fr_tstamp = rd_tstamp sig,
    fr_frame = rd_frame sig, fr_frame_size = rd_length sig\<rparr>"
  obtain h where acc: "accept_response c uninit sig f ns = Ret (True, f\<lparr>history := h\<rparr>)"
    using accept_response_eq [OF hist n, of c uninit sig] ev by auto
  have "alone wa w (f\<lparr>history := h\<rparr>)" using al by (simp add: alone_def)
  from fcp_act_alone [OF this, of "Responded ?s"] r
  have "emit_responded ?s (f\<lparr>history := h\<rparr>) = Ret (put_waiter wa (f\<lparr>history := h\<rparr>) w')" by simp
  with acc show ?thesis by (intro exI [of _ h]) (simp add: handle_requested_signal_def)
qed

text \<open>From the device to the waiting caller: an FCP response frame of the bound node that the
  dispatcher reads while an AV/C transaction waits alone on the object is copied to the caller's
  buffer with its size, generation and time stamp, the waiter is marked as responded, and the
  request is answered with completion and no data; the source continues.\<close>

lemma dispatch_fcp_response:
  assumes op: "opened objs (src_self src)" and f: "obj_fcps objs p = Some f" "p \<noteq> 0" "obj_nodes objs p = None"
    and sv: "serving (f, obj_nodes objs)" and hist: "history_ok (history f)"
    and n: "node_at (obj_nodes objs) (fcp_node f) = Some n" and al: "alone wa w f"
    and ev: "rq3_closure e = p" "response_event (env_constants env) f n e"
    and rs: "3 \<le> length rs" "unat rsize \<le> length rs" "unat rsize < 2 ^ 32"
    and w: "pending_for cm rs rsize w" "responds gen cm rsize (response_of_event e)"
  shows "\<exists>objs' f'. dispatch_decoded env src False (\<lambda>_ _. Inr (FW_CDEV_EVENT_REQUEST3 e)) objs =
      Ret (True, objs', [], [FW_CDEV_IOC_SEND_RESPONSE
        \<lparr>sp_rcode = RCODE (env_constants env) HINAWA_FW_RCODE_COMPLETE, sp_length = 0, sp_data = None,
         sp_handle = rq3_handle e\<rparr>]) \<and>
    obj_fcps objs' p = Some f' \<and> stack f' wa = Some (answered (response_of_event e) w)"
proof -
  let ?c = "env_constants env" and ?ns = "obj_nodes objs"
  let ?sig = "\<lparr>rd_tcode = rq3_tcode e, rd_offset = rq3_offset e, rd_src_node_id = rq3_source_node_id e,
    rd_dst_node_id = rq3_destination_node_id e, rd_card_id = rq3_card e,
    rd_generation = rq3_generation e, rd_tstamp = rq3_tstamp e, rd_frame = rq3_data e,
    rd_length = rq3_length e\<rparr>"
  let ?w = "answered (response_of_event e) w"
  have "respond_waiter \<lparr>fr_generation = rd_generation ?sig, fr_tstamp = rd_tstamp ?sig,
      fr_frame = rd_frame ?sig, fr_frame_size = rd_length ?sig\<rparr> w = Ret ?w"
    using response_taken [OF w(2,1) rs] by (simp add: response_of_event_def)
  moreover have "alone wa w (cleared f)" using al by (simp add: alone_def)
  moreover have "fcp_event ?c (cleared f) ?sig" "source_record ?sig = node_identity n"
    using ev(2) by (simp_all add: fcp_event_def source_record_def node_identity_def response_event_def)
  ultimately obtain h where h: "handle_requested_signal ?c (env_uninit_record env) ?sig (cleared f) ?ns =
      Ret (RCODE ?c HINAWA_FW_RCODE_COMPLETE, put_waiter wa ((cleared f)\<lparr>history := h\<rparr>) ?w)"
    using handle_requested_alone [of "cleared f" ?ns n wa w ?c ?sig ?w "env_uninit_record env"] hist n
    by auto
  let ?f = "put_waiter wa ((cleared f)\<lparr>history := h\<rparr>) ?w"
  have E: "fcp_requested ?c (env_uninit_record env) ?sig (cleared f, ?ns) =
      Ret (RCODE ?c HINAWA_FW_RCODE_COMPLETE, ?f, ?ns)"
    using h by (simp add: fcp_requested_def)
  have sel: "resp_node ?f = resp_node f" "width ?f = width f" "resp_length ?f = 0" "offset ?f = offset f"
    "resp_frame ?f = resp_frame (cleared f)"
    by (simp_all add: put_waiter_def)
  have sv': "serving (?f, ?ns)"
    using serving_cleared [OF sv] by (auto simp: serving_def resp_ok_def sel split: option.splits)
  have "handle_resp_event env (fcp_requested ?c (env_uninit_record env)) (FW_CDEV_EVENT_REQUEST3 e)
      (f, ?ns) = Ret ((?f, ?ns), [FW_CDEV_IOC_SEND_RESPONSE
        (send_response_arg (RCODE ?c HINAWA_FW_RCODE_COMPLETE) (rq3_handle e) ?f)])"
    using answer_request_eq [where E = "fcp_requested ?c (env_uninit_record env)" and sig = ?sig,
        OF sv _ E sv'] ev(2)
    by (simp add: handle_resp_event_def hinawa_fw_resp_handle_request3_def response_event_def not_less)
  moreover obtain m where "obj_nodes objs (src_self src) = Some m" "0 \<le> fd m" using op by (rule openedE)
  ultimately show ?thesis
    using f ev(1) sel(3)
    by (simp add: dispatch_event_read dispatch_event_def object_type_of_def handle_resp_object_def
        send_response_arg_def)
qed

definition sample_fcp_waiting :: HinawaFwFcp where
  "sample_fcp_waiting = link_waiter 0x7f
     \<lparr>fw_state = WAITER_STATE_PENDING, fw_generation = 0,
      fw_frame = 0xff # 0xff # 0x19 # drop 3 (replicate 8 0), fw_frame_size = 8,
      fw_tstamp = G_MAXUINT\<rparr> sample_fcp"

definition sample_fcp_response :: fw_cdev_event_request3 where
  "sample_fcp_response =
     \<lparr>rq3_closure = 7, rq3_tcode = 1, rq3_offset = FCP_RESPOND_ADDR, rq3_source_node_id = 0xffc1,
      rq3_destination_node_id = 0xffc0, rq3_card = 1, rq3_generation = 6, rq3_handle = 42,
      rq3_length = 4, rq3_tstamp = 0x345, rq3_data = [0x0c, 0xff, 0x19, 0x07]\<rparr>"

end
