(* ===== verification/Fw_System.thy ===== *)
theory Fw_System
  imports Fw_Dispatch
begin

text \<open>
  The objects of a process together: which states of nodes, responders and FCP objects the library
  keeps between two events (\<open>system_ok\<close>), and that dispatching preserves them, faults nowhere and
  answers every request. The handlers that users connect to \<open>requested\<close> are a parameter of the model
  (\<open>env_requested\<close>); what is relied on of them is \<open>handler_ok\<close>.
\<close>

subsection \<open>Nodes that stay\<close>

text \<open>From one store of nodes to another, every node stays, open if it was open, well-formed if it was
  well-formed; \<open>nodes_kept\<close>: and there are no new ones.\<close>

definition nodes_grow :: "nodes \<Rightarrow> nodes \<Rightarrow> bool" where
  "nodes_grow ns ns' \<longleftrightarrow> (\<forall>a n. ns a = Some n \<longrightarrow>
     (\<exists>n'. ns' a = Some n' \<and> (0 \<le> fd n \<longrightarrow> 0 \<le> fd n') \<and> (node_ok n \<longrightarrow> node_ok n')))"

definition nodes_kept :: "nodes \<Rightarrow> nodes \<Rightarrow> bool" where
  "nodes_kept ns ns' \<longleftrightarrow> nodes_grow ns ns' \<and> dom ns' = dom ns"

lemma nodes_grow_refl [simp]: "nodes_grow ns ns"
  by (simp add: nodes_grow_def)

lemma nodes_kept_refl [simp]: "nodes_kept ns ns"
  by (simp add: nodes_kept_def)

lemma nodes_kept_grow: "nodes_kept ns ns' \<Longrightarrow> nodes_grow ns ns'"
  by (simp add: nodes_kept_def)

lemma nodes_kept_dom: "nodes_kept ns ns' \<Longrightarrow> ns' a = None \<longleftrightarrow> ns a = None"
  unfolding nodes_kept_def by (metis domIff)

lemma nodes_growE:
  assumes "nodes_grow ns ns'" and "ns a = Some n"
  obtains n' where "ns' a = Some n'" "0 \<le> fd n \<Longrightarrow> 0 \<le> fd n'" "node_ok n \<Longrightarrow> node_ok n'"
  using assms unfolding nodes_grow_def by blast

lemma nodes_grow_put:
  assumes "\<And>n. ns a = Some n \<Longrightarrow> (0 \<le> fd n \<longrightarrow> 0 \<le> fd n') \<and> (node_ok n \<longrightarrow> node_ok n')"
  shows "nodes_grow ns (ns(a \<mapsto> n'))"
  using assms by (auto simp: nodes_grow_def)

lemma nodes_kept_put:
  assumes "ns a = Some n" and "0 \<le> fd n \<Longrightarrow> 0 \<le> fd n'" and "node_ok n \<Longrightarrow> node_ok n'"
  shows "nodes_kept ns (ns(a \<mapsto> n'))"
  using assms by (auto simp: nodes_kept_def nodes_grow_def)

lemma serving_grow:
  assumes "nodes_grow ns ns'" and "serving (r, ns)"
  shows "serving (r, ns')"
proof -
  obtain n where n: "node_at ns (resp_node r) = Some n" "0 \<le> fd n" "resp_ok r" "resp_node r \<noteq> None"
    using assms(2) by (rule servingE)
  then obtain a where a: "resp_node r = Some a" "ns a = Some n" by (auto simp: node_at_def)
  from nodes_growE [OF assms(1) a(2)] obtain n' where "ns' a = Some n'" "0 \<le> fd n \<Longrightarrow> 0 \<le> fd n'" by blast
  with n a show ?thesis by (simp add: serving_def node_at_def)
qed

subsection \<open>States between two events\<close>

text \<open>A responder either holds a range on an opened node or was released.\<close>

definition resp_live :: "nodes \<Rightarrow> 'a HinawaFwResp_scheme \<Rightarrow> bool" where
  "resp_live ns r \<longleftrightarrow> (if resp_node r = None then resp_ok r else serving (r, ns))"

text \<open>A waiter whose buffer holds a frame of FCP of any size, and declares no more than it holds.\<close>

definition waiter_roomy :: "fcp_waiter \<Rightarrow> bool" where
  "waiter_roomy w \<longleftrightarrow> 0x200 \<le> length (fw_frame w) \<and> unat (fw_frame_size w) \<le> length (fw_frame w)"

definition waiters_roomy :: "obj_id list \<Rightarrow> (obj_id \<Rightarrow> fcp_waiter option) \<Rightarrow> bool" where
  "waiters_roomy as ws \<longleftrightarrow>
     list_all (\<lambda>a. case ws a of None \<Rightarrow> False | Some w \<Rightarrow> waiter_roomy w) as"

text \<open>The list of waiters of an FCP object leads to waiters that are alive, each once.\<close>

definition waiters_ok :: "HinawaFwFcp \<Rightarrow> bool" where
  "waiters_ok f \<longleftrightarrow> distinct (fcp_transactions f) \<and> waiters_roomy (fcp_transactions f) (stack f)"

text \<open>A bound FCP object listens to at most 512 bytes, its history is in order, and its node exists.\<close>

definition fcp_bound :: "HinawaFwFcp \<times> nodes \<Rightarrow> bool" where
  "fcp_bound st \<longleftrightarrow> (let (f, ns) = st in
     serving (f, ns) \<and> unat (width f) \<le> 0x200 \<and> history_ok (history f) \<and>
     (case node_at ns (fcp_node f) of None \<Rightarrow> False | Some n \<Rightarrow> True) \<and> waiters_ok f)"

definition fcp_live :: "nodes \<Rightarrow> HinawaFwFcp \<Rightarrow> bool" where
  "fcp_live ns f \<longleftrightarrow> (if resp_node f = None then resp_ok f \<and> waiters_ok f else fcp_bound (f, ns))"

text \<open>What is relied on of the handlers of a responder: they return, leave the responder with a range
  on an opened node, and close no node.\<close>

definition handler_ok :: "'a requested_emission \<Rightarrow> bool" where
  "handler_ok E \<longleftrightarrow> (\<forall>sig st. serving st \<longrightarrow>
     (\<exists>ret st'. E sig st = Ret (ret, st') \<and> serving st' \<and> nodes_kept (snd st) (snd st')))"

definition system_ok :: "environment \<Rightarrow> objects \<Rightarrow> bool" where
  "system_ok env objs \<longleftrightarrow>
     (\<forall>a n. obj_nodes objs a = Some n \<longrightarrow> node_ok n) \<and>
     (\<forall>p r. obj_resps objs p = Some r \<longrightarrow>
        resp_live (obj_nodes objs) r \<and> handler_ok (env_requested env p)) \<and>
     (\<forall>p f. obj_fcps objs p = Some f \<longrightarrow> fcp_live (obj_nodes objs) f)"

lemma resp_live_grow: "nodes_grow ns ns' \<Longrightarrow> resp_live ns r \<Longrightarrow> resp_live ns' r"
  by (auto simp: resp_live_def serving_grow split: if_splits)

lemma fcp_bound_grow:
  assumes "nodes_grow ns ns'" and "fcp_bound (f, ns)"
  shows "fcp_bound (f, ns')"
proof -
  obtain a n where "fcp_node f = Some a" "ns a = Some n"
    using assms(2) by (auto simp: fcp_bound_def node_at_def split: option.splits)
  moreover obtain n' where "ns' a = Some n'"
    using nodes_growE [OF assms(1) \<open>ns a = Some n\<close>] by blast
  ultimately show ?thesis
    using assms by (simp add: fcp_bound_def node_at_def serving_grow [OF assms(1)])
qed

lemma fcp_live_grow: "nodes_grow ns ns' \<Longrightarrow> fcp_live ns f \<Longrightarrow> fcp_live ns' f"
  by (auto simp: fcp_live_def fcp_bound_grow split: if_splits)

subsection \<open>Answering\<close>

text \<open>An emission that keeps a predicate on the object and the nodes, for the given arguments.\<close>

definition emission_keeps ::
    "('a HinawaFwResp_scheme \<times> nodes \<Rightarrow> bool) \<Rightarrow> requested \<Rightarrow> 'a requested_emission \<Rightarrow> bool" where
  "emission_keeps P sig E \<longleftrightarrow> (\<forall>st. P st \<longrightarrow> unat (rd_length sig) \<le> unat (width (fst st)) \<longrightarrow>
     (\<exists>ret st'. E sig st = Ret (ret, st') \<and> P st' \<and> nodes_kept (snd st) (snd st')))"

lemma answer_request_keeps:
  assumes keeps: "emission_keeps P sig E"
    and serv: "\<And>st. P st \<Longrightarrow> serving st"
    and clear: "\<And>r ns. P (r, ns) \<Longrightarrow> P (cleared r, ns)"
    and P: "P (r, ns)"
  shows "\<exists>r' ns' resp. answer_request c K E sig handle (r, ns) =
      Ret ((r', ns'), [FW_CDEV_IOC_SEND_RESPONSE resp]) \<and> P (r', ns') \<and> nodes_kept ns ns' \<and>
      sp_handle resp = handle \<and> response_payload_ok resp"
proof (cases "width r < rd_length sig")
  case True
  with serv [OF P] clear [OF P] show ?thesis
    by (simp add: answer_request_conflict response_payload_ok_def)
next
  case False
  then have "unat (rd_length sig) \<le> unat (width (cleared r))" by (simp add: word_le_nat_alt not_less)
  with keeps clear [OF P] obtain ret r' ns' where
    E: "E sig (cleared r, ns) = Ret (ret, r', ns')" "P (r', ns')" "nodes_kept ns ns'"
    unfolding emission_keeps_def by (metis fst_conv snd_conv surj_pair)
  have "resp_ok r'" using serv [OF E(2)] by (simp add: serving_def)
  with E False serv [OF P] serv [OF E(2)] show ?thesis
    by (simp add: answer_request_eq send_response_payload_ok) (simp add: send_response_arg_def)
qed

lemma answer_request_released:
  assumes "resp_ok r" and "resp_node r = None"
  shows "answer_request c K E sig handle (r, ns) = Ret ((cleared r, ns), [])"
  using assms by (simp add: answer_request_def clear_frame_ok ioctl_at_none node_at_def cleared_def Let_def)

subsection \<open>Response frames for waiters\<close>

lemma respond_waiter_roomy:
  assumes "waiter_roomy w" and "3 \<le> length (fr_frame s)"
    and "unat (fr_frame_size s) \<le> length (fr_frame s)" and "unat (fr_frame_size s) \<le> 0x200"
  shows "\<exists>w'. respond_waiter s w = Ret w' \<and> waiter_roomy w'"
proof -
  have len: "length (fw_frame w) \<ge> 3" using assms(1) by (simp add: waiter_roomy_def)
  obtain same where same: "frames_match (fw_frame w) (fr_frame s) = Ret same"
    using len assms(2)
    by (cases "fw_frame w ! 1 = fr_frame s ! 1") (auto simp: frames_match_def read_at_def)
  show ?thesis
  proof (cases "same \<and> fr_frame_size s \<le> fw_frame_size w")
    case True
    have "unat (fr_frame_size s) \<le> length (fw_frame w)" using assms by (simp add: waiter_roomy_def)
    with True same assms show ?thesis
      by (simp add: respond_waiter_def memcpy_ok waiter_roomy_def)
  next
    case False
    with same assms show ?thesis by (auto simp: respond_waiter_def waiter_roomy_def)
  qed
qed

lemma each_waiter_roomy:
  assumes "waiters_roomy as ws" and "\<And>w. waiter_roomy w \<Longrightarrow> \<exists>w'. f w = Ret w' \<and> waiter_roomy w'"
  shows "\<exists>ws'. each_waiter f as ws = Ret ws' \<and> (\<forall>bs. waiters_roomy bs ws \<longrightarrow> waiters_roomy bs ws')"
  using assms(1)
proof (induction as arbitrary: ws)
  case Nil
  then show ?case by simp
next
  case (Cons a as)
  then obtain w where w: "ws a = Some w" "waiter_roomy w"
    by (auto simp: waiters_roomy_def split: option.splits)
  obtain w' where w': "f w = Ret w'" "waiter_roomy w'" using assms(2) [OF w(2)] by blast
  have upd: "waiters_roomy bs (ws(a \<mapsto> w'))" if "waiters_roomy bs ws" for bs
    using that w'(2) by (auto simp: waiters_roomy_def list_all_iff)
  moreover have "waiters_roomy as ws" using Cons.prems by (simp add: waiters_roomy_def)
  ultimately obtain ws' where "each_waiter f as (ws(a \<mapsto> w')) = Ret ws'"
    "\<forall>bs. waiters_roomy bs (ws(a \<mapsto> w')) \<longrightarrow> waiters_roomy bs ws'"
    using Cons.IH by blast
  with upd w w' show ?case by (auto simp del: fun_upd_apply)
qed

lemma emit_times_roomy:
  assumes "waiters_roomy (fcp_transactions f) (stack f)" and "3 \<le> length (fr_frame s)"
    and "unat (fr_frame_size s) \<le> length (fr_frame s)" and "unat (fr_frame_size s) \<le> 0x200"
  shows "\<exists>ws. emit_times k s f = Ret (f\<lparr>stack := ws\<rparr>) \<and> waiters_roomy (fcp_transactions f) ws"
  using assms(1)
proof (induction k arbitrary: f)
  case 0
  then show ?case by (intro exI [of _ "stack f"]) simp
next
  case (Suc k)
  obtain ws where ws: "each_waiter (respond_waiter s) (fcp_transactions f) (stack f) = Ret ws"
    "waiters_roomy (fcp_transactions f) ws"
    using each_waiter_roomy [OF Suc.prems, of "respond_waiter s"] respond_waiter_roomy assms(2-4) Suc.prems
    by meson
  with Suc.IH [of "f\<lparr>stack := ws\<rparr>"] show ?case by (simp add: handle_responded_signal_def)
qed

lemma fcp_bound_serving: "fcp_bound st \<Longrightarrow> serving st"
  by (auto simp: fcp_bound_def)

lemma fcp_bound_cleared: "fcp_bound (f, ns) \<Longrightarrow> fcp_bound (cleared f, ns)"
  by (auto simp: fcp_bound_def serving_cleared waiters_ok_def)

text \<open>What an FCP object adds to a responder does not matter to the responder.\<close>

lemma resp_ok_fcp_fields [simp]:
  fixes f :: HinawaFwFcp
  shows "resp_ok (f\<lparr>fcp_node := p\<rparr>) = resp_ok f" "resp_ok (f\<lparr>fcp_card_id := i\<rparr>) = resp_ok f"
    "resp_ok (f\<lparr>fcp_transactions := as\<rparr>) = resp_ok f" "resp_ok (f\<lparr>history := h\<rparr>) = resp_ok f"
    "resp_ok (f\<lparr>stack := ws\<rparr>) = resp_ok f" "resp_ok (f\<lparr>responded_handlers := k\<rparr>) = resp_ok f"
  by (cases "resp_frame f"; simp add: resp_ok_def)+

lemma serving_fcp_fields [simp]:
  fixes f :: HinawaFwFcp
  shows "serving (f\<lparr>fcp_node := p\<rparr>, ns) = serving (f, ns)" "serving (f\<lparr>fcp_card_id := i\<rparr>, ns) = serving (f, ns)"
    "serving (f\<lparr>fcp_transactions := as\<rparr>, ns) = serving (f, ns)" "serving (f\<lparr>history := h\<rparr>, ns) = serving (f, ns)"
    "serving (f\<lparr>stack := ws\<rparr>, ns) = serving (f, ns)" "serving (f\<lparr>responded_handlers := k\<rparr>, ns) = serving (f, ns)"
  by (simp_all add: serving_def)

lemma fcp_requested_keeps:
  assumes "3 \<le> length (rd_frame sig)" and "unat (rd_length sig) \<le> length (rd_frame sig)"
  shows "emission_keeps fcp_bound sig (fcp_requested c uninit)"
proof (unfold emission_keeps_def, intro allI impI)
  fix st :: "HinawaFwFcp \<times> nodes"
  assume st: "fcp_bound st" and len: "unat (rd_length sig) \<le> unat (width (fst st))"
  obtain f ns where [simp]: "st = (f, ns)" by (cases st)
  let ?s = "\<lparr>fr_generation = rd_generation sig, fr_tstamp = rd_tstamp sig, fr_frame = rd_frame sig,
    fr_frame_size = rd_length sig\<rparr>"
  obtain n where n: "node_at ns (fcp_node f) = Some n" and hist: "history_ok (history f)"
    and room: "waiters_roomy (fcp_transactions f) (stack f)" and w: "unat (width f) \<le> 0x200"
    using st by (auto simp: fcp_bound_def waiters_ok_def split: option.splits)
  obtain acc h where h: "accept_response c uninit sig f ns = Ret (acc, f\<lparr>history := h\<rparr>)" "history_ok h"
    using accept_response_eq [OF hist n] by blast
  obtain ws where ws: "emit_responded ?s (f\<lparr>history := h\<rparr>) = Ret (f\<lparr>history := h, stack := ws\<rparr>)"
    "waiters_roomy (fcp_transactions f) ws"
    using emit_times_roomy [of "f\<lparr>history := h\<rparr>" ?s "responded_handlers f"] room assms len w
    by (auto simp: emit_responded_def)
  let ?f = "if acc then f\<lparr>history := h, stack := ws\<rparr> else f\<lparr>history := h\<rparr>"
  have "fcp_requested c uninit sig st = Ret (RCODE c HINAWA_FW_RCODE_COMPLETE, ?f, ns)"
    using h(1) ws(1) by (simp add: fcp_requested_def handle_requested_signal_def)
  moreover have "fcp_bound (?f, ns)"
    using st h(2) ws(2) by (auto simp: fcp_bound_def waiters_ok_def)
  ultimately show "\<exists>ret st'. fcp_requested c uninit sig st = Ret (ret, st') \<and> fcp_bound st' \<and>
      nodes_kept (snd st) (snd st')"
    by auto
qed

subsection \<open>Request events\<close>

text \<open>The arguments of \<open>requested\<close> and the handle of a request event, whatever its version.\<close>

fun event_request :: "fw_cdev_event \<Rightarrow> (requested \<times> u32) option" where
  "event_request (FW_CDEV_EVENT_REQUEST e) =
     Some (\<lparr>rd_tcode = rq_tcode e, rd_offset = rq_offset e, rd_src_node_id = G_MAXUINT,
        rd_dst_node_id = G_MAXUINT, rd_card_id = G_MAXUINT, rd_generation = G_MAXUINT,
        rd_tstamp = G_MAXUINT, rd_frame = rq_data e, rd_length = rq_length e\<rparr>, rq_handle e)"
| "event_request (FW_CDEV_EVENT_REQUEST2 e) =
     Some (\<lparr>rd_tcode = rq2_tcode e, rd_offset = rq2_offset e,
        rd_src_node_id = rq2_source_node_id e, rd_dst_node_id = rq2_destination_node_id e,
        rd_card_id = rq2_card e, rd_generation = rq2_generation e, rd_tstamp = G_MAXUINT,
        rd_frame = rq2_data e, rd_length = rq2_length e\<rparr>, rq2_handle e)"
| "event_request (FW_CDEV_EVENT_REQUEST3 e) =
     Some (\<lparr>rd_tcode = rq3_tcode e, rd_offset = rq3_offset e,
        rd_src_node_id = rq3_source_node_id e, rd_dst_node_id = rq3_destination_node_id e,
        rd_card_id = rq3_card e, rd_generation = rq3_generation e, rd_tstamp = rq3_tstamp e,
        rd_frame = rq3_data e, rd_length = rq3_length e\<rparr>, rq3_handle e)"
| "event_request _ = None"

lemma handle_resp_event_cases:
  obtains (other) "event_request event = None" "handle_resp_event env E event st = Ret (st, [])"
  | (request) sig handle where "event_request event = Some (sig, handle)"
      "handle_resp_event env E event st =
         answer_request (env_constants env) (env_ioctl env) E sig handle st"
  by (cases event)
     (simp_all add: handle_resp_event_def hinawa_fw_resp_handle_request_def
       hinawa_fw_resp_handle_request2_def hinawa_fw_resp_handle_request3_def)

text \<open>The data of an event lies in the page the source reads into: at least the declared bytes, and the
  three bytes that the match of AV/C frames looks at.\<close>

definition event_frame_ok :: "fw_cdev_event \<Rightarrow> bool" where
  "event_frame_ok event \<longleftrightarrow>
     (case event_request event of
        None \<Rightarrow> True
      | Some (sig, _) \<Rightarrow> 3 \<le> length (rd_frame sig) \<and> unat (rd_length sig) \<le> length (rd_frame sig))"

text \<open>Whether the responder at an address holds a range.\<close>

definition holds_range :: "objects \<Rightarrow> obj_id \<Rightarrow> bool" where
  "holds_range objs p =
     (case obj_fcps objs p of
        Some f \<Rightarrow> resp_node f \<noteq> None
      | None \<Rightarrow> (case obj_resps objs p of Some r \<Rightarrow> resp_node r \<noteq> None | None \<Rightarrow> False))"

text \<open>The handles of the responses an event calls for.\<close>

definition answers_due :: "objects \<Rightarrow> fw_cdev_event \<Rightarrow> u32 list" where
  "answers_due objs event =
     (case event_request event of
        None \<Rightarrow> []
      | Some (_, handle) \<Rightarrow>
          if object_type_of objs (event_closure event) = Ret FW_RESP \<and>
             holds_range objs (event_closure event)
          then [handle] else [])"

text \<open>Two states with the same objects, of which the same responders hold a range.\<close>

definition same_shape :: "objects \<Rightarrow> objects \<Rightarrow> bool" where
  "same_shape objs objs' \<longleftrightarrow>
     (\<forall>p. object_type_of objs' p = object_type_of objs p \<and> holds_range objs' p = holds_range objs p)"

lemma same_shape_refl [simp]: "same_shape objs objs"
  by (simp add: same_shape_def)

lemma same_shape_trans: "same_shape a b \<Longrightarrow> same_shape b c \<Longrightarrow> same_shape a c"
  by (simp add: same_shape_def)

lemma answers_due_shape: "same_shape objs objs' \<Longrightarrow> answers_due objs' = answers_due objs"
  by (auto simp: fun_eq_iff same_shape_def answers_due_def split: option.split)

definition put_fcp :: "obj_id \<Rightarrow> HinawaFwFcp \<Rightarrow> nodes \<Rightarrow> objects \<Rightarrow> objects" where
  "put_fcp p f ns objs = objs\<lparr>obj_nodes := ns, obj_fcps := (obj_fcps objs)(p \<mapsto> f)\<rparr>"

definition put_resp :: "obj_id \<Rightarrow> HinawaFwResp \<Rightarrow> nodes \<Rightarrow> objects \<Rightarrow> objects" where
  "put_resp p r ns objs = objs\<lparr>obj_nodes := ns, obj_resps := (obj_resps objs)(p \<mapsto> r)\<rparr>"

lemma put_fcp_sel [simp]:
  "obj_nodes (put_fcp p f ns objs) = ns" "obj_resps (put_fcp p f ns objs) = obj_resps objs"
  "obj_fcps (put_fcp p f ns objs) = (obj_fcps objs)(p \<mapsto> f)"
  "obj_reqs (put_fcp p f ns objs) = obj_reqs objs"
  by (simp_all add: put_fcp_def)

lemma put_resp_sel [simp]:
  "obj_nodes (put_resp p r ns objs) = ns" "obj_fcps (put_resp p r ns objs) = obj_fcps objs"
  "obj_resps (put_resp p r ns objs) = (obj_resps objs)(p \<mapsto> r)"
  "obj_reqs (put_resp p r ns objs) = obj_reqs objs"
  by (simp_all add: put_resp_def)

text \<open>Other nodes, the same responders: what \<open>system_ok\<close> says is kept.\<close>

lemma system_ok_grow:
  assumes "system_ok env objs" and "nodes_grow (obj_nodes objs) ns"
  shows "\<And>p r. obj_resps objs p = Some r \<Longrightarrow> resp_live ns r \<and> handler_ok (env_requested env p)"
    and "\<And>p f. obj_fcps objs p = Some f \<Longrightarrow> fcp_live ns f"
  using assms(1)
  by (simp_all add: system_ok_def resp_live_grow [OF assms(2)] fcp_live_grow [OF assms(2)])

lemma nodes_kept_ok:
  assumes "system_ok env objs" and "nodes_kept (obj_nodes objs) ns" and "ns a = Some n'"
  shows "node_ok n'"
proof -
  obtain n where n: "obj_nodes objs a = Some n" using assms(3) nodes_kept_dom [OF assms(2), of a] by auto
  with assms(1) have "node_ok n" by (simp add: system_ok_def)
  with nodes_growE [OF nodes_kept_grow [OF assms(2)] n] assms(3) show ?thesis by auto
qed

lemmas system_ok_kept = nodes_kept_ok system_ok_grow [OF _ nodes_kept_grow]

lemma system_ok_put_fcp:
  assumes "system_ok env objs" and "nodes_kept (obj_nodes objs) ns" and "fcp_live ns f"
  shows "system_ok env (put_fcp p f ns objs)"
  using system_ok_kept [OF assms(1,2)] assms(3) by (simp add: system_ok_def)

lemma system_ok_put_resp:
  assumes "system_ok env objs" and "nodes_kept (obj_nodes objs) ns" and "resp_live ns r"
    and "handler_ok (env_requested env p)"
  shows "system_ok env (put_resp p r ns objs)"
  using system_ok_kept [OF assms(1,2)] assms(3,4) by (simp add: system_ok_def)

lemma system_ok_put_node:
  assumes "system_ok env objs" and "node_ok n"
    and "\<And>m. obj_nodes objs a = Some m \<Longrightarrow> 0 \<le> fd m \<Longrightarrow> 0 \<le> fd n"
  shows "system_ok env (put_node a n objs)"
proof -
  have "nodes_grow (obj_nodes objs) ((obj_nodes objs)(a \<mapsto> n))"
    using assms(2,3) by (intro nodes_grow_put) simp
  from system_ok_grow [OF assms(1) this] assms(1,2) show ?thesis by (simp add: system_ok_def)
qed

lemma same_shape_put_fcp:
  assumes "obj_fcps objs p = Some f" and "nodes_kept (obj_nodes objs) ns"
    and "resp_node f' = None \<longleftrightarrow> resp_node f = None"
  shows "same_shape objs (put_fcp p f' ns objs)"
  using assms
  by (auto simp: same_shape_def object_type_of_def holds_range_def nodes_kept_dom split: option.split)

lemma same_shape_put_resp:
  assumes "obj_resps objs p = Some r" and "obj_fcps objs p = None" and "nodes_kept (obj_nodes objs) ns"
    and "resp_node r' = None \<longleftrightarrow> resp_node r = None"
  shows "same_shape objs (put_resp p r' ns objs)"
  using assms
  by (auto simp: same_shape_def object_type_of_def holds_range_def nodes_kept_dom split: option.split)

lemma same_shape_put_node:
  assumes "obj_nodes objs a = Some n"
  shows "same_shape objs (put_node a n' objs)"
  using assms by (auto simp: same_shape_def object_type_of_def holds_range_def split: option.split)

lemma serving_holds: "serving (r, ns) \<Longrightarrow> resp_node r \<noteq> None"
  by (erule servingE)

text \<open>An object that is released, or has a range and a property \<open>P\<close>, handles an event.\<close>

lemma handle_resp_event_keeps:
  assumes keeps: "\<And>sig handle. event_request event = Some (sig, handle) \<Longrightarrow> emission_keeps P sig E"
    and serv: "\<And>st. P st \<Longrightarrow> serving st"
    and clear: "\<And>r ns. P (r, ns) \<Longrightarrow> P (cleared r, ns)"
    and idle: "\<And>r. Q r \<Longrightarrow> resp_ok r \<and> Q (cleared r)"
    and live: "if resp_node r = None then Q r else P (r, ns)"
  shows "\<exists>r' ns' rs. handle_resp_event env E event (r, ns) =
      Ret ((r', ns'), map FW_CDEV_IOC_SEND_RESPONSE rs) \<and> nodes_kept ns ns' \<and>
    (if resp_node r' = None then Q r' else P (r', ns')) \<and>
    (resp_node r' = None \<longleftrightarrow> resp_node r = None) \<and>
    map sp_handle rs = (case event_request event of None \<Rightarrow> [] | Some (_, handle) \<Rightarrow>
      if resp_node r = None then [] else [handle]) \<and> list_all response_payload_ok rs"
proof (cases rule: handle_resp_event_cases [of event env E "(r, ns)"])
  case other
  with live show ?thesis by (intro exI [of _ r] exI [of _ ns] exI [of _ "[]"]) simp
next
  case (request sig handle)
  show ?thesis
  proof (cases "resp_node r")
    case None
    with live have "Q r" by simp
    with None request idle show ?thesis
      by (intro exI [of _ "cleared r"] exI [of _ ns] exI [of _ "[]"]) (simp add: answer_request_released)
  next
    case (Some a)
    with live have P: "P (r, ns)" by simp
    from answer_request_keeps [OF keeps [OF request(1)] serv clear P,
        of "env_constants env" "env_ioctl env" handle]
    obtain r' ns' resp where r: "handle_resp_event env E event (r, ns) =
        Ret ((r', ns'), [FW_CDEV_IOC_SEND_RESPONSE resp])"
      "P (r', ns')" "nodes_kept ns ns'" "sp_handle resp = handle" "response_payload_ok resp"
      using request(2) by auto
    moreover obtain a' where "resp_node r' = Some a'" using serving_holds [OF serv [OF r(2)]] by blast
    ultimately show ?thesis using Some request(1)
      by (intro exI [of _ r'] exI [of _ ns'] exI [of _ "[resp]"]) simp
  qed
qed

lemma handle_fcp_event_ok:
  assumes "fcp_live ns f" and "event_frame_ok event"
  shows "\<exists>f' ns' rs. handle_resp_event env (fcp_requested c uninit) event (f, ns) =
      Ret ((f', ns'), map FW_CDEV_IOC_SEND_RESPONSE rs) \<and> nodes_kept ns ns' \<and> fcp_live ns' f' \<and>
    (resp_node f' = None \<longleftrightarrow> resp_node f = None) \<and>
    map sp_handle rs = (case event_request event of None \<Rightarrow> [] | Some (_, handle) \<Rightarrow>
      if resp_node f = None then [] else [handle]) \<and> list_all response_payload_ok rs"
  unfolding fcp_live_def
proof (rule handle_resp_event_keeps [where P = fcp_bound and Q = "\<lambda>f. resp_ok f \<and> waiters_ok f"])
  show "emission_keeps fcp_bound sig (fcp_requested c uninit)"
    if "event_request event = Some (sig, handle)" for sig handle
    using assms(2) that by (intro fcp_requested_keeps) (simp_all add: event_frame_ok_def)
qed (use assms(1) in \<open>simp_all add: fcp_live_def fcp_bound_serving fcp_bound_cleared cleared_ok
    waiters_ok_def\<close>)

lemma handle_responder_event_ok:
  assumes "resp_live ns r" and "handler_ok E"
  shows "\<exists>r' ns' rs. handle_resp_event env E event (r, ns) =
      Ret ((r', ns'), map FW_CDEV_IOC_SEND_RESPONSE rs) \<and> nodes_kept ns ns' \<and> resp_live ns' r' \<and>
    (resp_node r' = None \<longleftrightarrow> resp_node r = None) \<and>
    map sp_handle rs = (case event_request event of None \<Rightarrow> [] | Some (_, handle) \<Rightarrow>
      if resp_node r = None then [] else [handle]) \<and> list_all response_payload_ok rs"
  unfolding resp_live_def
  by (rule handle_resp_event_keeps [where P = serving and Q = resp_ok])
     (use assms in \<open>simp_all add: resp_live_def serving_cleared cleared_ok handler_ok_def emission_keeps_def\<close>)

text \<open>The responder or FCP object at \<open>p\<close> handles an event.\<close>

lemma handle_resp_object_ok:
  assumes sys: "system_ok env objs" and ty: "object_type_of objs p = Ret FW_RESP"
    and frame: "event_frame_ok event" and p: "event_closure event = p"
  shows "\<exists>objs' rs. handle_resp_object env event p objs = Ret (objs', [], map FW_CDEV_IOC_SEND_RESPONSE rs) \<and>
    system_ok env objs' \<and> same_shape objs objs' \<and> nodes_kept (obj_nodes objs) (obj_nodes objs') \<and>
    map sp_handle rs = answers_due objs event \<and> list_all response_payload_ok rs"
proof (cases "obj_fcps objs p")
  case (Some f)
  let ?E = "fcp_requested (env_constants env) (env_uninit_record env)"
  have live: "fcp_live (obj_nodes objs) f" using sys Some by (simp add: system_ok_def)
  have due: "answers_due objs event = (case event_request event of None \<Rightarrow> [] | Some (_, handle) \<Rightarrow>
      if resp_node f = None then [] else [handle])"
    using Some ty p by (auto simp: answers_due_def holds_range_def split: option.split)
  obtain f' ns rs where
    h: "handle_resp_event env ?E event (f, obj_nodes objs) = Ret ((f', ns), map FW_CDEV_IOC_SEND_RESPONSE rs)"
    "nodes_kept (obj_nodes objs) ns" "fcp_live ns f'" "resp_node f' = None \<longleftrightarrow> resp_node f = None"
    "map sp_handle rs = answers_due objs event" "list_all response_payload_ok rs"
    using handle_fcp_event_ok [OF live frame, of env "env_constants env" "env_uninit_record env"]
    unfolding due by meson
  have "handle_resp_object env event p objs =
      Ret (put_fcp p f' ns objs, [], map FW_CDEV_IOC_SEND_RESPONSE rs)"
    using h(1) Some by (simp add: handle_resp_object_def put_fcp_def)
  with h system_ok_put_fcp [OF sys h(2,3)] same_shape_put_fcp [OF Some h(2,4)] show ?thesis by auto
next
  case None
  then obtain r where r: "obj_resps objs p = Some r" using ty by (auto simp: object_type_of_def split: if_splits)
  let ?E = "env_requested env p"
  have live: "resp_live (obj_nodes objs) r" and E: "handler_ok ?E"
    using sys r by (simp_all add: system_ok_def)
  have due: "answers_due objs event = (case event_request event of None \<Rightarrow> [] | Some (_, handle) \<Rightarrow>
      if resp_node r = None then [] else [handle])"
    using None r ty p by (auto simp: answers_due_def holds_range_def split: option.split)
  obtain r' ns rs where
    h: "handle_resp_event env ?E event (r, obj_nodes objs) = Ret ((r', ns), map FW_CDEV_IOC_SEND_RESPONSE rs)"
    "nodes_kept (obj_nodes objs) ns" "resp_live ns r'" "resp_node r' = None \<longleftrightarrow> resp_node r = None"
    "map sp_handle rs = answers_due objs event" "list_all response_payload_ok rs"
    using handle_responder_event_ok [OF live E, of env event] unfolding due by meson
  have "handle_resp_object env event p objs =
      Ret (put_resp p r' ns objs, [], map FW_CDEV_IOC_SEND_RESPONSE rs)"
    using h(1) None r by (simp add: handle_resp_object_def put_resp_def)
  with h system_ok_put_resp [OF sys h(2,3) E] same_shape_put_resp [OF r None h(2,4)] show ?thesis by auto
qed

subsection \<open>Dispatching\<close>

text \<open>The closure of an event names an object that is alive, or none.\<close>

definition event_ok :: "objects \<Rightarrow> fw_cdev_event \<Rightarrow> bool" where
  "event_ok objs event \<longleftrightarrow>
     object_type_of objs (event_closure event) \<noteq> Fault Dangling \<and> event_frame_ok event"

lemma event_ok_shape: "same_shape objs objs' \<Longrightarrow> event_ok objs' = event_ok objs"
  by (simp add: fun_eq_iff same_shape_def event_ok_def)

lemma opened_kept:
  "nodes_kept (obj_nodes objs) (obj_nodes objs') \<Longrightarrow> opened objs self \<Longrightarrow> opened objs' self"
  by (elim openedE nodes_growE [OF nodes_kept_grow]) (auto simp: opened_def)

lemma no_answers_due: "object_type_of objs (event_closure event) \<noteq> Ret FW_RESP \<Longrightarrow> answers_due objs event = []"
  by (auto simp: answers_due_def split: option.split)

lemma dispatch_keeps_node:
  assumes "system_ok env objs" and "obj_nodes objs self = Some n" and "fd n' = fd n"
    and "node_ok n \<Longrightarrow> node_ok n'"
  shows "system_ok env (put_node self n' objs) \<and> same_shape objs (put_node self n' objs) \<and>
    nodes_kept (obj_nodes objs) (obj_nodes (put_node self n' objs))"
proof -
  have kept: "nodes_kept (obj_nodes objs) ((obj_nodes objs)(self \<mapsto> n'))"
    using nodes_kept_put [of "obj_nodes objs" self n n'] assms(2-4) by simp
  have "node_ok n" using assms(1,2) by (simp add: system_ok_def)
  with kept system_ok_put_node [OF assms(1), of n' self] same_shape_put_node [OF assms(2)] assms(2-4)
  show ?thesis by simp
qed

lemma dispatch_event_ok:
  assumes sys: "system_ok env objs" and info: "info_ok (env_get_info env)"
    and n: "obj_nodes objs self = Some n" and ev: "event_ok objs event"
  shows "\<exists>objs' sigs rs. dispatch_event env self n event objs =
      Ret (objs', sigs, map FW_CDEV_IOC_SEND_RESPONSE rs) \<and>
    system_ok env objs' \<and> same_shape objs objs' \<and> nodes_kept (obj_nodes objs) (obj_nodes objs') \<and>
    map sp_handle rs = answers_due objs event \<and> list_all response_payload_ok rs"
proof -
  let ?p = "event_closure event"
  have ok: "node_ok n" using sys n by (simp add: system_ok_def)
  obtain ty where ty: "object_type_of objs ?p = Ret ty"
    using ev by (auto simp: event_ok_def object_type_of_def split: if_splits)
  consider (reset) "ty = FW_NODE" "is_bus_reset event" | (resp) "ty = FW_RESP"
    | (req) "ty = FW_REQ" | (other) "ty \<noteq> FW_RESP" "ty \<noteq> FW_REQ" "\<not> (ty = FW_NODE \<and> is_bus_reset event)"
    by blast
  then show ?thesis
  proof cases
    case reset
    obtain err n' where u: "update_info (env_little_endian env) (env_get_info env) self n = Ret (err, n')"
      "node_ok n'" "fd n' = fd n"
      using update_info_ok [OF ok info] by metis
    show ?thesis
      using dispatch_keeps_node [OF sys n u(3)] u reset ty
      by (intro exI [of _ "put_node self n' objs"] exI [of _ "[Bus_Update self]"] exI [of _ "[]"])
         (simp add: dispatch_event_def handle_update_def no_answers_due del: put_node_sel)
  next
    case resp
    with handle_resp_object_ok [OF sys _ _ refl, of event] ty ev show ?thesis
      by (auto simp: event_ok_def dispatch_event_def)
  next
    case req
    let ?n = "fst (handle_req_object event ?p n)"
    have "fd ?n = fd n" "node_ok n \<Longrightarrow> node_ok ?n"
      by (simp_all add: handle_req_object_def node_ok_def)
    from dispatch_keeps_node [OF sys n this] ty req show ?thesis
      by (intro exI [of _ "put_node self ?n objs"] exI [of _ "snd (handle_req_object event ?p n)"]
            exI [of _ "[]"])
         (simp add: dispatch_event_def no_answers_due split_beta del: put_node_sel)
  next
    case other
    with sys ty show ?thesis
      by (intro exI [of _ objs] exI [of _ "[]"] exI [of _ "[]"])
         (auto simp: dispatch_event_def no_answers_due)
  qed
qed

lemma dispatch_step:
  assumes "system_ok env objs" and "info_ok (env_get_info env)"
    and "opened objs (src_self src)" and "event_ok objs event"
  shows "\<exists>objs' sigs rs. dispatch_decoded env src False (\<lambda>_ _. Inr event) objs =
      Ret (True, objs', sigs, map FW_CDEV_IOC_SEND_RESPONSE rs) \<and>
    system_ok env objs' \<and> same_shape objs objs' \<and> opened objs' (src_self src) \<and>
    map sp_handle rs = answers_due objs event \<and> list_all response_payload_ok rs"
proof -
  obtain n where n: "obj_nodes objs (src_self src) = Some n" "0 \<le> fd n" using assms(3) by (rule openedE)
  from dispatch_event_ok [OF assms(1,2) n(1) assms(4)] obtain objs' sigs rs where
    "dispatch_event env (src_self src) n event objs = Ret (objs', sigs, map FW_CDEV_IOC_SEND_RESPONSE rs)"
    "system_ok env objs'" "same_shape objs objs'" "nodes_kept (obj_nodes objs) (obj_nodes objs')"
    "map sp_handle rs = answers_due objs event" "list_all response_payload_ok rs" by blast
  with opened_kept [OF _ assms(3)] n show ?thesis by (auto simp: dispatch_event_read)
qed

text \<open>Any sequence of events that name objects that are alive and have frames as long as they declare.\<close>

lemma dispatch_keeps_system:
  assumes "system_ok env objs" and "info_ok (env_get_info env)" and "opened objs (src_self src)"
    and "list_all (event_ok objs) events"
  shows "\<exists>objs' sigs rs. dispatch_all env src events objs =
      Ret (objs', sigs, map FW_CDEV_IOC_SEND_RESPONSE rs) \<and>
    system_ok env objs' \<and> same_shape objs objs' \<and> opened objs' (src_self src) \<and>
    map sp_handle rs = concat (map (answers_due objs) events) \<and> list_all response_payload_ok rs"
  using assms(1,3,4)
proof (induction events arbitrary: objs)
  case Nil
  then show ?case by (intro exI [of _ objs] exI [of _ "[]"] exI [of _ "[]"]) simp
next
  case (Cons event events)
  obtain objs1 sigs1 rs1 where one: "dispatch_decoded env src False (\<lambda>_ _. Inr event) objs =
      Ret (True, objs1, sigs1, map FW_CDEV_IOC_SEND_RESPONSE rs1)"
    "system_ok env objs1" "same_shape objs objs1" "opened objs1 (src_self src)"
    "map sp_handle rs1 = answers_due objs event" "list_all response_payload_ok rs1"
    using dispatch_step [OF Cons.prems(1) assms(2) Cons.prems(2), of event] Cons.prems(3) by auto
  have "list_all (event_ok objs1) events"
    using Cons.prems(3) by (simp add: event_ok_shape [OF one(3)])
  from Cons.IH [OF one(2,4) this] obtain objs2 sigs2 rs2 where
    "dispatch_all env src events objs1 = Ret (objs2, sigs2, map FW_CDEV_IOC_SEND_RESPONSE rs2)"
    "system_ok env objs2" "same_shape objs1 objs2" "opened objs2 (src_self src)"
    "map sp_handle rs2 = concat (map (answers_due objs1) events)" "list_all response_payload_ok rs2"
    by blast
  with one show ?case
    by (intro exI [of _ objs2] exI [of _ "sigs1 @ sigs2"] exI [of _ "rs1 @ rs2"])
       (auto simp: answers_due_shape [OF one(3)] intro: same_shape_trans)
qed

text \<open>A closed instance: a node, a responder, a bound FCP object with an AV/C transaction that waits with
  a buffer of 512 bytes, and a request.\<close>

definition sample_roomy_waiter :: fcp_waiter where
  "sample_roomy_waiter = \<lparr>fw_state = WAITER_STATE_PENDING, fw_generation = 0,
     fw_frame = replicate 0x200 0xff, fw_frame_size = 0x200, fw_tstamp = G_MAXUINT\<rparr>"

definition sample_system :: objects where
  "sample_system = \<lparr>obj_nodes = [2 \<mapsto> sample_fcp_node\<lparr>transactions := [9]\<rparr>],
     obj_resps = [8 \<mapsto> sample_resp], obj_fcps = [7 \<mapsto> link_waiter 0x7f sample_roomy_waiter sample_fcp],
     obj_reqs = (\<lambda>p. p = 9)\<rparr>"

lemma handler_ok_no_handler: "handler_ok no_handler"
  by (simp add: handler_ok_def no_handler_def)

lemma sample_system_ok: "system_ok sample_env sample_system"
proof -
  let ?ns = "[2 \<mapsto> sample_fcp_node\<lparr>transactions := [9]\<rparr>]"
  have "serving (sample_resp, ?ns)"
    by (simp add: serving_def resp_ok_def sample_resp_def node_at_def sample_fcp_node_def)
  then have "resp_live ?ns sample_resp" by (simp add: resp_live_def sample_resp_def)
  moreover have "fcp_live ?ns (link_waiter 0x7f sample_roomy_waiter sample_fcp)"
    by (simp add: fcp_live_def fcp_bound_def serving_def resp_ok_def link_waiter_def sample_fcp_def
        hinawa_fw_fcp_init_def node_at_def sample_fcp_node_def history_ok_reset waiters_ok_def
        waiters_roomy_def waiter_roomy_def sample_roomy_waiter_def)
  moreover have "node_ok (sample_fcp_node\<lparr>transactions := [9]\<rparr>)"
    using node_ok_init by (simp add: node_ok_def sample_fcp_node_def)
  ultimately show ?thesis
    by (simp add: system_ok_def sample_system_def sample_env_def handler_ok_no_handler)
qed

end
