(* ===== verification/Fw_Source.thy ===== *)
theory Fw_Source
  imports Fw_System
begin

text \<open>
  The event source with the bytes it reads (\<open>dispatch_src\<close> of \<open>src/fw_node.c\<close>), against the dispatch of
  events as values.

  The kernel writes an event at the start of the buffer of the source and discards what does not fit,
  as the header documents for \<open>read\<close>; the rest of the buffer keeps what earlier events left there. The
  dispatcher never looks at the number of bytes that \<open>read\<close> returned. So what it sees is the event with
  other data: the part of the data that fitted, followed by leftovers up to the end of the buffer.
\<close>

section \<open>What the dispatcher sees\<close>

definition kernel_read :: "abi \<Rightarrow> fw_cdev_event \<Rightarrow> int \<Rightarrow> nat \<Rightarrow> int + bytes" where
  "kernel_read abi e descriptor len = Inr (take len (encode_event abi e))"

definition buffer_after :: "abi \<Rightarrow> bytes \<Rightarrow> fw_cdev_event \<Rightarrow> bytes" where
  "buffer_after abi buf e =
     take (length buf) (encode_event abi e) @ drop (length (encode_event abi e)) buf"

definition seen :: "abi \<Rightarrow> bytes \<Rightarrow> fw_cdev_event \<Rightarrow> fw_cdev_event" where
  "seen abi buf e = with_data (drop (length (event_header abi e)) (buffer_after abi buf e)) e"

primrec seen_all :: "abi \<Rightarrow> bytes \<Rightarrow> fw_cdev_event list \<Rightarrow> fw_cdev_event list" where
  "seen_all abi buf [] = []"
| "seen_all abi buf (e # es) = seen abi buf e # seen_all abi (buffer_after abi buf e) es"

text \<open>A buffer with room for the structure of any event and a few bytes of data.\<close>

definition source_ok :: "FwNodeSource \<Rightarrow> bool" where
  "source_ok src \<longleftrightarrow> 64 \<le> src_len src \<and>
     (case src_buf src of None \<Rightarrow> False | Some buf \<Rightarrow> length buf = src_len src)"

lemma source_okE:
  assumes "source_ok src"
  obtains buf where "src_buf src = Some buf" "length buf = src_len src" "64 \<le> length buf"
  using assms by (auto simp: source_ok_def split: option.splits)

lemma source_ok_put: "source_ok src \<Longrightarrow> length buf = src_len src \<Longrightarrow> source_ok (src\<lparr>src_buf := Some buf\<rparr>)"
  by (simp add: source_ok_def)

lemma length_event_header:
  "abi_ok abi \<Longrightarrow> length (event_header abi e) = packed_size (event_struct e)"
  unfolding event_header_def struct_bytes_def abi_ok_def
  by (cases e; elim disjE;
      simp add: event_struct_defs event_values_defs Let_def align_up_def wire64.store_width)

lemma event_header_short: "abi_ok abi \<Longrightarrow> length (event_header abi e) \<le> 56"
  by (simp add: length_event_header) (cases e; simp add: event_struct_defs)

lemma length_buffer_after [simp]: "length (buffer_after abi buf e) = length buf"
  by (simp add: buffer_after_def min_def)

lemma buffer_after_split:
  assumes "length (event_header abi e) \<le> length buf"
  shows "buffer_after abi buf e =
    event_header abi e @ drop (length (event_header abi e)) (buffer_after abi buf e)"
proof -
  have "take (length (event_header abi e)) (buffer_after abi buf e) = event_header abi e"
    using assms by (simp add: buffer_after_def encode_event_def)
  then show ?thesis by (metis append_take_drop_id)
qed

lemma decode_buffer_after:
  assumes "abi_ok abi" and "wire_event e" and "64 \<le> length buf"
  shows "decode_event abi (buffer_after abi buf e) = Ret (seen abi buf e)"
proof -
  have "length (event_header abi e) \<le> length buf"
    using event_header_short [OF assms(1), of e] assms(3) by linarith
  then show ?thesis
    using decode_header [OF assms(1,2), of "drop (length (event_header abi e)) (buffer_after abi buf e)"]
    unfolding seen_def by (simp only: buffer_after_split [symmetric])
qed

text \<open>The data seen: as many bytes as the buffer has behind the structure, and the event's own data first
  when the event fits.\<close>

lemma seen_data_fits:
  assumes "length (encode_event abi e) \<le> length buf"
  shows "seen abi buf e = with_data (event_data e @ drop (length (encode_event abi e)) buf) e"
  using assms by (simp add: seen_def buffer_after_def encode_event_def)

section \<open>Dispatching bytes\<close>

lemma dispatch_src_read:
  assumes "abi_ok (env_abi env)" and "wire_event e" and "source_ok src"
    and n: "obj_nodes objs (src_self src) = Some n" "0 \<le> fd n" and buf: "src_buf src = Some buf"
  shows "dispatch_src env src False (kernel_read (env_abi env) e) objs =
    bind_run (dispatch_decoded env src False (\<lambda>_ _. Inr (seen (env_abi env) buf e)) objs)
      (\<lambda>(continue, objs, sigs, io).
        Ret (continue, src\<lparr>src_buf := Some (buffer_after (env_abi env) buf e)\<rparr>, objs, sigs, io))"
proof -
  let ?abi = "env_abi env"
  have len: "length buf = src_len src" "64 \<le> length buf"
    using assms(3) buf by (auto simp: source_ok_def)
  then have "memcpy buf (take (src_len src) (encode_event ?abi e))
      (length (take (src_len src) (encode_event ?abi e))) = Ret (buffer_after ?abi buf e)"
    by (simp add: memcpy_def buffer_after_def min_def)
  with n buf decode_buffer_after [OF assms(1,2) len(2)] show ?thesis
    by (simp add: dispatch_src_def kernel_read_def dispatch_event_read bind_run_assoc split_def)
qed

text \<open>Several events, each read by a dispatch of its own.\<close>

primrec dispatch_reads ::
    "environment \<Rightarrow> fw_cdev_event list \<Rightarrow> FwNodeSource \<Rightarrow> objects \<Rightarrow>
     (objects \<times> emission list \<times> fw_ioctl list) run" where
  "dispatch_reads env [] src objs = Ret (objs, [], [])"
| "dispatch_reads env (e # es) src objs =
     bind_run (dispatch_src env src False (kernel_read (env_abi env) e) objs)
       (\<lambda>(continue, src, objs, sigs, io).
         bind_run (dispatch_reads env es src objs) (\<lambda>(objs, sigs', io').
           Ret (objs, sigs @ sigs', io @ io')))"

lemma dispatch_decoded_buf:
  "dispatch_decoded env (src\<lparr>src_buf := b\<rparr>) io_err r objs = dispatch_decoded env src io_err r objs"
  by (simp add: dispatch_decoded_def split: option.split sum.split)

lemma dispatch_all_buf:
  "dispatch_all env (src\<lparr>src_buf := b\<rparr>) es objs = dispatch_all env src es objs"
  by (induction es arbitrary: objs) (simp_all add: dispatch_decoded_buf)

lemma dispatch_closed:
  assumes "obj_nodes objs (src_self src) = Some n" and "fd n < 0"
  shows "dispatch_reads env es src objs = Ret (objs, [], [])"
    and "dispatch_all env src events objs = Ret (objs, [], [])"
proof -
  show "dispatch_reads env es src objs = Ret (objs, [], [])"
    by (induction es) (simp_all add: dispatch_src_def assms)
  show "dispatch_all env src events objs = Ret (objs, [], [])"
    by (induction events) (simp_all add: dispatch_decoded_def assms)
qed

lemma dispatch_reads_seen:
  assumes "abi_ok (env_abi env)" and "list_all wire_event es" and "source_ok src"
    and "src_buf src = Some buf"
  shows "dispatch_reads env es src objs = dispatch_all env src (seen_all (env_abi env) buf es) objs"
  using assms(2-)
proof (induction es arbitrary: src buf objs)
  case Nil
  then show ?case by simp
next
  case (Cons e es)
  let ?abi = "env_abi env" and ?b = "buffer_after (env_abi env) buf e"
  let ?src = "src\<lparr>src_buf := Some ?b\<rparr>"
  have len: "length buf = src_len src" using Cons.prems(2,3) by (auto simp: source_ok_def)
  have IH: "dispatch_reads env es ?src objs' = dispatch_all env src (seen_all ?abi ?b es) objs'" for objs'
    using Cons.IH [of ?src ?b] Cons.prems len by (simp add: source_ok_put dispatch_all_buf)
  consider (gone) "obj_nodes objs (src_self src) = None"
    | (closed) n where "obj_nodes objs (src_self src) = Some n" "fd n < 0"
    | (opened) n where "obj_nodes objs (src_self src) = Some n" "0 \<le> fd n"
    by (metis linorder_not_le not_None_eq)
  then show ?case
  proof cases
    case gone
    then show ?thesis by (simp add: dispatch_src_def dispatch_decoded_def)
  next
    case closed
    then show ?thesis by (simp only: dispatch_closed)
  next
    case opened
    have "dispatch_src env src False (kernel_read ?abi e) objs =
      bind_run (dispatch_decoded env src False (\<lambda>_ _. Inr (seen ?abi buf e)) objs)
        (\<lambda>(continue, objs, sigs, io). Ret (continue, ?src, objs, sigs, io))"
      using dispatch_src_read [OF assms(1) _ Cons.prems(2) opened Cons.prems(3)] Cons.prems(1) by simp
    then show ?thesis by (simp add: bind_run_assoc IH split_def)
  qed
qed

text \<open>The data behind the structure of an event: the event's own, followed by what the buffer held there, as
  many bytes as the buffer has.\<close>

definition data_behind :: "abi \<Rightarrow> bytes \<Rightarrow> fw_cdev_event \<Rightarrow> bytes" where
  "data_behind abi buf e =
     take (length buf - length (event_header abi e)) (event_data e @ drop (length (encode_event abi e)) buf)"

lemma seen_data:
  assumes "abi_ok abi" and "64 \<le> length buf"
  shows "seen abi buf e = with_data (data_behind abi buf e) e"
    and "length (data_behind abi buf e) = length buf - length (event_header abi e)"
proof -
  let ?h = "length (event_header abi e)"
  have "?h \<le> length buf" using event_header_short [OF assms(1), of e] assms(2) by linarith
  then have "drop ?h (buffer_after abi buf e) = data_behind abi buf e"
    by (auto simp: buffer_after_def encode_event_def data_behind_def)
  then show "seen abi buf e = with_data (data_behind abi buf e) e"
    and "length (data_behind abi buf e) = length buf - ?h"
    by (simp_all add: seen_def) (metis length_buffer_after length_drop)
qed

text \<open>The buffer before the event at a position is the one that the events before it left.\<close>

lemma length_buffers [simp]: "length (foldl (buffer_after abi) buf es) = length buf"
  by (induction es arbitrary: buf) simp_all

lemma seen_all_nth:
  "length (seen_all abi buf es) = length es"
  "i < length es \<Longrightarrow> seen_all abi buf es ! i = seen abi (foldl (buffer_after abi) buf (take i es)) (es ! i)"
proof -
  show "length (seen_all abi buf es) = length es" by (induction es arbitrary: buf) simp_all
  show "i < length es \<Longrightarrow> seen_all abi buf es ! i = seen abi (foldl (buffer_after abi) buf (take i es)) (es ! i)"
    by (induction es arbitrary: buf i) (auto simp: nth_Cons split: nat.split)
qed

lemma sample_abi_ok: "abi_ok (env_abi sample_env)"
  by (simp add: abi_ok_def env_abi_def sample_env_def)

lemma sample_source_ok: "source_ok sample_src"
  by (simp add: source_ok_def sample_src_def)

text \<open>C4. The dispatcher at the level of bytes refines the dispatcher of events: for any sequence of
  events that the kernel delivers to a source with a buffer of at least 64 bytes, on either byte order and
  alignment, reading and decoding them one after the other and dispatching what was decoded does exactly
  what dispatching events as values does, faults included. Each of these events is the one the kernel
  wrote, with exactly as many bytes of data as the buffer has behind its structure, however few were read:
  the event's own data as far as they fit, followed by the bytes that the events before it left in the
  buffer at that place.\<close>

theorem dispatch_src_refines:
  assumes "abi_ok (env_abi env)" and "list_all wire_event es" and "source_ok src" and "src_buf src = Some buf"
  shows "\<exists>es'. dispatch_reads env es src objs = dispatch_all env src es' objs \<and> length es' = length es \<and>
    (\<forall>i < length es. let e = es ! i; held = foldl (buffer_after (env_abi env)) buf (take i es);
         d = take (src_len src - length (event_header (env_abi env) e))
               (event_data e @ drop (length (encode_event (env_abi env) e)) held)
       in es' ! i = with_data d e \<and> length d = src_len src - length (event_header (env_abi env) e))"
proof -
  have buf: "length buf = src_len src" "64 \<le> length buf"
    using assms(3,4) by (auto simp: source_ok_def)
  let ?held = "\<lambda>i. foldl (buffer_after (env_abi env)) buf (take i es)"
  have data: "take (src_len src - length (event_header (env_abi env) (es ! i)))
      (event_data (es ! i) @ drop (length (encode_event (env_abi env) (es ! i))) (?held i)) =
      data_behind (env_abi env) (?held i) (es ! i)" for i
    using buf(1) by (simp add: data_behind_def)
  have "64 \<le> length (?held i)" for i using buf(2) by simp
  note seen_data [OF assms(1) this]
  then show ?thesis
    unfolding Let_def data
    using dispatch_reads_seen [OF assms] seen_all_nth [where abi = "env_abi env" and buf = buf and es = es] buf(1)
    by (intro exI [of _ "seen_all (env_abi env) buf es"]) simp
qed

text \<open>A response of two bytes, on a buffer that holds another event: 4060 of the 4064 bytes of data that the
  dispatcher sees are left over.\<close>

theorem dispatch_src_refines_witness:
  "\<exists>es'. dispatch_reads sample_env [FW_CDEV_EVENT_RESPONSE2 (sample_response2 0)]
      (sample_src\<lparr>src_buf := Some (replicate 4096 0xee)\<rparr>) sample_system =
      dispatch_all sample_env (sample_src\<lparr>src_buf := Some (replicate 4096 0xee)\<rparr>) es' sample_system \<and>
    es' = [FW_CDEV_EVENT_RESPONSE2 ((sample_response2 0)\<lparr>rs2_data := [1, 2, 0, 0] @ replicate 4060 0xee\<rparr>)]"
proof -
  let ?src = "sample_src\<lparr>src_buf := Some (replicate 4096 0xee)\<rparr>" and ?e = "FW_CDEV_EVENT_RESPONSE2 (sample_response2 0)"
  have "list_all wire_event [?e]" by (simp add: wire_event_def)
  moreover have h: "length (event_header (env_abi sample_env) ?e) = 32"
    by (simp add: length_event_header [OF sample_abi_ok] fw_cdev_event_response2_struct_def)
  moreover have "length (encode_event (env_abi sample_env) ?e) = 36"
    using h by (simp add: encode_event_def) (simp add: sample_response2_def)
  moreover have "source_ok ?src" using sample_source_ok by (simp add: source_ok_def sample_src_def)
  moreover have "src_len ?src = 4096" by (simp add: sample_src_def)
  ultimately obtain es' where es': "dispatch_reads sample_env [?e] ?src sample_system =
      dispatch_all sample_env ?src es' sample_system" "length es' = 1"
    "es' ! 0 = with_data (take 4064 (event_data ?e @ replicate 4060 0xee)) ?e"
    using dispatch_src_refines [OF sample_abi_ok, of "[?e]" ?src "replicate 4096 0xee" sample_system]
    by (auto simp: Let_def)
  then obtain e' where e': "es' = [e']" by (auto simp: length_Suc_conv)
  with es' show ?thesis by (intro exI [of _ es']) (simp add: sample_response2_def)
qed

section \<open>Events that fit\<close>

text \<open>What the kernel promises of an event: it carries as much data as it declares. What decides whether
  the dispatcher sees all of it: the event fits into the buffer.\<close>

primrec declared_length :: "fw_cdev_event \<Rightarrow> nat" where
  "declared_length (FW_CDEV_EVENT_BUS_RESET _) = 0"
| "declared_length (FW_CDEV_EVENT_RESPONSE e) = unat (rs_length e)"
| "declared_length (FW_CDEV_EVENT_REQUEST e) = unat (rq_length e)"
| "declared_length (FW_CDEV_EVENT_REQUEST2 e) = unat (rq2_length e)"
| "declared_length (FW_CDEV_EVENT_REQUEST3 e) = unat (rq3_length e)"
| "declared_length (FW_CDEV_EVENT_RESPONSE2 e) = unat (rs2_length e)"
| "declared_length (FW_CDEV_EVENT_OTHER _ _) = 0"

definition delivered :: "abi \<Rightarrow> nat \<Rightarrow> fw_cdev_event \<Rightarrow> bool" where
  "delivered abi len e \<longleftrightarrow> wire_event e \<and> declared_length e \<le> length (event_data e) \<and>
     length (encode_event abi e) \<le> len"

definition alive :: "objects \<Rightarrow> fw_cdev_event \<Rightarrow> bool" where
  "alive objs e \<longleftrightarrow> object_type_of objs (event_closure e) \<noteq> Fault Dangling"

lemma seen_frame_ok:
  assumes "abi_ok abi" and "delivered abi (length buf) e" and "64 \<le> length buf"
  shows "event_frame_ok (seen abi buf e)"
proof -
  let ?d = "event_data e @ drop (length (encode_event abi e)) buf"
  have "length (event_header abi e) + length ?d = length buf"
    using assms(2) by (simp add: delivered_def encode_event_def)
  then have "3 \<le> length ?d" using event_header_short [OF assms(1), of e] assms(3) by linarith
  moreover have "declared_length e \<le> length ?d"
    using assms(2) by (simp add: delivered_def) linarith
  ultimately have "event_frame_ok (with_data ?d e)"
    by (cases e) (simp_all add: event_frame_ok_def)
  then show ?thesis using assms(2) by (simp add: seen_data_fits delivered_def)
qed

lemma answers_due_seen: "answers_due objs (seen abi buf e) = answers_due objs e"
  by (cases e) (simp_all add: answers_due_def seen_def)

lemma seen_all_ok:
  assumes "abi_ok abi" and "64 \<le> length buf" and "list_all (delivered abi (length buf)) es"
    and "list_all (alive objs) es"
  shows "list_all (event_ok objs) (seen_all abi buf es) \<and>
    map (answers_due objs) (seen_all abi buf es) = map (answers_due objs) es"
  using assms(2-)
proof (induction es arbitrary: buf)
  case (Cons e es)
  have "event_ok objs (seen abi buf e)"
    using Cons.prems seen_frame_ok [OF assms(1)] by (simp add: event_ok_def alive_def) (simp add: seen_def)
  with Cons show ?case by (simp add: answers_due_seen)
qed simp

text \<open>One dispatch of an event that fits.\<close>

lemma dispatch_src_step:
  assumes "system_ok env objs" and "info_ok (env_get_info env)" and "opened objs (src_self src)"
    and "abi_ok (env_abi env)" and "source_ok src" and "delivered (env_abi env) (src_len src) e"
    and "alive objs e"
  shows "\<exists>src' objs' sigs rs. dispatch_src env src False (kernel_read (env_abi env) e) objs =
      Ret (True, src', objs', sigs, map FW_CDEV_IOC_SEND_RESPONSE rs) \<and> system_ok env objs'"
proof -
  obtain n where n: "obj_nodes objs (src_self src) = Some n" "0 \<le> fd n" using assms(3) by (rule openedE)
  obtain buf where buf: "src_buf src = Some buf" "length buf = src_len src" "64 \<le> length buf"
    using assms(5) by (rule source_okE)
  have "event_ok objs (seen (env_abi env) buf e)"
    using seen_all_ok [OF assms(4) buf(3), of "[e]" objs] assms(6,7) buf(2) by simp
  from dispatch_step [OF assms(1-3) this] obtain objs' sigs rs where
    "dispatch_decoded env src False (\<lambda>_ _. Inr (seen (env_abi env) buf e)) objs =
      Ret (True, objs', sigs, map FW_CDEV_IOC_SEND_RESPONSE rs)" "system_ok env objs'" by blast
  with dispatch_src_read [OF assms(4) _ assms(5) n buf(1), of e] assms(6) show ?thesis
    by (auto simp: delivered_def)
qed

text \<open>Responses as the dispatcher sees them.\<close>

lemma seen_responses:
  "\<exists>es'. seen_all abi buf (map FW_CDEV_EVENT_RESPONSE2 es) = map FW_CDEV_EVENT_RESPONSE2 es' \<and>
    map rs2_closure es' = map rs2_closure es"
proof (induction es arbitrary: buf)
  case (Cons e es)
  let ?e = "FW_CDEV_EVENT_RESPONSE2 e"
  obtain es' where "seen_all abi (buffer_after abi buf ?e) (map FW_CDEV_EVENT_RESPONSE2 es) =
      map FW_CDEV_EVENT_RESPONSE2 es'" "map rs2_closure es' = map rs2_closure es"
    using Cons.IH by blast
  then show ?case
    by (intro exI [of _ "e\<lparr>rs2_data := drop (length (event_header abi ?e)) (buffer_after abi buf ?e)\<rparr> # es'"])
       (simp add: seen_def)
qed simp

lemma dispatch_reads_responses:
  assumes "abi_ok (env_abi env)" and "source_ok src"
    and "obj_nodes objs (src_self src) = Some n" and "0 \<le> fd n" and "live_request objs p"
    and "list_all (\<lambda>e. rs2_closure e = p) (e # es)" and "count_list (transactions n) p = 1"
  shows "\<exists>d. length d = src_len src - 32 \<and>
    dispatch_reads env (map FW_CDEV_EVENT_RESPONSE2 (e # es)) src objs =
      Ret (put_node (src_self src) (forget_times (length (e # es)) p n) objs,
        [Req_Responded p (hinawa_fw_req_handle_response2 (e\<lparr>rs2_data := d\<rparr>))], []) \<and>
    (\<forall>k. k \<le> length (rs2_data e) \<and> 32 + k \<le> src_len src \<longrightarrow> take k d = take k (rs2_data e))"
proof -
  let ?e = "FW_CDEV_EVENT_RESPONSE2 e" and ?abi = "env_abi env"
  obtain buf where buf: "src_buf src = Some buf" "length buf = src_len src" "64 \<le> length buf"
    using assms(2) by (rule source_okE)
  let ?d = "drop (length (event_header ?abi ?e)) (buffer_after ?abi buf ?e)"
  have hd: "length (event_header ?abi ?e) = 32"
    by (simp add: length_event_header [OF assms(1)] fw_cdev_event_response2_struct_def)
  obtain es' where es': "seen_all ?abi (buffer_after ?abi buf ?e) (map FW_CDEV_EVENT_RESPONSE2 es) =
      map FW_CDEV_EVENT_RESPONSE2 es'" "map rs2_closure es' = map rs2_closure es"
    using seen_responses by blast
  have w: "list_all wire_event (map FW_CDEV_EVENT_RESPONSE2 (e # es))"
    by (simp add: wire_event_def list_all_iff)
  have "length es' = length es" using es'(2) by (metis length_map)
  moreover have "list_all (\<lambda>e. rs2_closure e = p) (e\<lparr>rs2_data := ?d\<rparr> # es')"
    using assms(6) es'(2) by (simp add: list_all_iff) (metis image_iff list.set_map)
  ultimately have "dispatch_reads env (map FW_CDEV_EVENT_RESPONSE2 (e # es)) src objs =
      Ret (put_node (src_self src) (forget_times (length (e # es)) p n) objs,
        [Req_Responded p (hinawa_fw_req_handle_response2 (e\<lparr>rs2_data := ?d\<rparr>))], [])"
    using dispatch_reads_seen [OF assms(1) w assms(2) buf(1), of objs] es'(1) assms(7)
      dispatch_responses [OF assms(3-5), of "e\<lparr>rs2_data := ?d\<rparr> # es'" env]
    by (simp add: seen_def)
  moreover have "take k ?d = take k (rs2_data e)" if "k \<le> length (rs2_data e)" "32 + k \<le> src_len src" for k
  proof -
    have "k \<le> src_len src - 32" "32 \<le> src_len src" using that(2) by linarith+
    with that(1) hd buf(2) show ?thesis
      by (simp add: buffer_after_def encode_event_def min_def take_drop)
  qed
  ultimately show ?thesis
    using hd buf(2) by (intro exI [of _ ?d]) simp
qed

text \<open>C3. Any sequence of events that the kernel writes into the buffer of the source, as long as each
  names an object that is alive, carries the data it declares and fits into the buffer: starting from
  well-formed objects with an opened node behind the source, no dispatch faults, the objects are
  well-formed and the node is open afterwards, and the ioctl requests issued are exactly one response
  per request event whose responder holds a range, in the order of the events, with the handle of
  the event and within its buffer. This includes response frames of FCP of any length that arrive
  while AV/C transactions wait with buffers of at least 512 bytes.\<close>

theorem dispatch_reads_keep_system:
  assumes "system_ok env objs" and "info_ok (env_get_info env)" and "opened objs (src_self src)"
    and "abi_ok (env_abi env)" and "source_ok src"
    and "list_all (delivered (env_abi env) (src_len src)) es" and "list_all (alive objs) es"
  shows "\<exists>objs' sigs rs. dispatch_reads env es src objs =
      Ret (objs', sigs, map FW_CDEV_IOC_SEND_RESPONSE rs) \<and>
    system_ok env objs' \<and> same_shape objs objs' \<and> opened objs' (src_self src) \<and>
    map sp_handle rs = concat (map (answers_due objs) es) \<and> list_all response_payload_ok rs"
proof -
  obtain buf where buf: "src_buf src = Some buf" "length buf = src_len src" "64 \<le> length buf"
    using assms(5) by (rule source_okE)
  have "list_all wire_event es" using assms(6) by (simp add: delivered_def list_all_iff)
  from dispatch_reads_seen [OF assms(4) this assms(5) buf(1)] seen_all_ok [OF assms(4) buf(3)] buf(2)
    dispatch_keeps_system [OF assms(1-3), of "seen_all (env_abi env) buf es"] assms(6,7)
  show ?thesis by simp
qed

theorem dispatch_reads_keep_system_witness:
  "\<exists>objs' sigs rs. dispatch_reads sample_env
      [FW_CDEV_EVENT_RESPONSE2 (sample_response2 0), FW_CDEV_EVENT_REQUEST3 sample_fcp_response,
       FW_CDEV_EVENT_REQUEST3 ((sample_request3 4)\<lparr>rq3_closure := 8, rq3_handle := 43\<rparr>)]
      sample_src sample_system =
      Ret (objs', sigs, map FW_CDEV_IOC_SEND_RESPONSE rs) \<and> system_ok sample_env objs' \<and>
    map sp_handle rs = [42, 43]"
proof -
  let ?es = "[FW_CDEV_EVENT_RESPONSE2 (sample_response2 0), FW_CDEV_EVENT_REQUEST3 sample_fcp_response,
       FW_CDEV_EVENT_REQUEST3 ((sample_request3 4)\<lparr>rq3_closure := 8, rq3_handle := 43\<rparr>)]"
  have "opened sample_system (src_self sample_src)"
    by (simp add: opened_def sample_src_def sample_system_def sample_fcp_node_def)
  moreover have "info_ok (env_get_info sample_env)" by (simp add: sample_env_def info_ok_def)
  moreover have "list_all (delivered (env_abi sample_env) (src_len sample_src)) ?es"
    by (simp add: delivered_def wire_event_def encode_event_def length_event_header [OF sample_abi_ok]
        event_struct_defs sample_src_def sample_response2_def sample_fcp_response_def sample_request3_def)
  moreover have "list_all (alive sample_system) ?es"
    by (simp add: alive_def object_type_of_def sample_system_def
        sample_response2_def sample_fcp_response_def sample_request3_def)
  moreover have "concat (map (answers_due sample_system) ?es) = [42, 43]"
    by (simp add: answers_due_def object_type_of_def holds_range_def sample_system_def
        sample_response2_def sample_fcp_response_def sample_request3_def link_waiter_def sample_fcp_def
        sample_resp_def)
  ultimately show ?thesis
    using dispatch_reads_keep_system [OF sample_system_ok _ _ sample_abi_ok sample_source_ok, of ?es]
    by metis
qed

section \<open>Single events\<close>

text \<open>What one dispatch of an event does, from what the dispatch of the event it sees does.\<close>

lemma dispatch_src_ret:
  assumes "abi_ok (env_abi env)" and "wire_event e" and "source_ok src" and "opened objs (src_self src)"
    and "src_buf src = Some buf"
    and "dispatch_decoded env src False (\<lambda>_ _. Inr (seen (env_abi env) buf e)) objs =
      Ret (continue, objs', sigs, io)"
  shows "\<exists>src'. dispatch_src env src False (kernel_read (env_abi env) e) objs =
    Ret (continue, src', objs', sigs, io) \<and> source_ok src'"
proof -
  obtain n where n: "obj_nodes objs (src_self src) = Some n" "0 \<le> fd n" using assms(4) by (rule openedE)
  have "length buf = src_len src" using assms(3,5) by (auto simp: source_ok_def)
  then show ?thesis
    using dispatch_src_read [OF assms(1-3) n assms(5)] assms(6) source_ok_put [OF assms(3)] by simp
qed

lemma seen_all_responses:
  assumes "abi_ok abi" and "64 \<le> length buf"
  shows "\<exists>es'. seen_all abi buf (map FW_CDEV_EVENT_RESPONSE2 es) = map FW_CDEV_EVENT_RESPONSE2 es' \<and>
    list_all2 (\<lambda>e e'. \<exists>rest. e' = e\<lparr>rs2_data := take (length buf - 32) (rs2_data e @ rest)\<rparr>) es es'"
  using assms(2)
proof (induction es arbitrary: buf)
  case (Cons e es)
  let ?e = "FW_CDEV_EVENT_RESPONSE2 e"
  have "length (event_header abi ?e) = 32"
    by (simp add: length_event_header [OF assms(1)] fw_cdev_event_response2_struct_def)
  then obtain rest where
    "seen abi buf ?e = FW_CDEV_EVENT_RESPONSE2 (e\<lparr>rs2_data := take (length buf - 32) (rs2_data e @ rest)\<rparr>)"
    using seen_data(1) [OF assms(1) Cons.prems, of ?e] by (auto simp: data_behind_def)
  moreover from Cons.IH [of "buffer_after abi buf ?e"] Cons.prems obtain es' where
    "seen_all abi (buffer_after abi buf ?e) (map FW_CDEV_EVENT_RESPONSE2 es) = map FW_CDEV_EVENT_RESPONSE2 es'"
    "list_all2 (\<lambda>e e'. \<exists>rest. e' = e\<lparr>rs2_data := take (length buf - 32) (rs2_data e @ rest)\<rparr>) es es'"
    by auto
  ultimately show ?case
    by (intro exI [of _ "e\<lparr>rs2_data := take (length buf - 32) (rs2_data e @ rest)\<rparr> # es'"]) auto
qed simp

text \<open>The signal \<open>s\<close> carries the code and the time stamps of the response \<open>e\<close>, and of its data as much as a
  buffer of \<open>len\<close> bytes has room for behind the structure of the event.\<close>

definition carries :: "nat \<Rightarrow> fw_cdev_event_response2 \<Rightarrow> responded \<Rightarrow> bool" where
  "carries len e s \<longleftrightarrow> rp_rcode s = rs2_rcode e \<and> rp_request_tstamp s = rs2_request_tstamp e \<and>
     rp_response_tstamp s = rs2_response_tstamp e \<and> rp_frame_size s = rs2_length e \<and>
     take (length (rs2_data e)) (rp_frame s) = take (len - 32) (rs2_data e)"

lemma carries_seen:
  "carries len e (hinawa_fw_req_handle_response2 (e\<lparr>rs2_data := take (len - 32) (rs2_data e @ rest)\<rparr>))"
  by (auto simp: carries_def hinawa_fw_req_handle_response2_def min_def)

text \<open>C23. Responses that arrive for a live request: as long as the request is outstanding on the node,
  each one that the source reads emits \<open>responded\<close> on it exactly once, in order, with the code, the time
  stamps and the declared size of the event and with its data as far as the buffer has room for them,
  and ends one registration; from then on, in particular after the request was invalidated because
  its caller's deadline had passed, further responses are dropped.\<close>

theorem responses_delivered_while_outstanding:
  assumes "abi_ok (env_abi env)" and "source_ok src"
    and "obj_nodes objs (src_self src) = Some n" and "0 \<le> fd n" and "live_request objs p"
    and "list_all (\<lambda>e. rs2_closure e = p) es"
  shows "\<exists>objs' n' rs. dispatch_reads env (map FW_CDEV_EVENT_RESPONSE2 es) src objs =
      Ret (objs', map (Req_Responded p) rs, []) \<and>
    list_all2 (carries (src_len src)) (take (count_list (transactions n) p) es) rs \<and>
    obj_nodes objs' (src_self src) = Some n' \<and>
    count_list (transactions n') p = count_list (transactions n) p - length es"
proof -
  obtain buf where buf: "src_buf src = Some buf" "length buf = src_len src" "64 \<le> length buf"
    using assms(2) by (rule source_okE)
  let ?k = "count_list (transactions n) p"
  let ?R = "\<lambda>e e'. \<exists>rest. e' = e\<lparr>rs2_data := take (src_len src - 32) (rs2_data e @ rest)\<rparr>"
  obtain es' where es': "seen_all (env_abi env) buf (map FW_CDEV_EVENT_RESPONSE2 es) =
      map FW_CDEV_EVENT_RESPONSE2 es'" "list_all2 ?R es es'"
    using seen_all_responses [OF assms(1) buf(3), of es] unfolding buf(2) by blast
  have len: "length es' = length es" using es'(2) by (simp add: list_all2_lengthD)
  have cl: "list_all (\<lambda>e. rs2_closure e = p) es'"
    using es'(2) assms(6) by (induction rule: list_all2_induct) auto
  have w: "list_all wire_event (map FW_CDEV_EVENT_RESPONSE2 es)"
    by (simp add: wire_event_def list_all_iff)
  let ?rs = "map hinawa_fw_req_handle_response2 (take ?k es')"
  have "list_all2 ?R (take ?k es) (take ?k es')" using es'(2) by (rule list_all2_takeI)
  then have "list_all2 (carries (src_len src)) (take ?k es) ?rs"
    by (auto simp: list_all2_map2 carries_seen simp del: take_append elim!: list_all2_mono)
  moreover from dispatch_responses_delivered [OF assms(3-5) cl, of env]
    dispatch_reads_seen [OF assms(1) w assms(2) buf(1), of objs] es'(1) len
  obtain objs' n' where "dispatch_reads env (map FW_CDEV_EVENT_RESPONSE2 es) src objs =
      Ret (objs', map (Req_Responded p) ?rs, [])"
    "obj_nodes objs' (src_self src) = Some n'" "count_list (transactions n') p = ?k - length es"
    by (auto simp: hinawa_fw_req_handle_response2_def o_def)
  ultimately show ?thesis by blast
qed

theorem responses_delivered_while_outstanding_witness:
  "\<exists>objs' s. dispatch_reads sample_env
      (map FW_CDEV_EVENT_RESPONSE2 [sample_response2 0, sample_response2 4]) sample_src sample_objects =
      Ret (objs', [Req_Responded 9 s], []) \<and> carries 4096 (sample_response2 0) s"
proof -
  have "obj_nodes sample_objects (src_self sample_src) =
      Some (hinawa_fw_node_init\<lparr>fd := 3, transactions := [9]\<rparr>)" "live_request sample_objects 9"
    "list_all (\<lambda>e. rs2_closure e = 9) [sample_response2 0, sample_response2 4]" "src_len sample_src = 4096"
    by (simp_all add: sample_objects_def sample_src_def live_request_def sample_response2_def)
  from responses_delivered_while_outstanding [OF sample_abi_ok sample_source_ok this(1) _ this(2,3)] this(4)
  show ?thesis by (auto simp: list_all2_Cons1)
qed

text \<open>C39. The check that a request is outstanding comes after the type checks on the closure. A late
  response for a request object that has been freed meanwhile, as \<open>hinawa_fw_fcp_command\<close> frees its
  own after a timeout, makes the dispatcher read the type of the freed object, although the request
  is outstanding no more.\<close>

theorem late_response_reads_freed_request:
  assumes "abi_ok (env_abi env)" and "source_ok src"
    and "opened objs (src_self src)" and "rs2_closure e \<noteq> 0"
    and "obj_nodes objs (rs2_closure e) = None" and "obj_resps objs (rs2_closure e) = None"
    and "obj_fcps objs (rs2_closure e) = None" and "\<not> obj_reqs objs (rs2_closure e)"
  shows "dispatch_src env src False (kernel_read (env_abi env) (FW_CDEV_EVENT_RESPONSE2 e)) objs =
    Fault Dangling"
proof -
  obtain n where n: "obj_nodes objs (src_self src) = Some n" "0 \<le> fd n" using assms(3) by (rule openedE)
  obtain buf where buf: "src_buf src = Some buf" using assms(2) by (rule source_okE)
  have "wire_event (FW_CDEV_EVENT_RESPONSE2 e)" by (simp add: wire_event_def)
  from dispatch_src_read [OF assms(1) this assms(2) n buf]
  show ?thesis using dispatch_late_response [OF assms(3)] assms(4-) by (simp add: seen_def)
qed

theorem late_response_reads_freed_request_witness:
  "dispatch_src sample_env sample_src False
     (kernel_read (env_abi sample_env) (FW_CDEV_EVENT_RESPONSE2 (sample_response2 0)))
     (sample_objects\<lparr>obj_reqs := (\<lambda>_. False)\<rparr>) = Fault Dangling"
proof -
  have "opened (sample_objects\<lparr>obj_reqs := (\<lambda>_. False)\<rparr>) (src_self sample_src)"
    by (simp add: opened_def sample_src_def sample_objects_def)
  from late_response_reads_freed_request [OF sample_abi_ok sample_source_ok this, of "sample_response2 0"]
  show ?thesis by (simp add: sample_objects_def sample_response2_def)
qed

text \<open>C36. A bus reset makes the node read its information again, whatever node the closure names, and
  emits \<open>bus-update\<close> whether that succeeded or not: with a kernel that keeps its documented bounds the
  node stays well-formed with its descriptor and its outstanding requests, its cached generation is
  the one the kernel reports now, and a failure leaves it as it was.\<close>

theorem bus_reset_refreshes_node:
  assumes "abi_ok (env_abi env)" and "source_ok src"
    and "obj_nodes objs (src_self src) = Some n" and "node_ok n" and "0 \<le> fd n"
    and "info_ok (env_get_info env)"
    and "br_closure e \<noteq> 0" and "obj_nodes objs (br_closure e) \<noteq> None"
  shows "\<exists>src' objs' n'. dispatch_src env src False
      (kernel_read (env_abi env) (FW_CDEV_EVENT_BUS_RESET e)) objs =
      Ret (True, src', objs', [Bus_Update (src_self src)], []) \<and> source_ok src' \<and>
    obj_nodes objs' (src_self src) = Some n' \<and> node_ok n' \<and> fd n' = fd n \<and>
    transactions n' = transactions n \<and>
    (case env_get_info env (fd n) (info_request (src_self src)) of
       Inl _ \<Rightarrow> n' = n
     | Inr reply \<Rightarrow> generation n' = ir_bus_reset reply \<and> card_id n' = ir_card reply)"
proof -
  obtain buf where buf: "src_buf src = Some buf" using assms(2) by (rule source_okE)
  have "wire_event (FW_CDEV_EVENT_BUS_RESET e)" by (simp add: wire_event_def)
  moreover have "opened objs (src_self src)" using assms(3,5) by (simp add: opened_def)
  ultimately have "\<exists>src'. dispatch_src env src False
      (kernel_read (env_abi env) (FW_CDEV_EVENT_BUS_RESET e)) objs =
      Ret (True, src', objs', sigs, io) \<and> source_ok src'"
    if "dispatch_decoded env src False (\<lambda>_ _. Inr (FW_CDEV_EVENT_BUS_RESET e)) objs =
      Ret (True, objs', sigs, io)" for objs' sigs io
    using dispatch_src_ret [OF assms(1) _ assms(2) _ buf, of "FW_CDEV_EVENT_BUS_RESET e"] that
    by (simp add: seen_def)
  with dispatch_bus_reset [OF assms(3-)] show ?thesis by blast
qed

theorem bus_reset_refreshes_node_witness:
  "\<exists>src' objs' n'. dispatch_src sample_env sample_src False
      (kernel_read (env_abi sample_env)
        (FW_CDEV_EVENT_BUS_RESET (generation hinawa_fw_node_init\<lparr>br_closure := 2\<rparr>))) sample_objects =
      Ret (True, src', objs', [Bus_Update 2], []) \<and> obj_nodes objs' 2 = Some n' \<and> node_ok n'"
proof -
  let ?n = "hinawa_fw_node_init\<lparr>fd := 3, transactions := [9]\<rparr>"
  have "obj_nodes sample_objects (src_self sample_src) = Some ?n" "src_self sample_src = 2"
    "obj_nodes sample_objects 2 \<noteq> None"
    by (simp_all add: sample_objects_def sample_src_def)
  moreover have "node_ok ?n" using node_ok_init by (simp add: node_ok_def)
  moreover have "info_ok (env_get_info sample_env)" by (simp add: sample_env_def info_ok_def)
  ultimately show ?thesis
    using bus_reset_refreshes_node [OF sample_abi_ok sample_source_ok, of sample_objects ?n
        "generation hinawa_fw_node_init\<lparr>br_closure := 2\<rparr>"]
    by auto
qed

section \<open>From the device to a waiting AV/C transaction\<close>

text \<open>A frame with more bytes behind the declared ones answers a waiter in the same way.\<close>

lemma response_of_longer:
  assumes "unat (rq3_length e) \<le> length (rq3_data e)" "3 \<le> length (rq3_data e)"
  shows "answered (response_of_event (e\<lparr>rq3_data := rq3_data e @ rest\<rparr>)) w = answered (response_of_event e) w"
    and "responds gen cm rsize (response_of_event e) \<Longrightarrow>
      responds gen cm rsize (response_of_event (e\<lparr>rq3_data := rq3_data e @ rest\<rparr>))"
  using assms by (simp_all add: answered_def response_of_event_def responds_def response_fits_def nth_append)

text \<open>C22. From the device to the waiting caller: an FCP response frame of the bound node that the
  dispatcher reads while an AV/C transaction waits alone on the object is copied to the caller's
  buffer with its size, generation and time stamp, whatever earlier events left in the buffer of the
  source; the waiter is marked as responded, and the request is answered with completion and no
  data; the source continues.\<close>

theorem dispatched_fcp_response_reaches_waiter:
  assumes src: "abi_ok (env_abi env)" "source_ok src"
      "delivered (env_abi env) (src_len src) (FW_CDEV_EVENT_REQUEST3 e)"
    and op: "opened objs (src_self src)" and f: "obj_fcps objs p = Some f" "p \<noteq> 0" "obj_nodes objs p = None"
    and sv: "serving (f, obj_nodes objs)" and hist: "history_ok (history f)"
    and n: "node_at (obj_nodes objs) (fcp_node f) = Some n" and al: "alone wa w f"
    and ev: "rq3_closure e = p" "response_event (env_constants env) f n e"
    and rs: "3 \<le> length rs" "unat rsize \<le> length rs" "unat rsize < 2 ^ 32"
    and w: "pending_for cm rs rsize w" "responds gen cm rsize (response_of_event e)"
  shows "\<exists>src' objs' f'. dispatch_src env src False
      (kernel_read (env_abi env) (FW_CDEV_EVENT_REQUEST3 e)) objs =
      Ret (True, src', objs', [], [FW_CDEV_IOC_SEND_RESPONSE
        \<lparr>sp_rcode = RCODE (env_constants env) HINAWA_FW_RCODE_COMPLETE, sp_length = 0, sp_data = None,
         sp_handle = rq3_handle e\<rparr>]) \<and> source_ok src' \<and>
    obj_fcps objs' p = Some f' \<and> stack f' wa = Some (answered (response_of_event e) w)"
proof -
  obtain buf where buf: "src_buf src = Some buf" "length buf = src_len src"
    using src(2) by (rule source_okE)
  let ?e = "FW_CDEV_EVENT_REQUEST3 e"
  let ?rest = "drop (length (encode_event (env_abi env) ?e)) buf"
  let ?s = "e\<lparr>rq3_data := rq3_data e @ ?rest\<rparr>"
  have seen: "seen (env_abi env) buf ?e = FW_CDEV_EVENT_REQUEST3 ?s"
    using src(3) buf(2) by (simp add: delivered_def seen_data_fits)
  have len: "unat (rq3_length e) \<le> length (rq3_data e)" "3 \<le> length (rq3_data e)"
    using src(3) w(2) by (simp_all add: delivered_def responds_def response_fits_def response_of_event_def)
  have s: "rq3_closure ?s = p" "response_event (env_constants env) f n ?s" "rq3_handle ?s = rq3_handle e"
    using ev by (simp_all add: response_event_def)
  from dispatch_fcp_response [OF op f sv hist n al s(1,2) rs w(1) response_of_longer(2) [OF len w(2)]]
    response_of_longer(1) [OF len, of ?rest w] s(3)
  obtain objs' f' where d: "dispatch_decoded env src False (\<lambda>_ _. Inr (FW_CDEV_EVENT_REQUEST3 ?s)) objs =
      Ret (True, objs', [], [FW_CDEV_IOC_SEND_RESPONSE
        \<lparr>sp_rcode = RCODE (env_constants env) HINAWA_FW_RCODE_COMPLETE, sp_length = 0, sp_data = None,
         sp_handle = rq3_handle e\<rparr>])"
    "obj_fcps objs' p = Some f'" "stack f' wa = Some (answered (response_of_event e) w)"
    by metis
  have "wire_event ?e" by (simp add: wire_event_def)
  from dispatch_src_ret [OF src(1) this src(2) op buf(1)] d seen show ?thesis by metis
qed

theorem dispatched_fcp_response_reaches_waiter_witness:
  "\<exists>src' objs' f' w'. dispatch_src sample_env sample_src False
      (kernel_read (env_abi sample_env) (FW_CDEV_EVENT_REQUEST3 sample_fcp_response))
      (sample_objects\<lparr>obj_nodes := sample_fcp_nodes, obj_fcps := [7 \<mapsto> sample_fcp_waiting]\<rparr>) =
      Ret (True, src', objs', [], [FW_CDEV_IOC_SEND_RESPONSE
        \<lparr>sp_rcode = 0, sp_length = 0, sp_data = None, sp_handle = 42\<rparr>]) \<and>
    obj_fcps objs' 7 = Some f' \<and> stack f' 0x7f = Some w' \<and>
    take 4 (fw_frame w') = [0x0c, 0xff, 0x19, 0x07]"
proof -
  let ?objs = "sample_objects\<lparr>obj_nodes := sample_fcp_nodes, obj_fcps := [7 \<mapsto> sample_fcp_waiting]\<rparr>"
  let ?w = "\<lparr>fw_state = WAITER_STATE_PENDING, fw_generation = 0,
      fw_frame = 0xff # 0xff # 0x19 # drop 3 (replicate 8 0), fw_frame_size = 8,
      fw_tstamp = G_MAXUINT\<rparr>"
  have sel: "history sample_fcp_waiting = node_history_reset node_history_init"
    "fcp_node sample_fcp_waiting = Some 2" "fcp_card_id sample_fcp_waiting = 1"
    "width sample_fcp_waiting = 0x200" "resp_node sample_fcp_waiting = Some 2"
    "resp_frame sample_fcp_waiting = Some (replicate 0x200 0)" "resp_length sample_fcp_waiting = 0"
    by (simp_all add: sample_fcp_waiting_def link_waiter_def sample_fcp_def hinawa_fw_fcp_init_def)
  have "serving (sample_fcp_waiting, obj_nodes ?objs)"
    by (simp add: serving_def resp_ok_def sel sample_fcp_nodes_def node_at_def sample_fcp_node_def)
  moreover have "opened ?objs (src_self sample_src)"
    by (simp add: opened_def sample_src_def sample_fcp_nodes_def sample_fcp_node_def)
  moreover have "alone 0x7f ?w sample_fcp_waiting"
    unfolding sample_fcp_waiting_def by (rule alone_link [OF sample_fcp_idle])
  moreover have "response_event (env_constants sample_env) sample_fcp_waiting sample_fcp_node
      sample_fcp_response"
    by (simp add: response_event_def sample_fcp_response_def sel sample_env_def numbered_constants_def
        sample_fcp_node_def)
  moreover have "pending_for sample_command (replicate 8 0) 8 ?w"
    by (simp add: pending_for_def sample_command_def)
  moreover have "responds 6 sample_command 8 (response_of_event sample_fcp_response)"
    by (simp add: responds_def response_of_event_def sample_fcp_response_def response_fits_def
        sample_command_def)
  moreover have "node_at (obj_nodes ?objs) (fcp_node sample_fcp_waiting) = Some sample_fcp_node"
    by (simp add: sel sample_fcp_nodes_def node_at_def)
  moreover have "history_ok (history sample_fcp_waiting)" by (simp add: sel history_ok_reset)
  moreover have "obj_fcps ?objs 7 = Some sample_fcp_waiting" "obj_nodes ?objs 7 = None"
    "rq3_closure sample_fcp_response = 7"
    by (simp_all add: sample_fcp_nodes_def sample_fcp_response_def)
  moreover have "delivered (env_abi sample_env) (src_len sample_src) (FW_CDEV_EVENT_REQUEST3 sample_fcp_response)"
    by (simp add: delivered_def wire_event_def encode_event_def length_event_header [OF sample_abi_ok]
        event_struct_defs sample_src_def sample_fcp_response_def)
  ultimately obtain src' objs' f' where
    "dispatch_src sample_env sample_src False
      (kernel_read (env_abi sample_env) (FW_CDEV_EVENT_REQUEST3 sample_fcp_response)) ?objs =
      Ret (True, src', objs', [], [FW_CDEV_IOC_SEND_RESPONSE
        \<lparr>sp_rcode = RCODE (env_constants sample_env) HINAWA_FW_RCODE_COMPLETE, sp_length = 0,
         sp_data = None, sp_handle = rq3_handle sample_fcp_response\<rparr>]) \<and>
    obj_fcps objs' 7 = Some f' \<and> stack f' 0x7f = Some (answered (response_of_event sample_fcp_response) ?w)"
    using dispatched_fcp_response_reaches_waiter [OF sample_abi_ok sample_source_ok, where objs = ?objs and p = 7 and
        f = sample_fcp_waiting and n = sample_fcp_node and wa = "0x7f" and w = ?w and
        e = sample_fcp_response and rs = "replicate 8 0" and rsize = 8 and
        cm = sample_command and gen = 6]
    by auto
  then show ?thesis
    by (auto simp: sample_env_def numbered_constants_def sample_fcp_response_def answered_def
        response_of_event_def)
qed

text \<open>The handler of \<open>responded\<close> compares the second and the third byte of a frame with those of the
  command without looking at the size of the frame. A frame of one byte is taken for the response when the
  bytes that an earlier event left behind it in the buffer happen to be those of the command.\<close>

lemma short_response_matched:
  assumes "delivered abi (length buf) (FW_CDEV_EVENT_REQUEST3 e)" and "rq3_data e = [b]" "rq3_length e = 1"
    and "drop (length (encode_event abi (FW_CDEV_EVENT_REQUEST3 e))) buf = cm ! 1 # cm ! 2 # rest"
    and "pending_for cm rs rsize w" "3 \<le> length rs" "unat rsize \<le> length rs" "unat rsize < 2 ^ 32" "0 < unat rsize"
  shows "\<exists>s. seen abi buf (FW_CDEV_EVENT_REQUEST3 e) = FW_CDEV_EVENT_REQUEST3 s \<and>
    respond_waiter (response_of_event s) w = Ret (answered (response_of_event s) w) \<and>
    fw_frame_size (answered (response_of_event s) w) = 1"
proof -
  let ?s = "e\<lparr>rq3_data := [b] @ cm ! 1 # cm ! 2 # rest\<rparr>"
  have "seen abi buf (FW_CDEV_EVENT_REQUEST3 e) = FW_CDEV_EVENT_REQUEST3 ?s"
    using assms(1,2,4) by (simp add: delivered_def seen_data_fits)
  moreover have "responds (rq3_generation e) cm rsize (response_of_event ?s)"
    using assms(3,9) by (simp add: responds_def response_fits_def response_of_event_def)
  ultimately show ?thesis
    using response_taken [OF _ assms(5-8)] assms(3) by (auto simp: answered_def response_of_event_def)
qed

end
