(* ===== verification/Fw_Calls.thy ===== *)
theory Fw_Calls
  imports Fw_Source
begin

text \<open>
  The calls that a process makes (\<open>api_call\<close>), what each does to the objects (\<open>perform\<close>, composed from
  the definitions of the components), and when a call is made properly (\<open>call_ok\<close>): the constructors and
  finalisers, every operation of the four classes, and the dispatch of an event. Each call that takes a
  location for an error has it as an argument, null or not.

  A call is one step, whatever other threads do to the node during a blocking transaction being part of
  its schedule. An AV/C transaction works on the object that the dispatcher and other callers also work
  on, so it is several steps between which other calls may come: it enters its waiter, sends its command,
  wakes up any number of times, and leaves; \<open>avc_transaction_steps\<close> shows that these steps are the whole
  function.
\<close>

subsection \<open>The steps of an AV/C transaction\<close>

text \<open>The argument checks, the waiter, and its entry into the list; \<open>None\<close> when a check fails.\<close>

definition avc_enter ::
    "obj_id \<Rightarrow> bytes option \<Rightarrow> u64 \<Rightarrow> bytes option \<Rightarrow> u64 option \<Rightarrow> bool \<Rightarrow> gerror_ptr \<Rightarrow> HinawaFwFcp \<Rightarrow>
     HinawaFwFcp option run" where
  "avc_enter wa cmd cmd_size resp resp_size tstamp_ok error self =
     (case (cmd, resp, resp_size) of
        (Some cm, Some rs, Some rsize) \<Rightarrow>
          if \<not> (2 < cmd_size \<and> cmd_size < ucast FCP_MAXIMUM_FRAME_BYTES) \<or> \<not> 0 < rsize \<or>
             \<not> tstamp_ok \<or> \<not> error_unset error
          then Ret None
          else bind_run (avc_waiter cm rs rsize) (\<lambda>w. Ret (Some (link_waiter wa w self)))
      | _ \<Rightarrow> Ret None)"

text \<open>The command; the function ends here when it fails.\<close>

definition avc_send ::
    "fw_constants \<Rightarrow> sys_ioctl \<Rightarrow> req_schedule \<Rightarrow> obj_id \<Rightarrow> obj_id \<Rightarrow> bytes option \<Rightarrow> u64 \<Rightarrow> gerror_ptr \<Rightarrow>
     HinawaFwFcp \<Rightarrow> nodes \<Rightarrow> (bool \<times> HinawaFwFcp \<times> nodes) run" where
  "avc_send c K sch req wa cmd cmd_size error self ns =
     bind_run (hinawa_fw_fcp_command_with_tstamp c K sch req self ns cmd cmd_size True error)
       (\<lambda>(sent, tstamp, ns, error, io). Ret (sent, if sent then self else abandon_waiter wa self, ns))"

text \<open>The caller after a return of \<open>g_cond_wait_until\<close>.\<close>

definition avc_woken :: "u32 \<Rightarrow> u64 \<Rightarrow> obj_id \<Rightarrow> HinawaFwFcp \<Rightarrow> HinawaFwFcp run" where
  "avc_woken gen resp_size wa self =
     (case stack self wa of
        None \<Rightarrow> Fault Dangling
      | Some w \<Rightarrow>
        if fw_state w = WAITER_STATE_PENDING then Ret self
        else bind_run (deferred gen w) (\<lambda>again.
               if again then bind_run (await_again resp_size w) (\<lambda>w. Ret (put_waiter wa self w))
               else Ret self))"

text \<open>The end, at which the state of the waiter is read.\<close>

definition avc_leave :: "obj_id \<Rightarrow> HinawaFwFcp \<Rightarrow> HinawaFwFcp run" where
  "avc_leave wa self = (case stack self wa of None \<Rightarrow> Fault Dangling | Some w \<Rightarrow> Ret (unlink_waiter wa self))"

definition waits_at :: "obj_id \<Rightarrow> HinawaFwFcp \<Rightarrow> bool" where
  "waits_at wa self = (case stack self wa of None \<Rightarrow> False | Some w \<Rightarrow> fw_state w = WAITER_STATE_PENDING)"

lemma avc_wait_woken:
  "avc_wait gen rsize wa (wake # wakes) self =
     bind_run (fcp_acts (fst wake) self) (\<lambda>self.
     bind_run (avc_woken gen rsize wa self) (\<lambda>self'.
       if waits_at wa self' \<and> (snd wake \<or> \<not> waits_at wa self) then avc_wait gen rsize wa wakes self'
       else Ret self'))"
proof (cases "fcp_acts (fst wake) self")
  case (Ret s)
  show ?thesis
  proof (cases "stack s wa")
    case (Some w)
    show ?thesis
    proof (cases "fw_state w = WAITER_STATE_PENDING")
      case True
      with Ret Some show ?thesis by (simp add: avc_woken_def waits_at_def)
    next
      case False
      have again: "fw_state u = WAITER_STATE_PENDING" if "await_again rsize w = Ret u" for u
        using that by (auto simp: await_again_def run_simps)
      show ?thesis
      proof (cases "deferred gen w")
        case (Ret a)
        with \<open>fcp_acts (fst wake) self = Ret s\<close> Some False again show ?thesis
          by (cases "await_again rsize w") (simp_all add: avc_woken_def waits_at_def put_waiter_def)
      qed (use Ret Some False in \<open>simp add: avc_woken_def\<close>)
    qed
  qed (use Ret in \<open>simp add: avc_woken_def\<close>)
qed simp

text \<open>An AV/C transaction is its steps: what it does to the object and the nodes.\<close>

lemma avc_transaction_steps:
  "bind_run (hinawa_fw_fcp_avc_transaction_with_tstamp c K sch wakes req wa self ns cmd cmd_size resp
       resp_size tstamp_ok error) (\<lambda>r. Ret (map_option (\<lambda>r. (av_fcp r, av_nodes r)) r)) =
   bind_run (avc_enter wa cmd cmd_size resp resp_size tstamp_ok error self) (\<lambda>entered.
     case entered of
       None \<Rightarrow> Ret None
     | Some f \<Rightarrow>
         bind_run (avc_send c K sch req wa cmd cmd_size error f ns) (\<lambda>(sent, f, ns').
           if \<not> sent then Ret (Some (f, ns'))
           else
             bind_run (avc_wait (case node_at ns (fcp_node self) of None \<Rightarrow> 0 | Some n \<Rightarrow> br_generation (generation n))
               (the resp_size) wa wakes f) (\<lambda>f.
             bind_run (avc_leave wa f) (\<lambda>f. Ret (Some (f, ns'))))))"
proof (cases "(\<exists>cm rs rsize. cmd = Some cm \<and> resp = Some rs \<and> resp_size = Some rsize \<and> 0 < rsize) \<and>
    2 < cmd_size \<and> cmd_size < ucast FCP_MAXIMUM_FRAME_BYTES \<and> tstamp_ok \<and> error_unset error")
  case False
  then show ?thesis
    by (auto simp: hinawa_fw_fcp_avc_transaction_with_tstamp_def avc_enter_def split: option.split)
next
  case True
  then obtain cm rs rsize where args: "cmd = Some cm" "resp = Some rs" "resp_size = Some rsize" by blast
  show ?thesis
  proof (cases "avc_waiter cm rs rsize")
    case (Ret w)
    let ?f = "link_waiter wa w self"
    let ?gen = "case node_at ns (fcp_node ?f) of None \<Rightarrow> 0 | Some n \<Rightarrow> br_generation (generation n)"
    have node: "fcp_node ?f = fcp_node self" by (simp add: link_waiter_def)
    show ?thesis
    proof (cases "hinawa_fw_fcp_command_with_tstamp c K sch req ?f ns cmd cmd_size True error")
      case cmd: (Ret x)
      obtain sent ts ns' p io where x: "x = (sent, ts, ns', p, io)" by (cases x)
      have fin: "bind_run (case stack f wa of None \<Rightarrow> Fault Dangling
            | Some w \<Rightarrow> Ret (Some (conclude_avc gen rsize ts (unlink_waiter wa f) ns' p io w)))
          (\<lambda>r. Ret (map_option (\<lambda>r. (av_fcp r, av_nodes r)) r)) =
        bind_run (avc_leave wa f) (\<lambda>f. Ret (Some (f, ns')))" for f gen
        by (simp add: avc_leave_def conclude_avc_def Let_def split: option.split waiter_state.split)
      show ?thesis
        using True Ret cmd x args
        by (cases sent; cases "avc_wait ?gen rsize wa wakes ?f")
           (simp_all add: hinawa_fw_fcp_avc_transaction_with_tstamp_def avc_enter_def avc_send_def fin node)
    qed (use True Ret args in \<open>simp add: hinawa_fw_fcp_avc_transaction_with_tstamp_def avc_enter_def avc_send_def\<close>)
  qed (use True args in \<open>simp add: hinawa_fw_fcp_avc_transaction_with_tstamp_def avc_enter_def\<close>)
qed

subsection \<open>Calls\<close>

datatype api_call =
    New_Node obj_id
  | New_Resp obj_id
  | New_Fcp obj_id
  | New_Req obj_id
  | Free_Node obj_id
  | Free_Resp obj_id
  | Free_Fcp obj_id
  | Free_Req obj_id
  | Open obj_id "string option" int gerror_ptr
  | Get_Config_Rom obj_id bool bool gerror_ptr
  | Read_Cycle_Time obj_id u32 "HinawaCycleTime option" gerror_ptr
  | Create_Source obj_id nat bool gerror_ptr
  | Reserve obj_id "obj_id option" u64 u64 u32 gerror_ptr
  | Release obj_id
  | Set_Resp_Frame obj_id "bytes option" u64
  | Bind obj_id "obj_id option" gerror_ptr
  | Unbind obj_id
  | Request obj_id obj_id HinawaFwTcode u64 u64 "bytes option" "u64 option" gerror_ptr
  | Transaction req_schedule obj_id obj_id HinawaFwTcode u64 u64 "bytes option" "u64 option" bool gerror_ptr
  | Command req_schedule obj_id obj_id "bytes option" u64 bool gerror_ptr
  | Avc_Enter obj_id obj_id "bytes option" u64 "bytes option" "u64 option" bool gerror_ptr
  | Avc_Send req_schedule obj_id obj_id obj_id "bytes option" u64 gerror_ptr
  | Avc_Woken obj_id obj_id u32 u64
  | Avc_Leave obj_id obj_id
  | Dispatch FwNodeSource bool fw_cdev_event

text \<open>An object that must exist.\<close>

definition with_object :: "'o option \<Rightarrow> ('o \<Rightarrow> objects run) \<Rightarrow> objects run" where
  "with_object x f = (case x of None \<Rightarrow> Fault Dangling | Some y \<Rightarrow> f y)"

lemma with_object_simps [simp]:
  "with_object None f = Fault Dangling" "with_object (Some x) f = f x"
  by (simp_all add: with_object_def)

text \<open>The constructors: \<open>g_object_new\<close> makes an object whose private structure is zero and runs its
  initialiser; a request has no state and its initialiser does nothing.\<close>

definition hinawa_fw_node_new :: "obj_id \<Rightarrow> objects \<Rightarrow> objects" where
  "hinawa_fw_node_new p objs = put_node p hinawa_fw_node_init objs"

definition hinawa_fw_resp_new :: "obj_id \<Rightarrow> objects \<Rightarrow> objects" where
  "hinawa_fw_resp_new p objs = put_resp p hinawa_fw_resp_init (obj_nodes objs) objs"

definition hinawa_fw_fcp_new :: "obj_id \<Rightarrow> objects \<Rightarrow> objects" where
  "hinawa_fw_fcp_new p objs = put_fcp p hinawa_fw_fcp_init (obj_nodes objs) objs"

definition hinawa_fw_req_new :: "obj_id \<Rightarrow> objects \<Rightarrow> objects" where
  "hinawa_fw_req_new p objs = objs\<lparr>obj_reqs := (\<lambda>q. q = p \<or> obj_reqs objs q)\<rparr>"

text \<open>The last reference to an object is dropped: its finaliser runs, and its memory is gone.\<close>

definition drop_node :: "obj_id \<Rightarrow> objects \<Rightarrow> objects" where
  "drop_node p objs = objs\<lparr>obj_nodes := (obj_nodes objs)(p := None)\<rparr>"

definition drop_resp :: "obj_id \<Rightarrow> nodes \<Rightarrow> objects \<Rightarrow> objects" where
  "drop_resp p ns objs = objs\<lparr>obj_nodes := ns, obj_resps := (obj_resps objs)(p := None)\<rparr>"

definition drop_fcp :: "obj_id \<Rightarrow> nodes \<Rightarrow> objects \<Rightarrow> objects" where
  "drop_fcp p ns objs = objs\<lparr>obj_nodes := ns, obj_fcps := (obj_fcps objs)(p := None)\<rparr>"

definition drop_req :: "obj_id \<Rightarrow> objects \<Rightarrow> objects" where
  "drop_req p objs = objs\<lparr>obj_reqs := (obj_reqs objs)(p := False)\<rparr>"

lemmas constructor_defs [simp] = hinawa_fw_node_new_def hinawa_fw_resp_new_def hinawa_fw_fcp_new_def
  hinawa_fw_req_new_def

text \<open>The node as a call left it.\<close>

definition left_node :: "obj_id \<Rightarrow> HinawaFwNode option \<Rightarrow> objects \<Rightarrow> objects" where
  "left_node p n objs = (case n of None \<Rightarrow> objs | Some n \<Rightarrow> put_node p n objs)"

lemma left_node_simps [simp]: "left_node p None objs = objs" "left_node p (Some n) objs = put_node p n objs"
  by (simp_all add: left_node_def)

primrec perform ::
    "environment \<Rightarrow> sys_open \<Rightarrow> (int \<Rightarrow> int option) \<Rightarrow> api_call \<Rightarrow> objects \<Rightarrow> objects run" where
  "perform env SO fe (New_Node p) objs = Ret (hinawa_fw_node_new p objs)"
| "perform env SO fe (New_Resp p) objs = Ret (hinawa_fw_resp_new p objs)"
| "perform env SO fe (New_Fcp p) objs = Ret (hinawa_fw_fcp_new p objs)"
| "perform env SO fe (New_Req p) objs = Ret (hinawa_fw_req_new p objs)"
| "perform env SO fe (Free_Node p) objs =
     with_object (obj_nodes objs p) (\<lambda>n. let closed = fw_node_finalize n in Ret (drop_node p objs))"
| "perform env SO fe (Free_Resp p) objs =
     with_object (obj_resps objs p) (\<lambda>r.
       let (r, ns, io) = fw_resp_finalize (env_ioctl env) r (obj_nodes objs) in Ret (drop_resp p ns objs))"
| "perform env SO fe (Free_Fcp p) objs =
     with_object (obj_fcps objs p) (\<lambda>f.
       bind_run (fw_fcp_finalize (env_ioctl env) f (obj_nodes objs)) (\<lambda>(f, ns, io).
         Ret (drop_fcp p ns objs)))"
| "perform env SO fe (Free_Req p) objs = (if obj_reqs objs p then Ret (drop_req p objs) else Fault Dangling)"
| "perform env SO fe (Open p path flag error) objs =
     with_object (obj_nodes objs p) (\<lambda>n.
       bind_run (hinawa_fw_node_open (env_little_endian env) SO (env_get_info env) fe p n path flag error)
         (\<lambda>(ok, n, error, closed). Ret (put_node p n objs)))"
| "perform env SO fe (Get_Config_Rom p image_ok length_ok error) objs =
     with_object (obj_nodes objs p) (\<lambda>n.
       let (ok, rom, error) = hinawa_fw_node_get_config_rom n image_ok length_ok error in Ret objs)"
| "perform env SO fe (Read_Cycle_Time p clock_id cycle_time error) objs =
     with_object (obj_nodes objs p) (\<lambda>n.
       bind_run (hinawa_fw_node_read_cycle_time (env_ioctl env) (Some n) clock_id cycle_time error)
         (\<lambda>(ok, cycle_time, n, error). Ret (left_node p n objs)))"
| "perform env SO fe (Create_Source p page gsrc_ok error) objs =
     with_object (obj_nodes objs p) (\<lambda>n.
       let (ok, src, error) = hinawa_fw_node_create_source page p n gsrc_ok error in Ret objs)"
| "perform env SO fe (Reserve p node region_start region_end w error) objs =
     with_object (obj_resps objs p) (\<lambda>r.
       bind_run (hinawa_fw_resp_reserve_within_region (env_ioctl env) p r (obj_nodes objs) node
           region_start region_end w error)
         (\<lambda>(ok, r, ns, error, io). Ret (put_resp p r ns objs)))"
| "perform env SO fe (Release p) objs =
     with_object (obj_resps objs p) (\<lambda>r.
       let (r, ns, io) = hinawa_fw_resp_release (env_ioctl env) r (obj_nodes objs)
       in Ret (put_resp p r ns objs))"
| "perform env SO fe (Set_Resp_Frame p frame len) objs =
     with_object (obj_resps objs p) (\<lambda>r.
       bind_run (hinawa_fw_resp_set_resp_frame r frame len) (\<lambda>r.
         Ret (put_resp p r (obj_nodes objs) objs)))"
| "perform env SO fe (Bind p node error) objs =
     with_object (obj_fcps objs p) (\<lambda>f.
       bind_run (hinawa_fw_fcp_bind (env_ioctl env) p f (obj_nodes objs) node error)
         (\<lambda>(ok, f, ns, error, io). Ret (put_fcp p f ns objs)))"
| "perform env SO fe (Unbind p) objs =
     with_object (obj_fcps objs p) (\<lambda>f.
       bind_run (hinawa_fw_fcp_unbind (env_ioctl env) f (obj_nodes objs))
         (\<lambda>(f, ns, io). Ret (put_fcp p f ns objs)))"
| "perform env SO fe (Request p req tcode addr len frame frame_size error) objs =
     with_object (obj_nodes objs p) (\<lambda>n.
       bind_run (hinawa_fw_req_request (env_constants env) (env_ioctl env) req (Some n) tcode addr len
           frame frame_size error)
         (\<lambda>(ok, n, error, io). Ret (left_node p n objs)))"
| "perform env SO fe (Transaction sch p req tcode addr len frame frame_size tstamp_ok error) objs =
     with_object (obj_nodes objs p) (\<lambda>n.
       bind_run (hinawa_fw_req_transaction_with_tstamp (env_constants env) (env_ioctl env) sch req (Some n)
           tcode addr len frame frame_size tstamp_ok error)
         (\<lambda>t. Ret (left_node p (Option.bind t tx_node) objs)))"
| "perform env SO fe (Command sch p req cmd cmd_size tstamp_ok error) objs =
     with_object (obj_fcps objs p) (\<lambda>f.
       bind_run (hinawa_fw_fcp_command_with_tstamp (env_constants env) (env_ioctl env) sch req f
           (obj_nodes objs) cmd cmd_size tstamp_ok error)
         (\<lambda>(ok, tstamp, ns, error, io). Ret (put_fcp p f ns objs)))"
| "perform env SO fe (Avc_Enter p a cmd cmd_size resp resp_size tstamp_ok error) objs =
     with_object (obj_fcps objs p) (\<lambda>f.
       bind_run (avc_enter a cmd cmd_size resp resp_size tstamp_ok error f) (\<lambda>entered.
         Ret (case entered of None \<Rightarrow> objs | Some f \<Rightarrow> put_fcp p f (obj_nodes objs) objs)))"
| "perform env SO fe (Avc_Send sch p a req cmd cmd_size error) objs =
     with_object (obj_fcps objs p) (\<lambda>f.
       bind_run (avc_send (env_constants env) (env_ioctl env) sch req a cmd cmd_size error f (obj_nodes objs))
         (\<lambda>(sent, f, ns). Ret (put_fcp p f ns objs)))"
| "perform env SO fe (Avc_Woken p a gen resp_size) objs =
     with_object (obj_fcps objs p) (\<lambda>f.
       bind_run (avc_woken gen resp_size a f) (\<lambda>f. Ret (put_fcp p f (obj_nodes objs) objs)))"
| "perform env SO fe (Avc_Leave p a) objs =
     with_object (obj_fcps objs p) (\<lambda>f.
       bind_run (avc_leave a f) (\<lambda>f. Ret (put_fcp p f (obj_nodes objs) objs)))"
| "perform env SO fe (Dispatch src io_err event) objs =
     bind_run (dispatch_src env src io_err (kernel_read (env_abi env) event) objs)
       (\<lambda>(continue, src, objs, sigs, io). Ret objs)"

subsection \<open>Proper calls\<close>

definition unused :: "objects \<Rightarrow> obj_id \<Rightarrow> bool" where
  "unused objs p \<longleftrightarrow> p \<noteq> 0 \<and> object_type_of objs p = Fault Dangling"

text \<open>Responders and bound FCP objects hold a reference to their node.\<close>

definition unreferenced :: "objects \<Rightarrow> obj_id \<Rightarrow> bool" where
  "unreferenced objs p \<longleftrightarrow> (\<forall>q r. obj_resps objs q = Some r \<longrightarrow> resp_node r \<noteq> Some p) \<and>
     (\<forall>q f. obj_fcps objs q = Some f \<longrightarrow> resp_node f \<noteq> Some p \<and> fcp_node f \<noteq> Some p)"

text \<open>A buffer as large as declared.\<close>

definition buffer_ok :: "bytes option \<Rightarrow> u64 \<Rightarrow> bool" where
  "buffer_ok buf k = (case buf of None \<Rightarrow> True | Some b \<Rightarrow> unat k \<le> length b)"

text \<open>A pointer to a node is null or leads to one.\<close>

definition node_or_null :: "objects \<Rightarrow> obj_id option \<Rightarrow> bool" where
  "node_or_null objs node = (case node of None \<Rightarrow> True | Some p \<Rightarrow> obj_nodes objs p \<noteq> None)"

text \<open>What happens during a blocking transaction: responses carry the bytes they declare, and other threads
  leave the node well-formed and its descriptor as it is.\<close>

definition schedule_ok :: "req_schedule \<Rightarrow> bool" where
  "schedule_ok sch \<longleftrightarrow> list_all signal_ok (deliveries sch) \<and>
     (\<forall>n. fd (sch_node sch n) = fd n \<and> (node_ok n \<longrightarrow> node_ok (sch_node sch n)))"

text \<open>The waiter of an AV/C transaction that is under way.\<close>

definition under_way :: "objects \<Rightarrow> obj_id \<Rightarrow> obj_id \<Rightarrow> bool" where
  "under_way objs p a = (case obj_fcps objs p of None \<Rightarrow> False | Some f \<Rightarrow> stack f a \<noteq> None)"

text \<open>Whether the command of an AV/C transaction is answered: the function returns true.\<close>

definition command_succeeds ::
    "environment \<Rightarrow> req_schedule \<Rightarrow> obj_id \<Rightarrow> obj_id \<Rightarrow> bytes option \<Rightarrow> u64 \<Rightarrow> gerror_ptr \<Rightarrow> objects \<Rightarrow> bool" where
  "command_succeeds env sch p req cmd cmd_size error objs =
     (case obj_fcps objs p of
        None \<Rightarrow> False
      | Some f \<Rightarrow>
        (case hinawa_fw_fcp_command_with_tstamp (env_constants env) (env_ioctl env) sch req f
                (obj_nodes objs) cmd cmd_size True error of
           Ret (sent, _) \<Rightarrow> sent
         | Fault _ \<Rightarrow> True))"

text \<open>New objects are made at unused addresses. Calls are made on objects that exist, with buffers as large
  as declared, for AV/C responses of at least 512 bytes, and with a location for the error in the functions that
  look through it without a check. An object is dropped when nothing refers to it. An object that was unbound
  is bound again when the AV/C transactions that the unbinding aborted have returned: \<open>LIST_INIT\<close> forgets
  waiters that a later \<open>LIST_REMOVE\<close> still takes to be linked. Events are for live objects, carry the data
  they declare and fit into the buffer of the source. The command of an AV/C transaction is answered.\<close>

primrec call_ok :: "environment \<Rightarrow> objects \<Rightarrow> api_call \<Rightarrow> bool" where
  "call_ok env objs (New_Node p) \<longleftrightarrow> unused objs p"
| "call_ok env objs (New_Resp p) \<longleftrightarrow> unused objs p"
| "call_ok env objs (New_Fcp p) \<longleftrightarrow> unused objs p"
| "call_ok env objs (New_Req p) \<longleftrightarrow> unused objs p"
| "call_ok env objs (Free_Node p) \<longleftrightarrow> obj_nodes objs p \<noteq> None \<and> unreferenced objs p"
| "call_ok env objs (Free_Resp p) \<longleftrightarrow> obj_resps objs p \<noteq> None"
| "call_ok env objs (Free_Fcp p) \<longleftrightarrow>
     (case obj_fcps objs p of None \<Rightarrow> False | Some f \<Rightarrow> stack f = Map.empty)"
| "call_ok env objs (Free_Req p) \<longleftrightarrow> obj_reqs objs p"
| "call_ok env objs (Open p path flag error) \<longleftrightarrow> obj_nodes objs p \<noteq> None"
| "call_ok env objs (Get_Config_Rom p image_ok length_ok error) \<longleftrightarrow> obj_nodes objs p \<noteq> None"
| "call_ok env objs (Read_Cycle_Time p clock_id cycle_time error) \<longleftrightarrow> obj_nodes objs p \<noteq> None"
| "call_ok env objs (Create_Source p page gsrc_ok error) \<longleftrightarrow> obj_nodes objs p \<noteq> None"
| "call_ok env objs (Reserve p node region_start region_end w error) \<longleftrightarrow>
     obj_resps objs p \<noteq> None \<and> node_or_null objs node \<and> error \<noteq> NullErr"
| "call_ok env objs (Release p) \<longleftrightarrow> obj_resps objs p \<noteq> None"
| "call_ok env objs (Set_Resp_Frame p frame len) \<longleftrightarrow> obj_resps objs p \<noteq> None \<and> buffer_ok frame len"
| "call_ok env objs (Bind p node error) \<longleftrightarrow>
     (case obj_fcps objs p of None \<Rightarrow> False | Some f \<Rightarrow> fcp_node f \<noteq> None \<or> stack f = Map.empty) \<and>
     node_or_null objs node \<and> error \<noteq> NullErr"
| "call_ok env objs (Unbind p) \<longleftrightarrow> obj_fcps objs p \<noteq> None"
| "call_ok env objs (Request p req tcode addr len frame frame_size error) \<longleftrightarrow>
     obj_nodes objs p \<noteq> None \<and> error \<noteq> NullErr"
| "call_ok env objs (Transaction sch p req tcode addr len frame frame_size tstamp_ok error) \<longleftrightarrow>
     obj_nodes objs p \<noteq> None \<and> error \<noteq> NullErr \<and> schedule_ok sch \<and> frame \<noteq> None \<and>
     (case frame_size of None \<Rightarrow> False | Some k \<Rightarrow> buffer_ok frame k)"
| "call_ok env objs (Command sch p req cmd cmd_size tstamp_ok error) \<longleftrightarrow>
     obj_fcps objs p \<noteq> None \<and> error \<noteq> NullErr \<and> schedule_ok sch \<and> buffer_ok cmd cmd_size"
| "call_ok env objs (Avc_Enter p a cmd cmd_size resp resp_size tstamp_ok error) \<longleftrightarrow>
     (case obj_fcps objs p of
        None \<Rightarrow> False | Some f \<Rightarrow> stack f a = None \<and> a \<notin> set (fcp_transactions f)) \<and>
     buffer_ok cmd cmd_size \<and> buffer_ok resp 0x200 \<and>
     (case resp_size of None \<Rightarrow> True | Some k \<Rightarrow> buffer_ok resp k)"
| "call_ok env objs (Avc_Send sch p a req cmd cmd_size error) \<longleftrightarrow>
     under_way objs p a \<and> error \<noteq> NullErr \<and> schedule_ok sch \<and> buffer_ok cmd cmd_size \<and>
     command_succeeds env sch p req cmd cmd_size error objs"
| "call_ok env objs (Avc_Woken p a gen resp_size) \<longleftrightarrow>
     (case obj_fcps objs p of
        None \<Rightarrow> False
      | Some f \<Rightarrow> (case stack f a of None \<Rightarrow> False | Some w \<Rightarrow> unat resp_size \<le> length (fw_frame w)))"
| "call_ok env objs (Avc_Leave p a) \<longleftrightarrow> under_way objs p a"
| "call_ok env objs (Dispatch src io_err event) \<longleftrightarrow> obj_nodes objs (src_self src) \<noteq> None \<and>
     source_ok src \<and> delivered (env_abi env) (src_len src) event \<and> alive objs event"

definition no_objects :: objects where
  "no_objects = \<lparr>obj_nodes = Map.empty, obj_resps = Map.empty, obj_fcps = Map.empty, obj_reqs = (\<lambda>_. False)\<rparr>"

text \<open>What is relied on of the environment: the kernel does what it documents, user handlers behave.\<close>

definition environment_ok :: "environment \<Rightarrow> sys_open \<Rightarrow> bool" where
  "environment_ok env SO \<longleftrightarrow> abi_ok (env_abi env) \<and> errno_ok (env_ioctl env) \<and> allocate_ok (env_ioctl env) \<and>
     info_ok (env_get_info env) \<and> open_ok SO \<and> (\<forall>p. handler_ok (env_requested env p))"

text \<open>The states that a process reaches by proper calls. The kernel and the handlers may behave differently
  in each call.\<close>

inductive reachable :: "objects \<Rightarrow> bool" where
  start: "reachable no_objects"
| call: "reachable objs \<Longrightarrow> environment_ok env SO \<Longrightarrow> call_ok env objs x \<Longrightarrow>
     perform env SO fe x objs = Ret objs' \<Longrightarrow> reachable objs'"

end
