(* ===== verification/Fw_Lifecycle.thy ===== *)
theory Fw_Lifecycle
  imports Fw_Calls
begin

text \<open>
  The states that a process reaches by the calls of \<open>Fw_Calls\<close>: each call keeps the objects well-formed
  and none faults. What \<open>call_ok\<close> asks of the caller beyond the documented use is needed:
  \<open>failed_command_dangles\<close> and \<open>null_location_faults\<close> at the end.
\<close>

subsection \<open>Each call keeps the objects well-formed\<close>

lemma open_keeps:
  assumes "node_ok n" and "open_ok SO" and "info_ok KI"
  shows "\<exists>ok n' e closed. hinawa_fw_node_open le SO KI fe self n path flag error = Ret (ok, n', e, closed) \<and>
    node_ok n' \<and> (0 \<le> fd n \<longrightarrow> 0 \<le> fd n')"
proof (cases "\<exists>d pa. path = Some pa \<and> pa \<noteq> [] \<and> fd n < 0 \<and> SO pa (or flag 0) = Inr d \<and> error_unset error")
  case True
  then obtain d pa where p: "path = Some pa" "pa \<noteq> []" "fd n < 0" "SO pa (or flag 0) = Inr d" "error_unset error"
    by blast
  have "case SO pa (or flag 0) of Inl e \<Rightarrow> 0 < e | Inr d \<Rightarrow> 0 \<le> d"
    using assms(2) unfolding open_ok_def by blast
  with p(4) have "0 \<le> d" by simp
  with assms(1) have "node_ok (n\<lparr>fd := d\<rparr>)" by (simp add: node_ok_def)
  then obtain e n' where u: "update_info le KI self (n\<lparr>fd := d\<rparr>) = Ret (e, n')" "node_ok n'"
    using update_info_ok [OF _ assms(3)] by metis
  with p show ?thesis by (auto simp: hinawa_fw_node_open_def node_ok_def)
next
  case False
  with assms(1) show ?thesis
    by (auto simp: hinawa_fw_node_open_def node_ok_def split: option.split sum.split)
qed

lemma error_set: "error \<noteq> NullErr \<Longrightarrow> error \<noteq> Err None \<Longrightarrow> \<not> error_unset error"
  by (cases error) auto

lemma reserve_cases:
  fixes r :: "'a HinawaFwResp_scheme"
  assumes K: "errno_ok K" and error: "error \<noteq> NullErr"
  obtains (refused) p io where "hinawa_fw_resp_reserve_within_region K self r ns node region_start
      region_end w error = Ret (False, r, ns, p, io)"
  | (granted) n b p io where "hinawa_fw_resp_reserve_within_region K self r ns node region_start
      region_end w error = Ret (True, granted_range node
        (allocate_arg (allocate_request self region_start region_end w) b) r, ns, p, io)"
      "node_at ns node = Some n" "0 \<le> fd n" "resp_node r = None" "error = Err None"
      "K (fd n) (FW_CDEV_IOC_ALLOCATE (allocate_request self region_start region_end w)) = Inr b"
proof (cases "0 < w \<and> resp_node r = None \<and> error = Err None")
  case False
  then have "\<exists>p io. hinawa_fw_resp_reserve_within_region K self r ns node region_start region_end w
      error = Ret (False, r, ns, p, io)"
    using error_set [OF error] by (cases "0 < w") (auto simp: hinawa_fw_resp_reserve_within_region_def)
  with refused show ?thesis by blast
next
  case True
  let ?a = "allocate_request self region_start region_end w"
  show ?thesis
  proof (cases "\<exists>n. node_at ns node = Some n \<and> 0 \<le> fd n")
    case opened: True
    then obtain n where n: "node_at ns node = Some n" "0 \<le> fd n" by blast
    from True n K show ?thesis
      using reserve_eq [of K w r ns node n self region_start region_end] refused granted
      by (cases "K (fd n) (FW_CDEV_IOC_ALLOCATE ?a)") auto
  next
    case False
    obtain e a' ns' p io where io: "ioctl_at K ns node (FW_CDEV_IOC_ALLOCATE ?a) (Err None) = (e, a', ns', p, io)"
      by (metis prod_cases5)
    have "ns' = ns" using io by (rule ioctl_at_nodes) simp
    moreover have "e = ENXIO \<and> p \<noteq> NullErr"
      using ioctl_at_eq [OF io] False by (cases rule: node_ioctl_cases) auto
    ultimately have "\<exists>p io. hinawa_fw_resp_reserve_within_region K self r ns node region_start
        region_end w error = Ret (False, r, ns, p, io)"
      using True io by (cases p) (auto simp: hinawa_fw_resp_reserve_within_region_def)
    with refused show ?thesis by blast
  qed
qed

lemma granted_serving:
  assumes "resp_ok r" and "resp_node r = None" and "node_at ns node = Some n" and "0 \<le> fd n"
  shows "serving (granted_range node a r, ns)"
proof -
  have "node \<noteq> None" using assms(3) by (cases node) (simp_all add: node_at_def)
  with granted_range_ok [OF assms(1,2), of node a] assms(3,4) show ?thesis
    by (simp add: serving_def) (simp add: granted_range_def)
qed

lemma reserve_keeps:
  assumes "errno_ok K" and "resp_live ns r" and "error \<noteq> NullErr"
  shows "\<exists>ok r' p io. hinawa_fw_resp_reserve_within_region K self r ns node region_start region_end w
      error = Ret (ok, r', ns, p, io) \<and> resp_live ns r'"
  using assms(1,3)
proof (cases rule: reserve_cases [where self = self and r = r and ns = ns and node = node and
      region_start = region_start and region_end = region_end and w = w])
  case (refused p io)
  with assms(2) show ?thesis by auto
next
  case (granted n b p io)
  have "resp_ok r" using assms(2) granted(4) by (simp add: resp_live_def)
  note serving = granted_serving [OF this granted(4,2,3),
      of "allocate_arg (allocate_request self region_start region_end w) b"]
  then have "resp_live ns (granted_range node
      (allocate_arg (allocate_request self region_start region_end w) b) r)"
    using serving_holds [OF serving] by (auto simp: resp_live_def)
  with granted(1) show ?thesis by blast
qed

lemma release_keeps:
  assumes "resp_live ns r"
  shows "\<exists>r' io. hinawa_fw_resp_release K r ns = (r', ns, io) \<and> resp_ok r' \<and> resp_node r' = None"
proof -
  have "resp_ok r" using assms by (auto simp: resp_live_def serving_def split: if_splits)
  with release_ok [OF this] show ?thesis by (metis prod_cases3)
qed

lemma set_resp_frame_keeps:
  assumes "resp_live ns r" and "buffer_ok frame len"
  shows "\<exists>r'. hinawa_fw_resp_set_resp_frame r frame len = Ret r' \<and> resp_live ns r'"
proof -
  have "resp_ok r" using assms(1) by (auto simp: resp_live_def serving_def split: if_splits)
  from set_resp_frame_ok [OF this assms(2) [unfolded buffer_ok_def]] obtain r' where
    "hinawa_fw_resp_set_resp_frame r frame len = Ret r'" "resp_ok r'" "resp_node r' = resp_node r"
    by blast
  with assms(1) show ?thesis by (auto simp: resp_live_def serving_def split: if_splits)
qed

lemma granted_fcp_live:
  assumes serving: "serving (granted_range node a g, ns)" and w: "unat (al_length a) \<le> 0x200"
    and h: "history_ok h" and n: "node_at ns node = Some n" and g: "fcp_transactions g = []"
  shows "fcp_live ns ((granted_range node a g)\<lparr>fcp_card_id := i, history := h, fcp_node := node\<rparr>)"
proof -
  let ?g = "granted_range node a g"
  let ?f = "?g\<lparr>fcp_card_id := i, history := h, fcp_node := node\<rparr>"
  have "serving (?f, ns)" using serving by simp
  moreover have "waiters_ok ?f" using g by (simp add: waiters_ok_def waiters_roomy_def granted_range_def)
  moreover have "width ?f = al_length a" by (simp add: granted_range_def)
  moreover obtain m where "resp_node ?f = Some m" using serving_holds [OF serving] by auto
  ultimately show ?thesis using w h n by (simp add: fcp_live_def fcp_bound_def)
qed

lemma bind_keeps:
  assumes K: "errno_ok K" "allocate_ok K" and live: "fcp_live ns f" and error: "error \<noteq> NullErr"
  shows "\<exists>ok f' p io. hinawa_fw_fcp_bind K self f ns node error = Ret (ok, f', ns, p, io) \<and> fcp_live ns f' \<and>
    stack f' = stack f"
proof (cases "node = None \<or> fcp_node f \<noteq> None \<or> error \<noteq> Err None")
  case True
  with live error_set [OF error] show ?thesis by (auto simp: hinawa_fw_fcp_bind_def)
next
  case False
  then obtain nd where nd: "node = Some nd" and unbound: "fcp_node f = None" and e: "error = Err None" by auto
  let ?f = "f\<lparr>fcp_transactions := []\<rparr>"
  have free: "resp_node f = None"
    using live unbound by (auto simp: fcp_live_def fcp_bound_def node_at_def split: if_splits)
  with live have ok: "resp_ok f" by (simp add: fcp_live_def)
  then have ok': "resp_ok ?f" by simp
  from K(1) error show ?thesis
  proof (cases rule: reserve_cases [where self = self and r = ?f and ns = ns and node = node and
        region_start = FCP_RESPOND_ADDR and region_end = "FCP_RESPOND_ADDR + ucast FCP_MAXIMUM_FRAME_BYTES"
        and w = FCP_MAXIMUM_FRAME_BYTES])
    case (refused p io)
    have "fcp_live ns ?f" using free ok' by (simp add: fcp_live_def waiters_ok_def waiters_roomy_def)
    moreover have "hinawa_fw_fcp_bind K self f ns node error = Ret (False, ?f, ns, p, io)"
      using refused nd unbound e by (simp add: hinawa_fw_fcp_bind_def hinawa_fw_resp_reserve_def)
    ultimately show ?thesis by auto
  next
    case (granted n b p io)
    from granted(6) K(2) obtain a where a: "b = FW_CDEV_IOC_ALLOCATE a" "al_length a = FCP_MAXIMUM_FRAME_BYTES"
      unfolding allocate_ok_def by (fastforce simp: allocate_request_def)
    obtain h where h: "history_ok h"
      and bind: "\<exists>io. hinawa_fw_fcp_bind K self f ns node (Err None) = Ret (True, (granted_range node a ?f)
        \<lparr>fcp_card_id := card_id n, history := h, fcp_node := node\<rparr>, ns, Err None, io)"
      using bind_eq [OF K(1) unbound free granted(2,3)] granted(6) a(1) by blast
    have "unat (al_length a) \<le> 0x200" by (simp add: a(2) FCP_MAXIMUM_FRAME_BYTES_def)
    from granted_fcp_live [OF granted_serving [OF ok' granted(4,2,3)] this h granted(2)] bind e
    show ?thesis by (fastforce simp: granted_range_def)
  qed
qed

lemma release_fcp_fields:
  fixes f :: HinawaFwFcp
  assumes "hinawa_fw_resp_release K f ns = (f', ns', io)"
  shows "fcp_transactions f' = fcp_transactions f \<and> stack f' = stack f \<and> fcp_node f' = fcp_node f"
  using assms by (auto simp: hinawa_fw_resp_release_def split: if_splits prod.splits)

lemma abort_waiter_roomy: "waiter_roomy w \<Longrightarrow> \<exists>w'. abort_waiter w = Ret w' \<and> waiter_roomy w'"
  by (simp add: abort_waiter_def waiter_roomy_def)

subsection \<open>The buffers of waiting callers\<close>

text \<open>The handlers write into the buffers and never make them smaller.\<close>

definition same_buffers :: "(obj_id \<Rightarrow> fcp_waiter option) \<Rightarrow> (obj_id \<Rightarrow> fcp_waiter option) \<Rightarrow> bool" where
  "same_buffers ws ws' \<longleftrightarrow>
     (\<forall>a. map_option (\<lambda>w. length (fw_frame w)) (ws' a) = map_option (\<lambda>w. length (fw_frame w)) (ws a))"

lemma same_buffers_refl [simp]: "same_buffers ws ws"
  by (simp add: same_buffers_def)

lemma same_buffers_trans: "same_buffers a b \<Longrightarrow> same_buffers b c \<Longrightarrow> same_buffers a c"
  by (simp add: same_buffers_def)

lemma each_waiter_buffers:
  assumes "each_waiter g as ws = Ret ws'"
    and "\<And>w w'. g w = Ret w' \<Longrightarrow> length (fw_frame w') = length (fw_frame w)"
  shows "same_buffers ws ws'"
  using assms(1)
proof (induction as arbitrary: ws)
  case (Cons a as)
  then obtain w w' where w: "ws a = Some w" "g w = Ret w'" "each_waiter g as (ws(a \<mapsto> w')) = Ret ws'"
    by (auto simp: run_simps split: option.splits)
  have "same_buffers ws (ws(a \<mapsto> w'))" using w(1) assms(2) [OF w(2)] by (simp add: same_buffers_def)
  with Cons.IH [OF w(3)] show ?case using same_buffers_trans by blast
qed simp

lemma respond_waiter_buffer: "respond_waiter s w = Ret w' \<Longrightarrow> length (fw_frame w') = length (fw_frame w)"
  by (auto simp: respond_waiter_def run_simps memcpy_Ret_iff split: if_splits)

lemma abort_waiter_buffer: "abort_waiter w = Ret w' \<Longrightarrow> length (fw_frame w') = length (fw_frame w)"
  by (auto simp: abort_waiter_def split: if_splits)

lemma emit_times_buffers: "emit_times k s f = Ret f' \<Longrightarrow> same_buffers (stack f) (stack f')"
proof (induction k arbitrary: f)
  case (Suc k)
  then obtain ws where ws: "each_waiter (respond_waiter s) (fcp_transactions f) (stack f) = Ret ws"
    "emit_times k s (f\<lparr>stack := ws\<rparr>) = Ret f'"
    by (auto simp: handle_responded_signal_def run_simps)
  have "same_buffers (stack f) ws" using respond_waiter_buffer by (rule each_waiter_buffers [OF ws(1)])
  with Suc.IH [OF ws(2)] show ?case using same_buffers_trans by auto
qed simp

lemma requested_buffers:
  assumes "fcp_requested c uninit sig st = Ret (ret, st')"
  shows "same_buffers (stack (fst st)) (stack (fst st'))"
proof -
  obtain acc g where g: "accept_response c uninit sig (fst st) (snd st) = Ret (acc, g)"
    and f: "(if acc then emit_responded \<lparr>fr_generation = rd_generation sig, fr_tstamp = rd_tstamp sig,
        fr_frame = rd_frame sig, fr_frame_size = rd_length sig\<rparr> g else Ret g) = Ret (fst st')"
    using assms by (auto simp: fcp_requested_def handle_requested_signal_def run_simps)
  have "stack g = stack (fst st)"
    using g by (auto simp: accept_response_def Let_def run_simps split: if_splits)
  with f emit_times_buffers show ?thesis by (fastforce simp: emit_responded_def split: if_splits)
qed

lemma answer_request_buffers:
  fixes f :: HinawaFwFcp
  assumes "answer_request c K (fcp_requested c' uninit) sig handle (f, ns) = Ret (st', io)"
  shows "same_buffers (stack f) (stack (fst st'))"
proof -
  let ?f = "\<lambda>fr. f\<lparr>resp_frame := fr, resp_length := 0\<rparr>"
  obtain fr ret g ns' where
    E: "(if resp_node (?f fr) = None \<or> width (?f fr) < rd_length sig
         then Ret (RCODE c HINAWA_FW_RCODE_CONFLICT_ERROR, ?f fr, ns)
         else fcp_requested c' uninit sig (?f fr, ns)) = Ret (ret, g, ns')" and g: "fst st' = g"
    using assms unfolding answer_request_def Let_def case_prod_beta fst_conv snd_conv
    by (auto simp: run_simps)
  have "g = ?f fr \<or> same_buffers (stack (?f fr)) (stack g)"
    using E requested_buffers [of c' uninit sig "(?f fr, ns)" ret "(g, ns')"] by (auto split: if_splits)
  with g show ?thesis by auto
qed

definition buffers_kept :: "objects \<Rightarrow> objects \<Rightarrow> bool" where
  "buffers_kept objs objs' \<longleftrightarrow> (\<forall>p f'. obj_fcps objs' p = Some f' \<longrightarrow>
     (\<exists>f. obj_fcps objs p = Some f \<and> same_buffers (stack f) (stack f')))"

lemma buffers_kept_same: "obj_fcps objs' = obj_fcps objs \<Longrightarrow> buffers_kept objs objs'"
  by (auto simp: buffers_kept_def)

lemma resp_object_buffers:
  assumes "handle_resp_object env event p objs = Ret (objs', sigs, io)"
  shows "buffers_kept objs objs'"
proof (cases "obj_fcps objs p")
  case None
  with assms show ?thesis
    by (intro buffers_kept_same) (auto simp: handle_resp_object_def run_simps split: option.splits prod.splits)
next
  case (Some f)
  let ?E = "fcp_requested (env_constants env) (env_uninit_record env)"
  obtain f' ns io' where h: "handle_resp_event env ?E event (f, obj_nodes objs) = Ret ((f', ns), io')"
    and objs': "obj_fcps objs' = (obj_fcps objs)(p \<mapsto> f')"
    using assms Some by (auto simp: handle_resp_object_def run_simps split: prod.splits)
  have "same_buffers (stack f) (stack f')"
  proof (cases rule: handle_resp_event_cases [of event env ?E "(f, obj_nodes objs)"])
    case (request sig handle)
    with h answer_request_buffers show ?thesis by fastforce
  qed (use h in simp)
  with Some objs' show ?thesis by (auto simp: buffers_kept_def)
qed

lemma dispatch_src_buffers:
  assumes "dispatch_src env src io_err sys_read objs = Ret (continue, src', objs', sigs, io)"
  shows "buffers_kept objs objs'"
proof -
  have event: "buffers_kept objs o'" if "dispatch_event env self n e objs = Ret (o', s, i)" for self n e o' s i
  proof (cases "\<exists>p. handle_resp_object env e p objs = Ret (o', s, i)")
    case False
    with that show ?thesis
      by (intro buffers_kept_same) (auto simp: dispatch_event_def run_simps split: if_splits prod.splits)
  qed (use resp_object_buffers in blast)
  show ?thesis
  proof (cases "objs' = objs")
    case False
    with assms event show ?thesis
      by (auto simp: dispatch_src_def run_simps split: option.splits if_splits sum.splits)
  qed (simp add: buffers_kept_same)
qed

text \<open>Every waiting caller has a buffer.\<close>

definition buffers_there :: "HinawaFwFcp \<Rightarrow> bool" where
  "buffers_there f \<longleftrightarrow> (\<forall>a w. stack f a = Some w \<longrightarrow> fw_frame w \<noteq> [])"

lemma buffers_there_same:
  assumes "same_buffers (stack f) (stack f')" and "buffers_there f"
  shows "buffers_there f'"
  unfolding buffers_there_def
proof (intro allI impI)
  fix a w' assume w': "stack f' a = Some w'"
  with assms(1) obtain w where w: "stack f a = Some w" "length (fw_frame w') = length (fw_frame w)"
    by (cases "stack f a") (auto simp: same_buffers_def dest!: spec [where x = a])
  with assms(2) show "fw_frame w' \<noteq> []" by (auto simp: buffers_there_def)
qed

definition process_ok :: "environment \<Rightarrow> objects \<Rightarrow> bool" where
  "process_ok env objs \<longleftrightarrow> system_ok env objs \<and> (\<forall>p f. obj_fcps objs p = Some f \<longrightarrow> buffers_there f)"

lemma process_ok_kept: "process_ok env objs \<Longrightarrow> system_ok env objs' \<Longrightarrow> buffers_kept objs objs' \<Longrightarrow> process_ok env objs'"
  using buffers_there_same unfolding process_ok_def buffers_kept_def by blast

subsection \<open>Each call keeps the objects well-formed, continued\<close>

lemma unbind_keeps:
  assumes live: "fcp_live ns f"
  shows "\<exists>f' io. hinawa_fw_fcp_unbind K f ns = Ret (f', ns, io) \<and> fcp_live ns f' \<and> resp_node f' = None \<and>
    same_buffers (stack f) (stack f')"
proof -
  have ok: "resp_ok f" and ws: "waiters_ok f"
    and free: "fcp_node f = None \<Longrightarrow> resp_node f = None"
    using live by (auto simp: fcp_live_def fcp_bound_def serving_def node_at_def split: if_splits)
  obtain r io where r: "hinawa_fw_resp_release K f ns = (r, ns, io)" "resp_ok r" "resp_node r = None"
    using release_ok [OF ok] by (metis prod_cases3)
  let ?g = "if fcp_node f \<noteq> None then r\<lparr>fcp_node := None\<rparr> else f"
  have g: "resp_ok ?g" "resp_node ?g = None" "fcp_transactions ?g = fcp_transactions f" "stack ?g = stack f"
    using ok r(2,3) free release_fcp_fields [OF r(1)] by auto
  obtain ws' where ws': "each_waiter abort_waiter (fcp_transactions f) (stack f) = Ret ws'"
    "waiters_roomy (fcp_transactions f) ws'"
    using each_waiter_roomy [of "fcp_transactions f" "stack f" abort_waiter] abort_waiter_roomy ws
    unfolding waiters_ok_def by blast
  have "fcp_live ns (?g\<lparr>stack := ws'\<rparr>)" "resp_node (?g\<lparr>stack := ws'\<rparr>) = None"
    using g ws ws'(2) by (simp_all add: fcp_live_def waiters_ok_def split: if_splits)
  moreover have "\<exists>io. hinawa_fw_fcp_unbind K f ns = Ret (?g\<lparr>stack := ws'\<rparr>, ns, io)"
    using r(1) ws'(1) release_fcp_fields [OF r(1)] by (auto simp: hinawa_fw_fcp_unbind_def)
  moreover have "same_buffers (stack f) (stack (?g\<lparr>stack := ws'\<rparr>))"
    using each_waiter_buffers [OF ws'(1) abort_waiter_buffer] by simp
  ultimately show ?thesis by blast
qed

lemma fcp_finalize_keeps:
  assumes "fcp_live ns f"
  shows "\<exists>f' io. fw_fcp_finalize K f ns = Ret (f', ns, io)"
proof -
  from unbind_keeps [OF assms, of K] obtain f' io where
    "hinawa_fw_fcp_unbind K f ns = Ret (f', ns, io)" "resp_node f' = None" by blast
  then show ?thesis by (simp add: fw_fcp_finalize_def fw_resp_finalize_def hinawa_fw_resp_release_def)
qed

lemma request_keeps:
  assumes "error \<noteq> NullErr"
  shows "\<exists>ok n' e io. hinawa_fw_req_request c K req (Some n) tcode addr len frame frame_size error =
     Ret (ok, Some n', e, io) \<and> fd n' = fd n \<and> (node_ok n \<longrightarrow> node_ok n')"
proof (cases "request_length tcode addr len frame frame_size error")
  case None
  then show ?thesis by (intro exI [of _ False]) (simp add: hinawa_fw_req_request_def)
next
  case (Some l)
  let ?a = "FW_CDEV_IOC_SEND_REQUEST (send_request_arg c req n tcode addr l frame)"
  obtain r a' n' e io where io: "hinawa_fw_node_ioctl K (Some n) ?a error = (r, a', n', e, io)"
    by (metis prod_cases5)
  then have "\<exists>m. n' = Some m \<and> fd m = fd n \<and> (node_ok n \<longrightarrow> node_ok m) \<and> e \<noteq> NullErr"
    using assms by (cases rule: node_ioctl_cases) (auto simp: register_transaction_def node_ok_def)
  with Some io show ?thesis by (cases e) (auto simp: hinawa_fw_req_request_def)
qed

lemma invalidate_keeps:
  "fd (hinawa_fw_node_invalidate_transaction req n) = fd n"
  "node_ok (hinawa_fw_node_invalidate_transaction req n) = node_ok n"
  by (simp_all add: hinawa_fw_node_invalidate_transaction_def node_ok_def)

lemma transaction_keeps:
  assumes "error \<noteq> NullErr" and "schedule_ok sch" and "unat fsize \<le> length fr"
  shows "\<exists>t. hinawa_fw_req_transaction_with_tstamp c K sch req (Some n) tcode addr len (Some fr) (Some fsize)
      tstamp_ok error = Ret t \<and>
    (\<forall>m. Option.bind t tx_node = Some m \<longrightarrow> fd m = fd n \<and> (node_ok n \<longrightarrow> node_ok m)) \<and>
    (\<forall>r. t = Some r \<longrightarrow> tx_node r \<noteq> None)"
proof (cases tstamp_ok)
  case True
  from request_keeps [OF assms(1)] obtain ok n' e io where
    r: "hinawa_fw_req_request c K req (Some n) tcode addr len (Some fr) (Some fsize) error =
      Ret (ok, Some n', e, io)" "fd n' = fd n" "node_ok n \<longrightarrow> node_ok n'" by metis
  obtain w where w: "bind_run (deliver (sch_before sch) (new_waiter fr fsize))
      (wait_response (sch_wakes sch) (sch_timeout sch)) = Ret w"
    using wait_deliveries_ok [of sch fsize fr] assms(2,3) unfolding schedule_ok_def by blast
  have node: "tx_node (conclude_transaction c req fsize (Some (sch_node sch n')) e io w) =
      Some (hinawa_fw_node_invalidate_transaction req (sch_node sch n'))"
    by (simp add: conclude_transaction_def Let_def split: option.split)
  show ?thesis
    using True r w node assms(2) invalidate_keeps
    by (cases ok) (simp_all add: hinawa_fw_req_transaction_with_tstamp_def schedule_ok_def)
qed (simp add: hinawa_fw_req_transaction_with_tstamp_def)

lemma command_keeps:
  assumes "error \<noteq> NullErr" and "schedule_ok sch" and "buffer_ok cmd cmd_size"
  shows "\<exists>sent ts ns' e io. hinawa_fw_fcp_command_with_tstamp c K sch req f ns cmd cmd_size tstamp_ok error =
      Ret (sent, ts, ns', e, io) \<and> nodes_kept ns ns'"
proof (cases "(\<exists>cm. cmd = Some cm) \<and> 0 < cmd_size \<and> cmd_size < ucast FCP_MAXIMUM_FRAME_BYTES \<and> tstamp_ok \<and>
    error_unset error \<and> node_at ns (fcp_node f) \<noteq> None")
  case False
  then show ?thesis
    by (auto simp: hinawa_fw_fcp_command_with_tstamp_def hinawa_fw_req_transaction_with_tstamp_def)
next
  case True
  then obtain cm a n where cm: "cmd = Some cm" and a: "fcp_node f = Some a" "ns a = Some n"
    by (auto simp: node_at_def split: option.splits)
  have len: "unat cmd_size \<le> length cm" using assms(3) cm by (simp add: buffer_ok_def)
  let ?t = "hinawa_fw_req_transaction_with_tstamp c K sch req (Some n) HINAWA_FW_TCODE_WRITE_BLOCK_REQUEST
    FCP_REQUEST_ADDR cmd_size (Some cm) (Some cmd_size) tstamp_ok error"
  obtain t where t: "?t = Ret t" "\<And>m. Option.bind t tx_node = Some m \<Longrightarrow> fd m = fd n \<and> (node_ok n \<longrightarrow> node_ok m)"
      "\<And>r. t = Some r \<Longrightarrow> tx_node r \<noteq> None"
    using transaction_keeps [OF assms(1,2) len, of c K req n HINAWA_FW_TCODE_WRITE_BLOCK_REQUEST
        FCP_REQUEST_ADDR cmd_size tstamp_ok] by blast
  show ?thesis
  proof (cases t)
    case None
    with True t(1) cm a show ?thesis by (auto simp: hinawa_fw_fcp_command_with_tstamp_def node_at_def)
  next
    case (Some r)
    with t(3) obtain m where m: "tx_node r = Some m" by blast
    with t(2) Some have "nodes_kept ns (ns(a \<mapsto> m))" 
      by (intro nodes_kept_put [where n = n]) (auto simp: a)
    with True t(1) Some m cm a show ?thesis
      by (simp add: hinawa_fw_fcp_command_with_tstamp_def node_at_def node_put_def)
  qed
qed

lemma read_cycle_time_keeps:
  assumes "errno_ok K"
  shows "\<exists>ok ct e. hinawa_fw_node_read_cycle_time K (Some n) clock_id cycle_time error = Ret (ok, ct, Some n, e)"
proof (cases cycle_time)
  case (Some ct)
  let ?a = "FW_CDEV_IOC_GET_CYCLE_TIMER2 (ct\<lparr>clk_id := clock_id\<rparr>)"
  obtain r a' n' e io where io: "hinawa_fw_node_ioctl K (Some n) ?a error = (r, a', n', e, io)"
    by (metis prod_cases5)
  have "0 \<le> r" using node_io.ret_nonneg [OF assms io] .
  moreover have "n' = Some n" using io by (cases rule: node_ioctl_cases) auto
  ultimately show ?thesis using Some io by (simp add: hinawa_fw_node_read_cycle_time_def Let_def)
qed (auto simp: hinawa_fw_node_read_cycle_time_def)

lemma avc_enter_keeps:
  assumes live: "fcp_live ns f" and there: "buffers_there f"
    and fresh: "stack f a = None" "a \<notin> set (fcp_transactions f)"
    and buf: "buffer_ok cmd cmd_size" "buffer_ok resp 0x200" "case resp_size of None \<Rightarrow> True | Some k \<Rightarrow> buffer_ok resp k"
  shows "\<exists>e. avc_enter a cmd cmd_size resp resp_size tstamp_ok error f = Ret e \<and>
    (\<forall>f'. e = Some f' \<longrightarrow> fcp_live ns f' \<and> buffers_there f')"
proof (cases "(\<exists>cm rs rsize. cmd = Some cm \<and> resp = Some rs \<and> resp_size = Some rsize \<and> 0 < rsize) \<and>
    2 < cmd_size \<and> cmd_size < ucast FCP_MAXIMUM_FRAME_BYTES \<and> tstamp_ok \<and> error_unset error")
  case False
  then show ?thesis by (auto simp: avc_enter_def split: option.split)
next
  case True
  then obtain cm rs rsize where args: "cmd = Some cm" "resp = Some rs" "resp_size = Some rsize" by blast
  have "3 \<le> unat cmd_size" using True by (simp add: word_less_nat_alt)
  with buf args have len: "3 \<le> length cm" "0x200 \<le> length rs" "unat rsize \<le> length rs"
    by (simp_all add: buffer_ok_def)
  then obtain w where w: "avc_waiter cm rs rsize = Ret w" "length (fw_frame w) = length rs"
    "fw_frame_size w = ucast rsize"
    using avc_waiter_ok [of cm rs rsize] by auto
  have "unat (ucast rsize :: u32) \<le> unat rsize" by (simp add: unsigned_ucast_eq take_bit_eq_mod)
  with w len have roomy: "waiter_roomy w" by (simp add: waiter_roomy_def)
  have "waiters_ok f" using live by (auto simp: fcp_live_def fcp_bound_def split: if_splits)
  with roomy have "waiters_ok (link_waiter a w f)"
    using fresh by (auto simp: waiters_ok_def link_waiter_def waiters_roomy_def list_all_iff)
  with live have "fcp_live ns (link_waiter a w f)"
    by (auto simp: fcp_live_def fcp_bound_def link_waiter_def split: if_splits)
  moreover have "buffers_there (link_waiter a w f)"
    using there w(2) len(2) by (auto simp: buffers_there_def link_waiter_def)
  ultimately show ?thesis using True args w(1) by (simp add: avc_enter_def)
qed

lemma avc_woken_keeps:
  assumes live: "fcp_live ns f" and there: "buffers_there f" and w: "stack f a = Some w"
    and size: "unat rsize \<le> length (fw_frame w)"
  shows "\<exists>f'. avc_woken gen rsize a f = Ret f' \<and> fcp_live ns f' \<and> buffers_there f'"
proof -
  have frame: "0 < length (fw_frame w)" using there w by (auto simp: buffers_there_def)
  obtain again where again: "deferred gen w = Ret again"
    using read_at_ok [OF frame]
    by (cases "fw_state w = WAITER_STATE_RESPONDED \<and> fw_generation w = gen") (auto simp: deferred_def)
  let ?w = "w\<lparr>fw_state := WAITER_STATE_PENDING, fw_frame := (fw_frame w)[0 := 0], fw_frame_size := ucast rsize\<rparr>"
  have await: "await_again rsize w = Ret ?w" using frame by (simp add: await_again_def write_at_ok)
  have ws: "waiters_ok f" using live by (auto simp: fcp_live_def fcp_bound_def split: if_splits)
  have "unat (ucast rsize :: u32) \<le> unat rsize" by (simp add: unsigned_ucast_eq take_bit_eq_mod)
  with size have "waiter_roomy w \<Longrightarrow> waiter_roomy ?w" by (simp add: waiter_roomy_def)
  with ws w have "waiters_ok (put_waiter a f ?w)"
    by (auto simp: waiters_ok_def put_waiter_def waiters_roomy_def list_all_iff)
  with live have "fcp_live ns (put_waiter a f ?w)"
    by (auto simp: fcp_live_def fcp_bound_def put_waiter_def split: if_splits)
  moreover have "buffers_there (put_waiter a f ?w)"
    using there frame by (auto simp: buffers_there_def put_waiter_def)
  ultimately show ?thesis using live there w again await by (simp add: avc_woken_def)
qed

lemma avc_leave_keeps:
  assumes "fcp_live ns f" and "buffers_there f" and "stack f a \<noteq> None"
  shows "\<exists>f'. avc_leave a f = Ret f' \<and> fcp_live ns f' \<and> buffers_there f'"
proof -
  have "waiters_ok f" using assms by (auto simp: fcp_live_def fcp_bound_def split: if_splits)
  then have "waiters_ok (unlink_waiter a f)"
    by (auto simp: waiters_ok_def unlink_waiter_def waiters_roomy_def list_all_iff)
  with assms(1) have "fcp_live ns (unlink_waiter a f)"
    by (auto simp: fcp_live_def fcp_bound_def unlink_waiter_def split: if_splits)
  moreover have "buffers_there (unlink_waiter a f)"
    using assms(2) by (auto simp: buffers_there_def unlink_waiter_def)
  ultimately show ?thesis using assms(3) by (auto simp: avc_leave_def)
qed

subsection \<open>Objects that are dropped\<close>

lemma drop_node_keeps:
  assumes "process_ok env objs" and "unreferenced objs p"
  shows "process_ok env (drop_node p objs)"
proof -
  let ?ns = "(obj_nodes objs)(p := None)"
  have at: "node_at ?ns q = node_at (obj_nodes objs) q" if "q \<noteq> Some p" for q
    using that by (cases q) (simp_all add: node_at_def)
  have "resp_live ?ns r" if "resp_live (obj_nodes objs) r" "resp_node r \<noteq> Some p" for r :: HinawaFwResp
    using that by (simp add: resp_live_def serving_def at split: if_splits)
  moreover have "fcp_live ?ns f"
    if "fcp_live (obj_nodes objs) f" "resp_node f \<noteq> Some p" "fcp_node f \<noteq> Some p" for f
    using that by (simp add: fcp_live_def fcp_bound_def serving_def at split: if_splits)
  ultimately show ?thesis
    using assms by (auto simp: process_ok_def system_ok_def unreferenced_def drop_node_def)
qed

lemma drop_responder_keeps:
  assumes "process_ok env objs"
  shows "process_ok env (drop_resp p (obj_nodes objs) objs)" "process_ok env (drop_fcp p (obj_nodes objs) objs)"
    "process_ok env (drop_req p objs)"
  using assms by (auto simp: process_ok_def system_ok_def drop_resp_def drop_fcp_def drop_req_def)

subsection \<open>Every reachable state\<close>

text \<open>A call on one object that leaves that object well-formed.\<close>

lemma keeps_node:
  assumes "process_ok env objs" and "obj_nodes objs p \<noteq> None"
    and "\<And>n. node_ok n \<Longrightarrow>
      \<exists>n'. f n = Ret (put_node p n' objs) \<and> node_ok n' \<and> (0 \<le> fd n \<longrightarrow> 0 \<le> fd n')"
  shows "\<exists>objs'. with_object (obj_nodes objs p) f = Ret objs' \<and> process_ok env objs'"
proof -
  obtain n where n: "obj_nodes objs p = Some n" using assms(2) by blast
  with assms(1) have "node_ok n" by (simp add: process_ok_def system_ok_def)
  with assms(3) obtain n' where "f n = Ret (put_node p n' objs)" "node_ok n'" "0 \<le> fd n \<longrightarrow> 0 \<le> fd n'"
    by blast
  with n system_ok_put_node [of env objs n' p] assms(1) show ?thesis by (simp add: process_ok_def)
qed

lemma keeps_resp:
  assumes "process_ok env objs" and "obj_resps objs p \<noteq> None"
    and "\<And>r. resp_live (obj_nodes objs) r \<Longrightarrow>
      \<exists>r'. f r = Ret (put_resp p r' (obj_nodes objs) objs) \<and> resp_live (obj_nodes objs) r'"
  shows "\<exists>objs'. with_object (obj_resps objs p) f = Ret objs' \<and> process_ok env objs'"
proof -
  have sys: "system_ok env objs" using assms(1) by (simp add: process_ok_def)
  obtain r where r: "obj_resps objs p = Some r" using assms(2) by blast
  with sys have "resp_live (obj_nodes objs) r" "handler_ok (env_requested env p)"
    by (simp_all add: system_ok_def)
  with assms(3) [of r] obtain r' where
    r': "f r = Ret (put_resp p r' (obj_nodes objs) objs)" "resp_live (obj_nodes objs) r'" by blast
  have "system_ok env (put_resp p r' (obj_nodes objs) objs)"
    using system_ok_put_resp [OF sys _ r'(2) \<open>handler_ok _\<close>] by simp
  with r r' assms(1) show ?thesis by (simp add: process_ok_def)
qed

lemma keeps_fcp:
  assumes "process_ok env objs" and "obj_fcps objs p = Some f"
    and "\<exists>f' ns. g f = Ret (put_fcp p f' ns objs) \<and> nodes_kept (obj_nodes objs) ns \<and> fcp_live ns f' \<and> buffers_there f'"
  shows "\<exists>objs'. with_object (obj_fcps objs p) g = Ret objs' \<and> process_ok env objs'"
proof -
  have sys: "system_ok env objs" using assms(1) by (simp add: process_ok_def)
  from assms(3) obtain f' ns where f': "g f = Ret (put_fcp p f' ns objs)" "nodes_kept (obj_nodes objs) ns"
    "fcp_live ns f'" "buffers_there f'" by blast
  with assms(1,2) system_ok_put_fcp [OF sys f'(2,3), of p] show ?thesis by (simp add: process_ok_def)
qed

text \<open>The calls, one kind of object after the other.\<close>

lemma perform_object_keeps:
  assumes env: "environment_ok env SO" and ok: "process_ok env objs" and call: "call_ok env objs x"
    and x: "x \<in> {New_Node p, New_Resp p, New_Fcp p, New_Req p, Free_Node p, Free_Resp p, Free_Fcp p, Free_Req p}"
  shows "\<exists>objs'. perform env SO fe x objs = Ret objs' \<and> process_ok env objs'"
proof -
  have sys: "system_ok env objs" using ok by (simp add: process_ok_def)
  consider (new) "x \<in> {New_Node p, New_Resp p, New_Fcp p, New_Req p}" | (node) "x = Free_Node p"
    | (resp) "x = Free_Resp p" | (fcp) "x = Free_Fcp p" | (req) "x = Free_Req p" using x by blast
  then show ?thesis
  proof cases
    case new
    have "resp_live (obj_nodes objs) hinawa_fw_resp_init"
      using resp_ok_init by (simp add: resp_live_def hinawa_fw_resp_init_def)
    moreover have "fcp_live (obj_nodes objs) hinawa_fw_fcp_init" "buffers_there hinawa_fw_fcp_init"
      by (simp_all add: fcp_live_def hinawa_fw_fcp_init_def resp_ok_def waiters_ok_def waiters_roomy_def buffers_there_def)
    moreover have "obj_nodes objs p = None" if "x = New_Node p"
      using that call by (auto simp: unused_def object_type_of_def split: if_splits)
    moreover have "handler_ok (env_requested env p)" using env by (simp add: environment_ok_def)
    moreover have "system_ok env (objs\<lparr>obj_reqs := R\<rparr>)" for R using sys by (simp add: system_ok_def)
    ultimately have "\<exists>objs'. perform env SO fe x objs = Ret objs' \<and> system_ok env objs' \<and>
        (\<forall>p f. obj_fcps objs' p = Some f \<longrightarrow> obj_fcps objs p = Some f \<or> buffers_there f)"
      using new sys system_ok_put_node [OF sys node_ok_init, of p]
      by (auto simp: system_ok_put_resp [OF sys] system_ok_put_fcp [OF sys])
    with ok show ?thesis unfolding process_ok_def by blast
  next
    case node
    with call drop_node_keeps [OF ok, of p] show ?thesis by auto
  next
    case resp
    with call obtain r where r: "obj_resps objs p = Some r" by auto
    with sys have "resp_live (obj_nodes objs) r" by (simp add: system_ok_def)
    from release_keeps [OF this, of "env_ioctl env"] r resp drop_responder_keeps(1) [OF ok, of p] show ?thesis
      by (auto simp: fw_resp_finalize_def)
  next
    case fcp
    with call obtain f where f: "obj_fcps objs p = Some f" by (auto split: option.splits)
    with sys have "fcp_live (obj_nodes objs) f" by (simp add: system_ok_def)
    from fcp_finalize_keeps [OF this, of "env_ioctl env"] f fcp drop_responder_keeps(2) [OF ok, of p] show ?thesis
      by auto
  next
    case req
    with call drop_responder_keeps(3) [OF ok, of p] show ?thesis by simp
  qed
qed

lemma perform_node_keeps:
  assumes env: "environment_ok env SO" and ok: "process_ok env objs" and call: "call_ok env objs x"
    and x: "x \<in> {Open p path flag error, Get_Config_Rom p image_ok length_ok error,
      Read_Cycle_Time p clock_id cycle_time error, Create_Source p page gsrc_ok error}"
  shows "\<exists>objs'. perform env SO fe x objs = Ret objs' \<and> process_ok env objs'"
proof -
  obtain n where n: "obj_nodes objs p = Some n" using call x by auto
  consider (op) "x = Open p path flag error" | (rd) "x = Read_Cycle_Time p clock_id cycle_time error"
    | (look) "x \<in> {Get_Config_Rom p image_ok length_ok error, Create_Source p page gsrc_ok error}"
    using x by blast
  then show ?thesis
  proof cases
    case op
    have "open_ok SO" "info_ok (env_get_info env)" using env by (simp_all add: environment_ok_def)
    then show ?thesis
      unfolding op perform.simps
      using open_keeps [of _ SO "env_get_info env" "env_little_endian env" fe p path flag error] n
      by (intro keeps_node [OF ok]) fastforce+
  next
    case rd
    have "errno_ok (env_ioctl env)" using env by (simp add: environment_ok_def)
    from read_cycle_time_keeps [OF this, of n clock_id cycle_time error] n ok rd show ?thesis
      by (auto simp: put_node_same)
  next
    case look
    with n ok show ?thesis by (auto split: prod.split)
  qed
qed

lemma perform_request_keeps:
  assumes env: "environment_ok env SO" and ok: "process_ok env objs" and call: "call_ok env objs x"
    and x: "x \<in> {Request p req tcode addr len frame frame_size error,
      Transaction sch p req tcode addr len frame frame_size tstamp_ok error}"
  shows "\<exists>objs'. perform env SO fe x objs = Ret objs' \<and> process_ok env objs'"
proof -
  have p: "obj_nodes objs p \<noteq> None" and e: "error \<noteq> NullErr" using call x by auto
  consider (rq) "x = Request p req tcode addr len frame frame_size error"
    | (tr) "x = Transaction sch p req tcode addr len frame frame_size tstamp_ok error" using x by blast
  then show ?thesis
  proof cases
    case rq
    show ?thesis
      unfolding rq perform.simps
      using request_keeps [OF e, of "env_constants env" "env_ioctl env" req _ tcode addr len frame frame_size]
      by (intro keeps_node [OF ok p]) fastforce
  next
    case tr
    with call obtain fr fsize where fr: "frame = Some fr" "frame_size = Some fsize" "unat fsize \<le> length fr"
      and sch: "schedule_ok sch" by (auto simp: buffer_ok_def split: option.splits)
    let ?t = "\<lambda>n. hinawa_fw_req_transaction_with_tstamp (env_constants env) (env_ioctl env) sch req (Some n)
      tcode addr len frame frame_size tstamp_ok error"
    obtain n where n: "obj_nodes objs p = Some n" using p by blast
    with ok have "node_ok n" by (simp add: process_ok_def system_ok_def)
    obtain t where t: "?t n = Ret t"
        "\<And>m. Option.bind t tx_node = Some m \<Longrightarrow> fd m = fd n \<and> node_ok m"
      using transaction_keeps [OF e sch fr(3), of "env_constants env" "env_ioctl env" req n tcode addr len
          tstamp_ok] \<open>node_ok n\<close> fr(1,2) by metis
    have "process_ok env (left_node p (Option.bind t tx_node) objs)"
    proof (cases "Option.bind t tx_node")
      case (Some m)
      with t(2) n system_ok_put_node [of env objs m p] ok show ?thesis by (simp add: process_ok_def)
    qed (use ok in simp)
    with tr n t(1) show ?thesis by simp
  qed
qed

lemma perform_resp_keeps:
  assumes env: "environment_ok env SO" and ok: "process_ok env objs" and call: "call_ok env objs x"
    and x: "x \<in> {Reserve p node region_start region_end w error, Release p, Set_Resp_Frame p frame len}"
  shows "\<exists>objs'. perform env SO fe x objs = Ret objs' \<and> process_ok env objs'"
proof -
  have p: "obj_resps objs p \<noteq> None" using call x by auto
  consider (res) "x = Reserve p node region_start region_end w error" | (rel) "x = Release p"
    | (set) "x = Set_Resp_Frame p frame len" using x by blast
  then show ?thesis
  proof cases
    case res
    have "errno_ok (env_ioctl env)" "error \<noteq> NullErr" using env call res by (simp_all add: environment_ok_def)
    then show ?thesis
      unfolding res perform.simps
      using reserve_keeps [of "env_ioctl env" "obj_nodes objs" _ error p node region_start region_end w]
      by (intro keeps_resp [OF ok p]) fastforce
  next
    case rel
    show ?thesis
      unfolding rel perform.simps
      using release_keeps [of "obj_nodes objs" _ "env_ioctl env"]
      by (intro keeps_resp [OF ok p]) (fastforce simp: resp_live_def)
  next
    case set
    with call have "buffer_ok frame len" by simp
    then show ?thesis
      unfolding set perform.simps
      using set_resp_frame_keeps [where ns = "obj_nodes objs" and frame = frame and len = len]
      by (intro keeps_resp [OF ok p]) fastforce
  qed
qed

lemma perform_fcp_keeps:
  assumes env: "environment_ok env SO" and ok: "process_ok env objs" and call: "call_ok env objs x"
    and x: "x \<in> {Bind p node error, Unbind p, Command sch p req cmd cmd_size tstamp_ok error}"
  shows "\<exists>objs'. perform env SO fe x objs = Ret objs' \<and> process_ok env objs'"
proof -
  obtain f where f: "obj_fcps objs p = Some f" using call x by (auto split: option.splits)
  with ok have live: "fcp_live (obj_nodes objs) f" and there: "buffers_there f"
    by (simp_all add: process_ok_def system_ok_def)
  consider (bi) "x = Bind p node error" | (un) "x = Unbind p"
    | (co) "x = Command sch p req cmd cmd_size tstamp_ok error" using x by blast
  then show ?thesis
  proof cases
    case bi
    have K: "errno_ok (env_ioctl env)" "allocate_ok (env_ioctl env)" using env by (simp_all add: environment_ok_def)
    have e: "error \<noteq> NullErr" using call bi by simp
    from bind_keeps [OF K live e, of p node] there show ?thesis
      unfolding bi perform.simps by (intro keeps_fcp [OF ok f]) (fastforce simp: buffers_there_def)
  next
    case un
    from unbind_keeps [OF live, of "env_ioctl env"] there show ?thesis
      unfolding un perform.simps by (intro keeps_fcp [OF ok f]) (fastforce dest: buffers_there_same)
  next
    case co
    with call have c: "error \<noteq> NullErr" "schedule_ok sch" "buffer_ok cmd cmd_size" by simp_all
    from command_keeps [OF c, of "env_constants env" "env_ioctl env" req f "obj_nodes objs" tstamp_ok]
    obtain ns where "\<exists>sent ts e io. hinawa_fw_fcp_command_with_tstamp (env_constants env) (env_ioctl env) sch
        req f (obj_nodes objs) cmd cmd_size tstamp_ok error = Ret (sent, ts, ns, e, io)"
      "nodes_kept (obj_nodes objs) ns" by blast
    with fcp_live_grow [OF nodes_kept_grow live] there show ?thesis
      unfolding co perform.simps by (intro keeps_fcp [OF ok f]) fastforce
  qed
qed

lemma perform_avc_keeps:
  assumes ok: "process_ok env objs" and call: "call_ok env objs x"
    and x: "x \<in> {Avc_Enter p a cmd cmd_size resp resp_size tstamp_ok error, Avc_Send sch p a req cmd cmd_size error,
      Avc_Woken p a gen rsize, Avc_Leave p a}"
  shows "\<exists>objs'. perform env SO fe x objs = Ret objs' \<and> process_ok env objs'"
proof -
  obtain f where f: "obj_fcps objs p = Some f" using call x by (auto simp: under_way_def split: option.splits)
  with ok have live: "fcp_live (obj_nodes objs) f" and there: "buffers_there f"
    by (simp_all add: process_ok_def system_ok_def)
  consider (en) "x = Avc_Enter p a cmd cmd_size resp resp_size tstamp_ok error"
    | (se) "x = Avc_Send sch p a req cmd cmd_size error" | (wo) "x = Avc_Woken p a gen rsize"
    | (le) "x = Avc_Leave p a" using x by blast
  then show ?thesis
  proof cases
    case en
    with call f have "stack f a = None" "a \<notin> set (fcp_transactions f)" "buffer_ok cmd cmd_size" "buffer_ok resp 0x200"
      "case resp_size of None \<Rightarrow> True | Some k \<Rightarrow> buffer_ok resp k" by simp_all
    from avc_enter_keeps [OF live there this, of tstamp_ok error] obtain e where
      e: "avc_enter a cmd cmd_size resp resp_size tstamp_ok error f = Ret e"
        "\<And>f'. e = Some f' \<Longrightarrow> fcp_live (obj_nodes objs) f' \<and> buffers_there f'" by blast
    show ?thesis
    proof (cases e)
      case (Some f')
      with e show ?thesis unfolding en perform.simps by (intro keeps_fcp [OF ok f]) fastforce
    qed (use en e f ok in simp)
  next
    case se
    with call have c: "error \<noteq> NullErr" "schedule_ok sch" "buffer_ok cmd cmd_size"
      and sent: "command_succeeds env sch p req cmd cmd_size error objs" by simp_all
    from command_keeps [OF c, of "env_constants env" "env_ioctl env" req f "obj_nodes objs" True]
    obtain s ts ns e io where co: "hinawa_fw_fcp_command_with_tstamp (env_constants env) (env_ioctl env) sch
        req f (obj_nodes objs) cmd cmd_size True error = Ret (s, ts, ns, e, io)"
      "nodes_kept (obj_nodes objs) ns" by blast
    with sent f have s by (simp add: command_succeeds_def)
    with co fcp_live_grow [OF nodes_kept_grow live] there show ?thesis
      unfolding se perform.simps by (intro keeps_fcp [OF ok f]) (fastforce simp: avc_send_def)
  next
    case wo
    with call f obtain w where "stack f a = Some w" "unat rsize \<le> length (fw_frame w)"
      by (auto split: option.splits)
    from avc_woken_keeps [OF live there this, of gen] show ?thesis
      unfolding wo perform.simps by (intro keeps_fcp [OF ok f]) fastforce
  next
    case le
    with call f have "stack f a \<noteq> None" by (simp add: under_way_def)
    from avc_leave_keeps [OF live there this] show ?thesis
      unfolding le perform.simps by (intro keeps_fcp [OF ok f]) fastforce
  qed
qed

lemma perform_dispatch_keeps:
  assumes env: "environment_ok env SO" and ok: "process_ok env objs"
    and call: "call_ok env objs (Dispatch src io_err event)"
  shows "\<exists>objs'. perform env SO fe (Dispatch src io_err event) objs = Ret objs' \<and> process_ok env objs'"
proof -
  have sys: "system_ok env objs" using ok by (simp add: process_ok_def)
  obtain n where n: "obj_nodes objs (src_self src) = Some n" and ev: "source_ok src"
      "delivered (env_abi env) (src_len src) event" "alive objs event" using call by auto
  show ?thesis
  proof (cases "0 \<le> fd n \<and> \<not> io_err")
    case False
    with n ok show ?thesis by (auto simp: dispatch_src_def)
  next
    case True
    with n have "opened objs (src_self src)" by (simp add: opened_def)
    from dispatch_src_step [OF sys _ this _ ev] env obtain src' objs' sigs rs where
      d: "dispatch_src env src False (kernel_read (env_abi env) event) objs =
        Ret (True, src', objs', sigs, map FW_CDEV_IOC_SEND_RESPONSE rs)" "system_ok env objs'"
      unfolding environment_ok_def by blast
    from process_ok_kept [OF ok d(2) dispatch_src_buffers [OF d(1)]] d(1) True show ?thesis by simp
  qed
qed

lemma perform_keeps:
  assumes env: "environment_ok env SO" and ok: "process_ok env objs" and call: "call_ok env objs x"
  shows "\<exists>objs'. perform env SO fe x objs = Ret objs' \<and> process_ok env objs'"
proof (cases x)
  case (New_Node p)
  with perform_object_keeps [OF assms, where p = p]
  show ?thesis by blast
next
  case (New_Resp p)
  with perform_object_keeps [OF assms, where p = p]
  show ?thesis by blast
next
  case (New_Fcp p)
  with perform_object_keeps [OF assms, where p = p]
  show ?thesis by blast
next
  case (New_Req p)
  with perform_object_keeps [OF assms, where p = p]
  show ?thesis by blast
next
  case (Free_Node p)
  with perform_object_keeps [OF assms, where p = p]
  show ?thesis by blast
next
  case (Free_Resp p)
  with perform_object_keeps [OF assms, where p = p]
  show ?thesis by blast
next
  case (Free_Fcp p)
  with perform_object_keeps [OF assms, where p = p]
  show ?thesis by blast
next
  case (Free_Req p)
  with perform_object_keeps [OF assms, where p = p]
  show ?thesis by blast
next
  case (Open p path flag error)
  with perform_node_keeps [OF assms, where p = p and path = path and flag = flag and error = error]
  show ?thesis by blast
next
  case (Get_Config_Rom p image_ok length_ok error)
  with perform_node_keeps [OF assms, where p = p and image_ok = image_ok and
      length_ok = length_ok and error = error]
  show ?thesis by blast
next
  case (Read_Cycle_Time p clock_id cycle_time error)
  with perform_node_keeps [OF assms, where p = p and clock_id = clock_id and
      cycle_time = cycle_time and error = error]
  show ?thesis by blast
next
  case (Create_Source p page gsrc_ok error)
  with perform_node_keeps [OF assms, where p = p and page = page and gsrc_ok = gsrc_ok and error = error]
  show ?thesis by blast
next
  case (Reserve p node region_start region_end w error)
  with perform_resp_keeps [OF assms, where p = p and node = node and
      region_start = region_start and region_end = region_end and w = w and error = error]
  show ?thesis by blast
next
  case (Release p)
  with perform_resp_keeps [OF assms, where p = p]
  show ?thesis by blast
next
  case (Set_Resp_Frame p frame len)
  with perform_resp_keeps [OF assms, where p = p and frame = frame and len = len]
  show ?thesis by blast
next
  case (Bind p node error)
  with perform_fcp_keeps [OF assms, where p = p and node = node and error = error]
  show ?thesis by blast
next
  case (Unbind p)
  with perform_fcp_keeps [OF assms, where p = p]
  show ?thesis by blast
next
  case (Request p req tcode addr len frame frame_size error)
  with perform_request_keeps [OF assms, where p = p and req = req and tcode = tcode and
      addr = addr and len = len and frame = frame and frame_size = frame_size and error = error]
  show ?thesis by blast
next
  case (Transaction sch p req tcode addr len frame frame_size tstamp_ok error)
  with perform_request_keeps [OF assms, where sch = sch and p = p and req = req and
      tcode = tcode and addr = addr and len = len and frame = frame and
      frame_size = frame_size and tstamp_ok = tstamp_ok and error = error]
  show ?thesis by blast
next
  case (Command sch p req cmd cmd_size tstamp_ok error)
  with perform_fcp_keeps [OF assms, where sch = sch and p = p and req = req and cmd = cmd and
      cmd_size = cmd_size and tstamp_ok = tstamp_ok and error = error]
  show ?thesis by blast
next
  case (Avc_Enter p a cmd cmd_size resp resp_size tstamp_ok error)
  with perform_avc_keeps [OF ok call, where p = p and a = a and cmd = cmd and
      cmd_size = cmd_size and resp = resp and resp_size = resp_size and tstamp_ok = tstamp_ok and
      error = error]
  show ?thesis by blast
next
  case (Avc_Send sch p a req cmd cmd_size error)
  with perform_avc_keeps [OF ok call, where sch = sch and p = p and a = a and req = req and
      cmd = cmd and cmd_size = cmd_size and error = error]
  show ?thesis by blast
next
  case (Avc_Woken p a gen rsize)
  with perform_avc_keeps [OF ok call, where p = p and a = a and gen = gen and rsize = rsize]
  show ?thesis by blast
next
  case (Avc_Leave p a)
  with perform_avc_keeps [OF ok call, where p = p and a = a]
  show ?thesis by blast
next
  case (Dispatch src io_err event)
  with perform_dispatch_keeps [OF env ok, of src io_err event] call show ?thesis by blast
qed

lemma process_ok_environment:
  assumes "process_ok env objs" and "environment_ok env' SO"
  shows "process_ok env' objs"
  using assms by (auto simp: process_ok_def system_ok_def environment_ok_def)

lemma reachable_process_ok: "reachable objs \<Longrightarrow> environment_ok env SO \<Longrightarrow> process_ok env objs"
proof (induction arbitrary: env SO rule: reachable.induct)
  case start
  show ?case by (simp add: process_ok_def system_ok_def no_objects_def)
next
  case (call objs env' SO' x fe objs')
  from perform_keeps [OF call.hyps(2) call.IH [OF call.hyps(2)] call.hyps(3), of fe] call.hyps(4)
  have "process_ok env' objs'" by simp
  then show ?case using process_ok_environment call.prems by blast
qed

text \<open>C2. Whatever a process does with the library, in any order and with a kernel that may answer each call
  differently: every object made and dropped, opened, reserved, bound and unbound, every request, blocking
  transaction and command, the steps of any number of AV/C transactions, and the dispatch of the bytes of
  events. As long as each call is made properly (\<open>call_ok\<close>: on objects that exist, with buffers as large as
  declared, for AV/C responses at least 512 bytes, with a location for the error in the functions that look
  through it, binding an object again when the transactions that unbinding aborted have returned), events
  are for live objects and fit into the buffer of the source, the commands of AV/C transactions are
  answered, and the kernel and the user's handlers keep what is relied on of them: in every state reached
  from a process without objects the objects are well-formed, and no further call accesses memory that is
  not there. The condition on commands cannot be dropped: see \<open>failed_command_dangles\<close>.\<close>

lemma no_call_faults:
  assumes "environment_ok env SO" and "reachable objs" and "call_ok env objs x"
  shows "system_ok env objs \<and> (\<exists>objs'. perform env SO fe x objs = Ret objs' \<and> system_ok env objs')"
  using perform_keeps [OF assms(1) _ assms(3), of fe] reachable_process_ok [OF assms(2,1)]
  unfolding process_ok_def by blast

lemma no_call_faults_witness:
  "\<exists>objs objs'. let env = sample_env\<lparr>env_ioctl := first_fit_kernel 5\<rparr> in
     reachable objs \<and> obj_fcps objs 7 = Some hinawa_fw_fcp_init \<and>
     perform env (\<lambda>_ _. Inr 3) (\<lambda>_. None) (Bind 7 (Some 2) (Err None)) objs = Ret objs' \<and> system_ok env objs'"
proof -
  let ?env = "sample_env\<lparr>env_ioctl := first_fit_kernel 5\<rparr>" and ?SO = "\<lambda>_ _. Inr 3" and ?fe = "\<lambda>_. None"
  let ?o1 = "put_node 2 hinawa_fw_node_init no_objects"
  let ?o2 = "put_fcp 7 hinawa_fw_fcp_init (obj_nodes ?o1) ?o1"
  have env: "environment_ok ?env ?SO"
    by (simp add: environment_ok_def sample_env_def first_fit_ok info_ok_def open_ok_def handler_ok_no_handler
        env_abi_def abi_ok_def)
  have "reachable ?o1"
    by (rule reachable.call [OF reachable.start env, where x = "New_Node 2" and fe = ?fe])
       (simp_all add: unused_def object_type_of_def no_objects_def)
  then have o2: "reachable ?o2"
    by (rule reachable.call [OF _ env, where x = "New_Fcp 7" and fe = ?fe])
       (simp_all add: unused_def object_type_of_def no_objects_def)
  moreover have "call_ok ?env ?o2 (Bind 7 (Some 2) (Err None))"
    by (simp add: node_or_null_def hinawa_fw_fcp_init_def)
  ultimately obtain objs' where
    "perform ?env ?SO ?fe (Bind 7 (Some 2) (Err None)) ?o2 = Ret objs'" "system_ok ?env objs'"
    using no_call_faults [OF env, of ?o2 "Bind 7 (Some 2) (Err None)" ?fe] by blast
  with o2 show ?thesis
    unfolding Let_def by (intro exI [of _ ?o2] exI [of _ objs']) (simp del: perform.simps)
qed

subsection \<open>What a proper call has to avoid\<close>

lemma abort_dangling: "a \<in> set as \<Longrightarrow> ws a = None \<Longrightarrow> each_waiter abort_waiter as ws = Fault Dangling"
proof (induction as arbitrary: ws)
  case (Cons b as)
  show ?case
  proof (cases "ws b")
    case (Some w)
    obtain w' where "abort_waiter w = Ret w'" by (simp add: abort_waiter_def)
    moreover have "(ws(b \<mapsto> w')) a = None" "a \<in> set as" using Cons.prems Some by auto
    ultimately show ?thesis using Cons.IH [of "ws(b \<mapsto> w')"] Some by (simp del: fun_upd_apply)
  qed simp
qed simp

text \<open>An AV/C transaction whose command fails: the call returns, and the next unbinding faults.\<close>

lemma failed_command_dangles:
  assumes "obj_fcps objs p = Some f" and "a \<in> set (fcp_transactions f)"
    and "hinawa_fw_fcp_command_with_tstamp (env_constants env) (env_ioctl env) sch req f (obj_nodes objs)
      cmd cmd_size True error = Ret (False, ts, ns, e, io)"
  shows "\<exists>objs'. perform env SO fe (Avc_Send sch p a req cmd cmd_size error) objs = Ret objs' \<and>
    perform env' SO' fe' (Unbind p) objs' = Fault Dangling"
proof -
  let ?f = "abandon_waiter a f"
  have "hinawa_fw_fcp_unbind K ?f ns' = Fault Dangling" for K ns'
  proof -
    obtain g ns'' io' where r: "hinawa_fw_resp_release K ?f ns' = (g, ns'', io')" by (metis prod_cases3)
    from release_fcp_fields [OF r] assms(2) abort_dangling [of a "fcp_transactions ?f" "stack ?f"] r
    show ?thesis by (simp add: hinawa_fw_fcp_unbind_def abandon_waiter_def)
  qed
  with assms(1,3) show ?thesis
    by (intro exI [of _ "put_fcp p ?f ns objs"]) (simp add: avc_send_def)
qed

text \<open>A request that passes the checks, with no location for the error: the function looks through the null
  pointer.\<close>

lemma null_location_faults:
  assumes "obj_nodes objs p = Some n" and "request_length tcode addr len frame frame_size NullErr = Some l"
  shows "perform env SO fe (Request p req tcode addr len frame frame_size NullErr) objs = Fault Null_Deref"
  using assms by (simp add: hinawa_fw_req_request_def hinawa_fw_node_ioctl_def)

end
