(* ===== verification/Fw_Outstanding.thy ===== *)
theory Fw_Outstanding
  imports Fw_Dispatch
begin

text \<open>
  The list of outstanding requests of a node (\<open>transactions\<close> of \<open>src/fw_node.c\<close>) over time. Three functions
  change it: \<open>hinawa_fw_node_ioctl\<close> enters the sender of a request, \<open>hinawa_fw_node_invalidate_transaction\<close>
  and the dispatcher remove an entry. They may come in any order and any number; what the list then stands
  for is a counter for each request, and the responses that were delivered to it.
\<close>

section \<open>Histories\<close>

datatype list_action =
    Sent fw_cdev_send_request
  | Invalidated obj_id
  | Arrived fw_cdev_event

definition list_step ::
    "environment \<Rightarrow> obj_id \<Rightarrow> list_action \<Rightarrow> objects \<Rightarrow> (objects \<times> emission list) run" where
  "list_step env self x objs =
     (case obj_nodes objs self of
        None \<Rightarrow> Fault Dangling
      | Some n \<Rightarrow>
        (case x of
           Sent r \<Rightarrow>
             (case hinawa_fw_node_ioctl (env_ioctl env) (Some n) (FW_CDEV_IOC_SEND_REQUEST r) (Err None) of
                (err, args, n', error, io) \<Rightarrow>
                  Ret (case n' of None \<Rightarrow> objs | Some m \<Rightarrow> put_node self m objs, []))
         | Invalidated p \<Rightarrow> Ret (put_node self (hinawa_fw_node_invalidate_transaction p n) objs, [])
         | Arrived e \<Rightarrow>
             bind_run (dispatch_event env self n e objs) (\<lambda>(objs, sigs, io). Ret (objs, sigs))))"

primrec list_steps ::
    "environment \<Rightarrow> obj_id \<Rightarrow> list_action list \<Rightarrow> objects \<Rightarrow> (objects \<times> emission list) run" where
  "list_steps env self [] objs = Ret (objs, [])"
| "list_steps env self (x # xs) objs =
     bind_run (list_step env self x objs) (\<lambda>(objs, sigs).
       bind_run (list_steps env self xs objs) (\<lambda>(objs, sigs'). Ret (objs, sigs @ sigs')))"

section \<open>The reference: a counter\<close>

text \<open>How often the request \<open>q\<close> is outstanding at the end, and which events were delivered to it, when it is
  outstanding \<open>k\<close> times at first: removing it when it is not outstanding has no effect.\<close>

primrec outstanding :: "obj_id \<Rightarrow> list_action list \<Rightarrow> nat \<Rightarrow> nat \<times> fw_cdev_event list" where
  "outstanding q [] k = (k, [])"
| "outstanding q (x # xs) k =
     (case x of
        Sent r \<Rightarrow> outstanding q xs (if sr_closure r = q then k + 1 else k)
      | Invalidated p \<Rightarrow> outstanding q xs (if p = q then k - 1 else k)
      | Arrived e \<Rightarrow>
          if event_closure e = q \<and> 0 < k then apsnd ((#) e) (outstanding q xs (k - 1))
          else outstanding q xs k)"

text \<open>What a delivered event emits: \<open>responded\<close> with its content for the two kinds of responses.\<close>

definition response_signals :: "fw_cdev_event \<Rightarrow> responded list" where
  "response_signals e =
     (case e of
        FW_CDEV_EVENT_RESPONSE r \<Rightarrow> [hinawa_fw_req_handle_response r]
      | FW_CDEV_EVENT_RESPONSE2 r \<Rightarrow> [hinawa_fw_req_handle_response2 r]
      | _ \<Rightarrow> [])"

text \<open>The emissions of \<open>responded\<close> on a request.\<close>

fun responded_on :: "obj_id \<Rightarrow> emission \<Rightarrow> responded list" where
  "responded_on p (Req_Responded q s) = (if q = p then [s] else [])"
| "responded_on p _ = []"

lemma responded_on_map:
  "concat (map (responded_on q \<circ> Req_Responded p) ss) = (if p = q then ss else [])"
  by (induction ss) auto

lemma apsnd_nothing [simp]: "apsnd ((@) []) x = x" "apsnd ((@) [e]) x = apsnd ((#) e) x"
  by (cases x; simp)+

section \<open>One step\<close>

lemma fd_invalidate: "fd (hinawa_fw_node_invalidate_transaction p n) = fd n"
  by (simp add: hinawa_fw_node_invalidate_transaction_def)

lemma count_register:
  "count_list (transactions (register_transaction p n)) q =
   (if p = q then count_list (transactions n) q + 1 else count_list (transactions n) q)"
  by (simp add: register_transaction_def)

lemma count_invalidate:
  "count_list (transactions (hinawa_fw_node_invalidate_transaction p n)) q =
   (if p = q then count_list (transactions n) q - 1 else count_list (transactions n) q)"
  by (simp add: node_reg.pending_forget flip: count_mset)

lemma sent_registers:
  assumes "obj_nodes objs self = Some n" and "0 \<le> fd n"
  shows "list_step env self (Sent r) objs = Ret (put_node self (register_transaction (sr_closure r) n) objs, [])"
proof -
  obtain err a n' p io where
    io: "hinawa_fw_node_ioctl (env_ioctl env) (Some n) (FW_CDEV_IOC_SEND_REQUEST r) (Err None) = (err, a, n', p, io)"
    by (metis prod_cases5)
  then have "n' = Some (register_transaction (sr_closure r) n)"
    using assms(2) by (cases rule: node_ioctl_cases) auto
  with io assms(1) show ?thesis by (simp add: list_step_def)
qed

lemma arrived_removes:
  assumes "obj_nodes objs self = Some n" and "live_request objs (event_closure e)"
  shows "list_step env self (Arrived e) objs =
    Ret (put_node self (hinawa_fw_node_invalidate_transaction (event_closure e) n) objs,
      if event_closure e \<in> set (transactions n)
      then map (Req_Responded (event_closure e)) (response_signals e) else [])"
proof -
  have "snd (handle_req_object e (event_closure e) n) =
      (if event_closure e \<in> set (transactions n)
       then map (Req_Responded (event_closure e)) (response_signals e) else [])"
    by (simp add: handle_req_object_def response_signals_def split: fw_cdev_event.split)
  with assms show ?thesis
    by (simp add: list_step_def dispatch_event_def live_request_type split_beta handle_req_object_eq)
qed

text \<open>The objects that the events are for stay as they are.\<close>

definition arrivals_live :: "list_action list \<Rightarrow> objects \<Rightarrow> bool" where
  "arrivals_live xs objs \<longleftrightarrow>
     list_all (\<lambda>x. case x of Arrived e \<Rightarrow> live_request objs (event_closure e) | _ \<Rightarrow> True) xs"

lemma arrivals_live_put:
  assumes "arrivals_live xs objs" and "obj_nodes objs self = Some n"
  shows "arrivals_live xs (put_node self m objs)"
proof -
  have "live_request (put_node self m objs) p" if "live_request objs p" for p
    using that assms(2) by (auto simp: live_request_def)
  with assms(1) show ?thesis by (auto simp: arrivals_live_def list_all_iff split: list_action.splits)
qed

section \<open>The list keeps the count\<close>

text \<open>C24. Requests in the list of outstanding requests of an opened node, over any history of requests sent,
  invalidations, and events for live requests that the dispatcher reads, in any order: whether or not the
  kernel accepts a request, its sender is entered once more; an invalidation or an event takes one entry
  of its request away, and changes nothing when there is none. A response is emitted on its request, with
  its content and in order, exactly when the request is outstanding at that moment.\<close>

theorem outstanding_requests_counted:
  fixes q :: obj_id
  assumes "obj_nodes objs self = Some n" and "0 \<le> fd n" and "arrivals_live xs objs"
  defines "ref \<equiv> outstanding q xs (count_list (transactions n) q)"
  shows "\<exists>objs' sigs n'. list_steps env self xs objs = Ret (objs', sigs) \<and> obj_nodes objs' self = Some n' \<and>
    count_list (transactions n') q = fst ref \<and>
    concat (map (responded_on q) sigs) = concat (map response_signals (snd ref))"
  using assms(1-3) unfolding ref_def
proof (induction xs arbitrary: objs n)
  case (Cons x xs)
  have next_step: ?case
    if "list_step env self x objs = Ret (put_node self m objs, sigs)" and "0 \<le> fd m"
      and "outstanding q (x # xs) (count_list (transactions n) q) =
        apsnd ((@) es) (outstanding q xs (count_list (transactions m) q))"
      and "concat (map (responded_on q) sigs) = concat (map response_signals es)" for m sigs es
  proof -
    have "arrivals_live xs (put_node self m objs)"
      using Cons.prems(3) arrivals_live_put [OF _ Cons.prems(1)] by (simp add: arrivals_live_def)
    with Cons.IH [of "put_node self m objs" m] that show ?thesis by fastforce
  qed
  show ?case
  proof (cases x)
    case (Sent r)
    with sent_registers [OF Cons.prems(1,2), of env r] Cons.prems(2) show ?thesis
      by (intro next_step [where es = "[]" and m = "register_transaction (sr_closure r) n" and sigs = "[]"])
         (simp_all add: count_register, simp add: register_transaction_def)
  next
    case (Invalidated p)
    with Cons.prems(1,2) show ?thesis
      by (intro next_step [where es = "[]" and m = "hinawa_fw_node_invalidate_transaction p n" and sigs = "[]"])
         (simp_all add: list_step_def count_invalidate, simp add: hinawa_fw_node_invalidate_transaction_def)
  next
    case (Arrived e)
    let ?p = "event_closure e"
    have live: "live_request objs ?p" using Cons.prems(3) Arrived by (simp add: arrivals_live_def)
    have "?p \<in> set (transactions n) \<longleftrightarrow> 0 < count_list (transactions n) ?p"
      by (metis count_list_0_iff gr0I less_numeral_extra(3))
    with arrived_removes [OF Cons.prems(1) live, of env] Arrived Cons.prems(2) show ?thesis
      by (intro next_step [where m = "hinawa_fw_node_invalidate_transaction ?p n"
            and es = "if ?p = q \<and> 0 < count_list (transactions n) q then [e] else []"])
         (auto simp: count_invalidate responded_on_map fd_invalidate)
  qed
qed auto

theorem outstanding_requests_counted_witness:
  "\<exists>objs' sigs n'. list_steps sample_env 2
      [Invalidated 9, Sent \<lparr>sr_tcode = 4, sr_length = 4, sr_offset = 0, sr_closure = 9, sr_data = None,
         sr_generation = 0\<rparr>, Arrived (FW_CDEV_EVENT_RESPONSE2 (sample_response2 0)),
       Arrived (FW_CDEV_EVENT_RESPONSE2 (sample_response2 4))]
      (put_node 2 (hinawa_fw_node_init\<lparr>fd := 3\<rparr>) sample_objects) = Ret (objs', sigs) \<and>
    obj_nodes objs' 2 = Some n' \<and> count_list (transactions n') 9 = 0 \<and>
    concat (map (responded_on 9) sigs) = [hinawa_fw_req_handle_response2 (sample_response2 0)]"
proof -
  let ?n = "hinawa_fw_node_init\<lparr>fd := 3\<rparr>"
  let ?xs = "[Invalidated 9, Sent \<lparr>sr_tcode = 4, sr_length = 4, sr_offset = 0, sr_closure = 9, sr_data = None,
         sr_generation = 0\<rparr>, Arrived (FW_CDEV_EVENT_RESPONSE2 (sample_response2 0)),
       Arrived (FW_CDEV_EVENT_RESPONSE2 (sample_response2 4))]"
  have n: "obj_nodes (put_node 2 ?n sample_objects) 2 = Some ?n" "0 \<le> fd ?n" by simp_all
  have live: "arrivals_live ?xs (put_node 2 ?n sample_objects)"
    by (simp add: arrivals_live_def live_request_def sample_objects_def sample_response2_def)
  have "outstanding 9 ?xs (count_list (transactions ?n) 9) = (0, [FW_CDEV_EVENT_RESPONSE2 (sample_response2 0)])"
    by (simp add: hinawa_fw_node_init_def) (simp add: sample_response2_def)
  with outstanding_requests_counted [OF n live, of sample_env 9] show ?thesis
    by (simp add: response_signals_def)
qed

end
