(* ===== verification/Fw_Race.thy ===== *)
theory Fw_Race
  imports Fw_Source
begin

text \<open>
  Callers that register their requests on one node at the same time.

  \<open>hinawa_fw_node_ioctl\<close> of \<open>src/fw_node.c\<close> extends the list of outstanding requests by
  \<open>priv->transactions = g_list_prepend(priv->transactions, req)\<close> without holding \<open>transactions_mutex\<close>.
  The statement loads the list and stores the extended one: these are two accesses to the shared variable,
  and accesses of other threads may come in between. \<open>hinawa_fw_node_ioctl\<close> in \<open>Fw_Node\<close> registers in one
  step; here a caller takes two, and a run is any sequence of accesses.
\<close>

section \<open>Accesses\<close>

datatype access = Load nat | Store nat

primrec caller :: "access \<Rightarrow> nat" where
  "caller (Load i) = i"
| "caller (Store i) = i"

text \<open>The shared list, and what each caller has loaded of it.\<close>

record race =
  shared :: "obj_id list"
  loaded :: "nat \<Rightarrow> obj_id list"

primrec perform_access :: "(nat \<Rightarrow> obj_id) \<Rightarrow> access \<Rightarrow> race \<Rightarrow> race" where
  "perform_access req (Load i) r = r\<lparr>loaded := (loaded r)(i := shared r)\<rparr>"
| "perform_access req (Store i) r = r\<lparr>shared := req i # loaded r i\<rparr>"

definition perform_accesses :: "(nat \<Rightarrow> obj_id) \<Rightarrow> access list \<Rightarrow> obj_id list \<Rightarrow> obj_id list" where
  "perform_accesses req as ts = shared (fold (perform_access req) as \<lparr>shared = ts, loaded = \<lambda>_. []\<rparr>)"

text \<open>The accesses of callers, each of which loads once and then stores once.\<close>

definition run_of :: "nat list \<Rightarrow> access list \<Rightarrow> bool" where
  "run_of is as \<longleftrightarrow> distinct is \<and> caller ` set as = set is \<and>
     (\<forall>i\<in>set is. filter (\<lambda>a. caller a = i) as = [Load i, Store i])"

text \<open>A caller's list: what was there at first, and requests that were stored before.\<close>

lemma unstored_absent:
  assumes "Store i \<notin> set as" and "\<forall>j. Store j \<in> set as \<longrightarrow> req j \<noteq> req i"
    and "req i \<notin> set (shared r)" and "\<And>j. req i \<notin> set (loaded r j)"
  shows "req i \<notin> set (shared (fold (perform_access req) as r)) \<and>
    (\<forall>j. req i \<notin> set (loaded (fold (perform_access req) as r) j))"
  using assms
proof (induction as arbitrary: r)
  case (Cons a as)
  then show ?case by (cases a) (fastforce intro!: Cons.IH)+
qed simp

lemma loaded_kept:
  "Load j \<notin> set as \<Longrightarrow> loaded (fold (perform_access req) as r) j = loaded r j"
proof (induction as arbitrary: r)
  case (Cons a as)
  then show ?case by (cases a) auto
qed simp

lemma sequential_run:
  "perform_accesses req (concat (map (\<lambda>i. [Load i, Store i]) is)) ts = rev (map req is) @ ts"
proof -
  have "shared (fold (perform_access req) (concat (map (\<lambda>i. [Load i, Store i]) is)) r) =
      rev (map req is) @ shared r" for r
    by (induction "is" arbitrary: r) simp_all
  then show ?thesis by (simp add: perform_accesses_def)
qed

section \<open>Callers one after the other, and callers that overlap\<close>

text \<open>When no access of another caller comes between the two accesses of a caller, the shared list ends
  up as if each had registered in one step, in the order of the callers: nothing is lost.\<close>

theorem serial_registrations:
  "perform_accesses req (concat (map (\<lambda>i. [Load i, Store i]) is)) (transactions n) =
   transactions (fold (\<lambda>i. register_transaction (req i)) is n)"
proof -
  have "transactions (fold (\<lambda>i. register_transaction (req i)) is n) = rev (map req is) @ transactions n"
    by (induction "is" arbitrary: n) (simp_all add: register_transaction_def)
  then show ?thesis by (simp add: sequential_run)
qed

lemma run_callers: "run_of is as \<Longrightarrow> Store k \<in> set as \<Longrightarrow> k \<in> set is"
  unfolding run_of_def by (metis caller.simps(2) imageI)

lemma run_own: "run_of is as \<Longrightarrow> Store k \<in> set as \<Longrightarrow> filter (\<lambda>a. caller a = k) as = [Load k, Store k]"
  using run_callers [of "is" as k] by (simp add: run_of_def)

lemma run_stores_once:
  assumes "run_of is (xs @ ys)" and "Store i \<in> set ys"
  shows "Store i \<notin> set xs"
proof
  assume "Store i \<in> set xs"
  with assms(2) have "2 \<le> length (filter (\<lambda>a. a = Store i) (xs @ ys))"
    using split_list [of "Store i" xs] split_list [of "Store i" ys] by fastforce
  moreover have "filter (\<lambda>a. a = Store i) (xs @ ys) =
      filter (\<lambda>a. a = Store i) (filter (\<lambda>a. caller a = i) (xs @ ys))"
    unfolding filter_filter by (rule filter_cong) auto
  moreover have "filter (\<lambda>a. caller a = i) (xs @ ys) = [Load i, Store i]"
    by (rule run_own [OF assms(1)]) (use assms(2) in simp)
  ultimately have "2 \<le> length (filter (\<lambda>a. a = Store i) [Load i, Store i])" by (simp only:)
  then show False by simp
qed

lemma run_quiet_between:
  assumes "run_of is (pre @ Load j # mid @ [Store j])"
  shows "Load j \<notin> set mid" "Store j \<notin> set mid"
proof -
  have "filter (\<lambda>a. caller a = j) pre = [] \<and> filter (\<lambda>a. caller a = j) mid = []"
    using run_own [OF assms, of j] by (cases "filter (\<lambda>a. caller a = j) pre") auto
  then show "Load j \<notin> set mid" "Store j \<notin> set mid" by (auto simp: filter_empty_conv)
qed

text \<open>What the last caller stores is what it had loaded: requests stored since then are gone.\<close>

lemma overlapped_run:
  assumes run: "run_of is (pre @ Load j # mid @ [Store j])" and i: "Store i \<in> set mid"
    and inj: "inj_on req (set is)" and ts: "req i \<notin> set ts"
  shows "req i \<notin> set (perform_accesses req (pre @ Load j # mid @ [Store j]) ts)"
proof -
  let ?as = "pre @ Load j # mid @ [Store j]" and ?r = "\<lparr>shared = ts, loaded = \<lambda>_. []\<rparr>"
  have pre: "Store i \<notin> set pre"
    by (rule run_stores_once [OF run]) (use i in simp)
  have "req k \<noteq> req i" if "Store k \<in> set ?as" "k \<noteq> i" for k
    using inj that i run_callers [OF run, of k] run_callers [OF run, of i] by (auto dest: inj_onD)
  then have "req j \<noteq> req i" "\<forall>k. Store k \<in> set pre \<longrightarrow> req k \<noteq> req i"
    using pre i run_quiet_between(2) [OF run] by auto
  moreover from unstored_absent [OF pre this(2), of ?r] ts
  have "req i \<notin> set (shared (fold (perform_access req) pre ?r))" by simp
  moreover have "perform_accesses req ?as ts = req j # shared (fold (perform_access req) pre ?r)"
    using loaded_kept [OF run_quiet_between(1) [OF run], of req
        "perform_access req (Load j) (fold (perform_access req) pre ?r)"]
    by (simp add: perform_accesses_def)
  ultimately show ?thesis by auto
qed

text \<open>C17. Callers that overlap: when a caller stores its list after another has stored one that it had not
  loaded, the other's registration is lost. From then on the request is not outstanding although it
  was sent, and every response to it is dropped by the dispatcher, so that its caller waits until
  the deadline.\<close>

theorem overlapping_registration_lost:
  assumes "run_of is (pre @ Load j # mid @ [Store j])" and "Store i \<in> set mid"
    and "inj_on req (set is)" and "req i \<notin> set ts"
  defines "final \<equiv> perform_accesses req (pre @ Load j # mid @ [Store j]) ts"
  assumes "abi_ok (env_abi env)" and "source_ok src" and "0 \<le> fd n"
    and "live_request objs (req i)" and "src_self src \<noteq> req i"
    and "list_all (\<lambda>e. rs2_closure e = req i) es"
  shows "req i \<notin> set final \<and>
    dispatch_reads env (map FW_CDEV_EVENT_RESPONSE2 es) src
      (put_node (src_self src) (n\<lparr>transactions := final\<rparr>) objs) =
    Ret (put_node (src_self src) (n\<lparr>transactions := final\<rparr>) objs, [], [])"
proof -
  let ?n = "n\<lparr>transactions := final\<rparr>" and ?p = "req i"
  let ?objs = "put_node (src_self src) ?n objs"
  have lost: "?p \<notin> set final" unfolding final_def by (rule overlapped_run [OF assms(1-4)])
  have gone: "forget_times k ?p ?n = ?n" for k
    using lost by (induction k) (simp_all add: forget_times_Suc hinawa_fw_node_invalidate_transaction_def,
        simp add: forget_times_def)
  obtain buf where buf: "src_buf src = Some buf" using assms(7) by (rule source_okE)
  obtain es' where es': "seen_all (env_abi env) buf (map FW_CDEV_EVENT_RESPONSE2 es) =
      map FW_CDEV_EVENT_RESPONSE2 es'" "map rs2_closure es' = map rs2_closure es"
    using seen_responses by blast
  have "list_all wire_event (map FW_CDEV_EVENT_RESPONSE2 es)" by (simp add: wire_event_def list_all_iff)
  moreover have "list_all (\<lambda>e. rs2_closure e = ?p) es'"
    using assms(11) es'(2) by (simp add: list_all_iff) (metis image_iff list.set_map)
  moreover have "live_request ?objs ?p" using assms(9,10) by (simp add: live_request_def)
  moreover have "obj_nodes ?objs (src_self src) = Some ?n" "0 \<le> fd ?n" using assms(8) by simp_all
  moreover have "count_list (transactions ?n) ?p = 0" using lost by (simp add: count_list_0_iff)
  ultimately show ?thesis
    using dispatch_reads_seen [OF assms(6) _ assms(7) buf, of _ ?objs] lost es'(1)
      dispatch_responses [of ?objs src ?n ?p es' env]
    by (simp add: gone)
qed

theorem overlapping_registration_lost_witness:
  "dispatch_reads sample_env [FW_CDEV_EVENT_RESPONSE2 (sample_response2 0)] sample_src
      (put_node 2 (sample_node\<lparr>transactions :=
          perform_accesses (\<lambda>i. if i = 0 then 9 else 11) [Load 0, Load 1, Store 0, Store 1] []\<rparr>)
        sample_objects) =
    Ret (put_node 2 (sample_node\<lparr>transactions := [11]\<rparr>) sample_objects, [], [])"
proof -
  let ?req = "\<lambda>i::nat. if i = 0 then 9 else (11 :: obj_id)"
  have run: "run_of [0, 1] ([Load 0] @ Load 1 # [Store 0] @ [Store 1])"
    by (simp add: run_of_def) auto
  have "perform_accesses ?req [Load 0, Load 1, Store 0, Store 1] [] = [11]"
    by (simp add: perform_accesses_def)
  moreover have "inj_on ?req (set [0, 1])" by simp
  moreover have "live_request sample_objects 9" "0 \<le> fd sample_node" "src_self sample_src = 2"
    by (simp_all add: live_request_def sample_objects_def sample_node_def sample_src_def)
  ultimately show ?thesis
    using overlapping_registration_lost [OF run, of 0 ?req "[]" sample_env sample_src sample_node
        sample_objects "[sample_response2 0]"]
    by (simp add: sample_abi_ok sample_source_ok sample_response2_def)
qed

end
