(* ===== verification/Req_Threads.thy ===== *)
theory Req_Threads
  imports Fw_Req
begin

text \<open>
  A blocking transaction and the threads that dispatch its responses, interleaved.

  \<open>Fw_Req\<close> runs \<open>hinawa_fw_req_transaction_with_tstamp\<close> against a schedule of the responses that arrive while
  it waits. Here the wait is what \<open>src/fw_req.c\<close> has: the caller and any number of threads that run
  \<open>dispatch_src\<close> of \<open>src/fw_node.c\<close> take and release the mutex of the waiter and those of the nodes, one
  step at a time, in any order. The theory shows that the schedules are all there is as long as the request
  is outstanding once, that the waiter on the stack of the caller outlives every handler as long as the
  request is used on one node, and what happens otherwise.
\<close>

section \<open>Runs\<close>

primrec run_steps :: "('a \<Rightarrow> 's \<Rightarrow> 's option) \<Rightarrow> 'a list \<Rightarrow> 's \<Rightarrow> 's option" where
  "run_steps step [] s = Some s"
| "run_steps step (a # as) s = (case step a s of None \<Rightarrow> None | Some t \<Rightarrow> run_steps step as t)"

text \<open>A property that every step keeps holds after every run.\<close>

locale kept_by_steps =
  fixes step :: "'a \<Rightarrow> 's \<Rightarrow> 's option"
    and inv :: "'s \<Rightarrow> bool"
  assumes kept: "inv s \<Longrightarrow> step a s = Some t \<Longrightarrow> inv t"
begin

lemma kept_by_run: "inv s \<Longrightarrow> run_steps step as s = Some t \<Longrightarrow> inv t"
proof (induction as arbitrary: s)
  case (Cons a as)
  then show ?case by (auto intro: kept split: option.splits)
qed simp

end

section \<open>The caller\<close>

text \<open>Where the caller is, from the first \<open>g_mutex_lock\<close> after the request was sent: about to lock the waiter, at
  the condition of the loop, in \<open>g_cond_wait_until\<close>, at the three calls after the loop, in
  \<open>hinawa_fw_node_invalidate_transaction\<close> before and after it has the mutex, about to look at the waiter,
  and gone, with the waiter.\<close>

datatype caller_pc =
    Lock_Waiter | Check_Rcode | Cond_Wait | Disconnect | Clear_Cond | Unlock_Waiter
  | Lock_Node | Forget | Read_Result | Returned

text \<open>Where a dispatching thread is: between events, with the request removed from the list of the node and
  about to emit \<open>responded\<close>, in the handler before and after it has the mutex of the waiter, about to signal
  the condition, about to unlock the waiter, about to unlock the node.\<close>

datatype dispatcher_pc =
    Next_Event | Emit responded | Invoked responded | Write_Waiter responded | Signal_Cond
  | Leave_Handler | Unlock_Node

datatype thread = Caller | Dispatcher nat

record dispatcher =
  d_node :: obj_id
  d_events :: "responded list"
  d_pc :: dispatcher_pc

text \<open>The waiter and whether its handler is connected and its condition cleared, the owners of the mutexes, the
  lists of outstanding requests of the nodes.\<close>

record wait_state =
  ts_pc :: caller_pc
  ts_waiter :: waiter
  ts_connected :: bool
  ts_cleared :: bool
  ts_waiter_owner :: "thread option"
  ts_node_owner :: "obj_id \<Rightarrow> thread option"
  ts_lists :: "obj_id \<Rightarrow> obj_id list"
  ts_dispatchers :: "dispatcher list"

text \<open>One step of the caller, with the request \<open>p\<close> on the node \<open>n\<close>; \<open>None\<close> while it is blocked. A return of
  \<open>g_cond_wait_until\<close> by the deadline is \<open>signalled = False\<close>; it may also return for no reason.\<close>

definition caller_step :: "obj_id \<Rightarrow> obj_id \<Rightarrow> bool \<Rightarrow> wait_state \<Rightarrow> wait_state option" where
  "caller_step n p signalled s =
     (case ts_pc s of
        Lock_Waiter \<Rightarrow>
          if ts_waiter_owner s = None
          then Some (s\<lparr>ts_waiter_owner := Some Caller, ts_pc := Check_Rcode\<rparr>) else None
      | Check_Rcode \<Rightarrow>
          Some (if w_rcode (ts_waiter s) = G_MAXUINT
                then s\<lparr>ts_waiter_owner := None, ts_pc := Cond_Wait\<rparr> else s\<lparr>ts_pc := Disconnect\<rparr>)
      | Cond_Wait \<Rightarrow>
          if ts_waiter_owner s = None
          then Some (s\<lparr>ts_waiter_owner := Some Caller,
                       ts_pc := if signalled then Check_Rcode else Disconnect\<rparr>) else None
      | Disconnect \<Rightarrow> Some (s\<lparr>ts_connected := False, ts_pc := Clear_Cond\<rparr>)
      | Clear_Cond \<Rightarrow> Some (s\<lparr>ts_cleared := True, ts_pc := Unlock_Waiter\<rparr>)
      | Unlock_Waiter \<Rightarrow> Some (s\<lparr>ts_waiter_owner := None, ts_pc := Lock_Node\<rparr>)
      | Lock_Node \<Rightarrow>
          if ts_node_owner s n = None
          then Some (s\<lparr>ts_node_owner := (ts_node_owner s)(n \<mapsto> Caller), ts_pc := Forget\<rparr>) else None
      | Forget \<Rightarrow>
          Some (s\<lparr>ts_lists := (ts_lists s)(n := remove1 p (ts_lists s n)),
                  ts_node_owner := (ts_node_owner s)(n := None), ts_pc := Read_Result\<rparr>)
      | Read_Result \<Rightarrow> Some (s\<lparr>ts_pc := Returned\<rparr>)
      | Returned \<Rightarrow> None)"

section \<open>Dispatchers\<close>

definition set_dispatcher :: "nat \<Rightarrow> dispatcher \<Rightarrow> wait_state \<Rightarrow> wait_state" where
  "set_dispatcher i d s = s\<lparr>ts_dispatchers := (ts_dispatchers s)[i := d]\<rparr>"

text \<open>One step of the dispatcher \<open>i\<close>. A handler that would leave a buffer makes no step.\<close>

definition dispatcher_step :: "obj_id \<Rightarrow> nat \<Rightarrow> wait_state \<Rightarrow> wait_state option" where
  "dispatcher_step p i s =
     (if length (ts_dispatchers s) \<le> i then None
      else
        let d = ts_dispatchers s ! i; m = d_node d
        in case d_pc d of
             Next_Event \<Rightarrow>
               (case d_events d of
                  [] \<Rightarrow> None
                | e # es \<Rightarrow>
                    if ts_node_owner s m \<noteq> None then None
                    else Some (set_dispatcher i
                      (d\<lparr>d_events := es, d_pc := if p \<in> set (ts_lists s m) then Emit e else Unlock_Node\<rparr>)
                      (s\<lparr>ts_node_owner := (ts_node_owner s)(m \<mapsto> Dispatcher i),
                         ts_lists := (ts_lists s)(m := remove1 p (ts_lists s m))\<rparr>)))
           | Emit e \<Rightarrow>
               Some (set_dispatcher i (d\<lparr>d_pc := if ts_connected s then Invoked e else Unlock_Node\<rparr>) s)
           | Invoked e \<Rightarrow>
               if ts_waiter_owner s = None
               then Some (set_dispatcher i (d\<lparr>d_pc := Write_Waiter e\<rparr>)
                      (s\<lparr>ts_waiter_owner := Some (Dispatcher i)\<rparr>)) else None
           | Write_Waiter e \<Rightarrow>
               (case handle_responded_signal e (ts_waiter s) of
                  Fault _ \<Rightarrow> None
                | Ret w \<Rightarrow> Some (set_dispatcher i (d\<lparr>d_pc := Signal_Cond\<rparr>) (s\<lparr>ts_waiter := w\<rparr>)))
           | Signal_Cond \<Rightarrow> Some (set_dispatcher i (d\<lparr>d_pc := Leave_Handler\<rparr>) s)
           | Leave_Handler \<Rightarrow>
               Some (set_dispatcher i (d\<lparr>d_pc := Unlock_Node\<rparr>) (s\<lparr>ts_waiter_owner := None\<rparr>))
           | Unlock_Node \<Rightarrow>
               Some (set_dispatcher i (d\<lparr>d_pc := Next_Event\<rparr>)
                 (s\<lparr>ts_node_owner := (ts_node_owner s)(m := None)\<rparr>)))"

datatype wait_action = Caller_Step bool | Dispatcher_Step nat

definition thread_step :: "obj_id \<Rightarrow> obj_id \<Rightarrow> wait_action \<Rightarrow> wait_state \<Rightarrow> wait_state option" where
  "thread_step n p a s =
     (case a of Caller_Step signalled \<Rightarrow> caller_step n p signalled s | Dispatcher_Step i \<Rightarrow> dispatcher_step p i s)"

text \<open>The caller has sent its request and nothing has been dispatched.\<close>

definition sent_state :: "waiter \<Rightarrow> (obj_id \<Rightarrow> obj_id list) \<Rightarrow> (obj_id \<times> responded list) list \<Rightarrow> wait_state" where
  "sent_state w outstanding sources =
     \<lparr>ts_pc = Lock_Waiter, ts_waiter = w, ts_connected = True, ts_cleared = False, ts_waiter_owner = None,
      ts_node_owner = (\<lambda>_. None), ts_lists = outstanding,
      ts_dispatchers = map (\<lambda>(m, es). \<lparr>d_node = m, d_events = es, d_pc = Next_Event\<rparr>) sources\<rparr>"

lemmas step_defs = thread_step_def caller_step_def dispatcher_step_def set_dispatcher_def sent_state_def Let_def

text \<open>The caller alone, from its first lock to the deadline and its return.\<close>

definition timed_out :: "wait_action list" where
  "timed_out = map Caller_Step [True, True, False, True, True, True, True, True, True]"

section \<open>Who owns what\<close>

definition in_handler :: "dispatcher \<Rightarrow> bool" where
  "in_handler d \<longleftrightarrow>
     (case d_pc d of Invoked e \<Rightarrow> True | Write_Waiter e \<Rightarrow> True | Signal_Cond \<Rightarrow> True | Leave_Handler \<Rightarrow> True | _ \<Rightarrow> False)"

definition holds_waiter :: "dispatcher \<Rightarrow> bool" where
  "holds_waiter d \<longleftrightarrow>
     (case d_pc d of Write_Waiter e \<Rightarrow> True | Signal_Cond \<Rightarrow> True | Leave_Handler \<Rightarrow> True | _ \<Rightarrow> False)"

text \<open>A dispatcher has the mutex of its node from one event to the next, and the mutex of the waiter while its
  handler writes; the caller has the mutex of the waiter at the condition of the loop and after the loop
  until it unlocks it, and the handler is disconnected from then on.\<close>

definition dispatcher_owns :: "wait_state \<Rightarrow> nat \<Rightarrow> bool" where
  "dispatcher_owns s i \<longleftrightarrow>
     (d_pc (ts_dispatchers s ! i) \<noteq> Next_Event \<longrightarrow>
        ts_node_owner s (d_node (ts_dispatchers s ! i)) = Some (Dispatcher i)) \<and>
     (holds_waiter (ts_dispatchers s ! i) \<longrightarrow> ts_waiter_owner s = Some (Dispatcher i))"

definition caller_owns :: "obj_id \<Rightarrow> wait_state \<Rightarrow> bool" where
  "caller_owns n s \<longleftrightarrow>
     (ts_pc s = Forget \<longrightarrow> ts_node_owner s n = Some Caller) \<and>
     (ts_pc s \<in> {Check_Rcode, Disconnect, Clear_Cond, Unlock_Waiter} \<longrightarrow> ts_waiter_owner s = Some Caller) \<and>
     (ts_pc s \<in> {Clear_Cond, Unlock_Waiter, Lock_Node, Forget, Read_Result, Returned} \<longrightarrow> \<not> ts_connected s)"

definition owners_ok :: "obj_id \<Rightarrow> wait_state \<Rightarrow> bool" where
  "owners_ok n s \<longleftrightarrow> caller_owns n s \<and> (\<forall>i < length (ts_dispatchers s). dispatcher_owns s i)"

lemma set_dispatcher_sel [simp]:
  "ts_pc (set_dispatcher i d s) = ts_pc s" "ts_waiter (set_dispatcher i d s) = ts_waiter s"
  "ts_connected (set_dispatcher i d s) = ts_connected s" "ts_cleared (set_dispatcher i d s) = ts_cleared s"
  "ts_waiter_owner (set_dispatcher i d s) = ts_waiter_owner s"
  "ts_node_owner (set_dispatcher i d s) = ts_node_owner s" "ts_lists (set_dispatcher i d s) = ts_lists s"
  "ts_dispatchers (set_dispatcher i d s) = (ts_dispatchers s)[i := d]"
  by (simp_all add: set_dispatcher_def)

text \<open>A step of the caller leaves the dispatchers as they are, and what they own.\<close>

lemma caller_step_frame:
  assumes "caller_step n p b s = Some t" and "caller_owns n s"
  shows "caller_owns n t" "ts_dispatchers t = ts_dispatchers s"
    "ts_node_owner s m = Some (Dispatcher i) \<Longrightarrow> ts_node_owner t m = Some (Dispatcher i)"
    "ts_waiter_owner s = Some (Dispatcher i) \<Longrightarrow> ts_waiter_owner t = Some (Dispatcher i)"
  using assms
  by (auto simp: caller_step_def caller_owns_def split: caller_pc.splits if_splits)

lemma owners_ok_caller:
  assumes "owners_ok n s" and "caller_step n p b s = Some t"
  shows "owners_ok n t"
proof -
  have "caller_owns n s" using assms(1) by (simp add: owners_ok_def)
  note frame = caller_step_frame [OF assms(2) this]
  show ?thesis
    using assms(1) frame by (simp add: owners_ok_def dispatcher_owns_def)
qed

text \<open>A step of a dispatcher leaves the caller where it is, and the others as they are.\<close>

lemma dispatcher_step_frame:
  assumes "dispatcher_step p i s = Some t" and "dispatcher_owns s i"
  shows "dispatcher_owns t i" "i < length (ts_dispatchers s)"
    "length (ts_dispatchers t) = length (ts_dispatchers s)"
    "ts_pc t = ts_pc s" "ts_connected t = ts_connected s"
    "j \<noteq> i \<Longrightarrow> ts_dispatchers t ! j = ts_dispatchers s ! j"
    "ts_node_owner s m = Some x \<Longrightarrow> x \<noteq> Dispatcher i \<Longrightarrow> ts_node_owner t m = Some x"
    "ts_waiter_owner s = Some x \<Longrightarrow> x \<noteq> Dispatcher i \<Longrightarrow> ts_waiter_owner t = Some x"
  using assms
  by (auto simp: dispatcher_step_def dispatcher_owns_def holds_waiter_def Let_def
      split: dispatcher_pc.splits if_splits list.splits run.splits)

lemma owners_ok_dispatcher:
  assumes "owners_ok n s" and "dispatcher_step p i s = Some t"
  shows "owners_ok n t"
proof -
  have "dispatcher_owns s i"
    using assms by (simp add: owners_ok_def dispatcher_step_def split: if_splits)
  note frame = dispatcher_step_frame [OF assms(2) this]
  have "dispatcher_owns t j" if "j < length (ts_dispatchers s)" for j
    using assms(1) frame(1,6-8) that
    by (cases "j = i") (auto simp: owners_ok_def dispatcher_owns_def)
  then show ?thesis using assms(1) frame by (simp add: owners_ok_def caller_owns_def)
qed

interpretation owners: kept_by_steps "thread_step n p" "owners_ok n" for n p
  by unfold_locales (auto simp: thread_step_def split: wait_action.splits
      intro: owners_ok_caller owners_ok_dispatcher)

section \<open>The waiter outlives the handlers\<close>

definition on_node :: "obj_id \<Rightarrow> wait_state \<Rightarrow> bool" where
  "on_node n s \<longleftrightarrow> list_all (\<lambda>d. d_node d = n) (ts_dispatchers s)"

definition handlers_gone :: "obj_id \<Rightarrow> wait_state \<Rightarrow> bool" where
  "handlers_gone n s \<longleftrightarrow> owners_ok n s \<and> on_node n s \<and>
     (ts_pc s \<in> {Forget, Read_Result, Returned} \<longrightarrow> list_all (\<lambda>d. \<not> in_handler d) (ts_dispatchers s))"

lemma on_node_step: "on_node n s \<Longrightarrow> thread_step n p a s = Some t \<Longrightarrow> on_node n t"
  by (auto simp: on_node_def thread_step_def caller_step_def dispatcher_step_def list_all_length Let_def
      nth_list_update split: wait_action.splits caller_pc.splits dispatcher_pc.splits if_splits list.splits
      run.splits)

text \<open>The caller gets the mutex of the node only when no dispatcher of the node is at an event.\<close>

lemma idle_when_unowned:
  assumes "owners_ok n s" and "on_node n s" and "ts_node_owner s n = None"
  shows "list_all (\<lambda>d. d_pc d = Next_Event) (ts_dispatchers s)"
  using assms by (auto simp: owners_ok_def dispatcher_owns_def on_node_def list_all_length)

lemma handlers_gone_caller:
  assumes "handlers_gone n s" and "caller_step n p b s = Some t"
  shows "ts_pc t \<in> {Forget, Read_Result, Returned} \<longrightarrow> list_all (\<lambda>d. \<not> in_handler d) (ts_dispatchers t)"
proof (cases "ts_pc s = Lock_Node")
  case True
  then have "ts_node_owner s n = None" "ts_dispatchers t = ts_dispatchers s"
    using assms(2) by (auto simp: caller_step_def split: if_splits)
  with idle_when_unowned [of n s] assms(1) show ?thesis
    by (auto simp: handlers_gone_def list_all_iff in_handler_def)
next
  case False
  then show ?thesis
    using assms by (auto simp: handlers_gone_def caller_step_def split: caller_pc.splits if_splits)
qed

text \<open>No handler is entered once it is disconnected.\<close>

lemma dispatcher_step_enters:
  assumes "dispatcher_step p i s = Some t" and "in_handler (ts_dispatchers t ! i)"
  shows "ts_connected s \<or> in_handler (ts_dispatchers s ! i)"
  using assms
  by (auto simp: dispatcher_step_def in_handler_def Let_def
      split: dispatcher_pc.splits if_splits list.splits run.splits)

lemma handlers_gone_dispatcher:
  assumes "handlers_gone n s" and "dispatcher_step p i s = Some t"
    and "ts_pc s \<in> {Forget, Read_Result, Returned}"
  shows "list_all (\<lambda>d. \<not> in_handler d) (ts_dispatchers t)"
proof -
  have "dispatcher_owns s i" if "i < length (ts_dispatchers s)"
    using assms(1) that by (simp add: handlers_gone_def owners_ok_def)
  moreover have i: "i < length (ts_dispatchers s)"
    using assms(2) by (simp add: dispatcher_step_def split: if_splits)
  ultimately have frame: "length (ts_dispatchers t) = length (ts_dispatchers s)"
      "\<And>j. j \<noteq> i \<Longrightarrow> ts_dispatchers t ! j = ts_dispatchers s ! j"
    using dispatcher_step_frame(3,6) [OF assms(2)] by auto
  have "caller_owns n s" and out: "\<forall>j < length (ts_dispatchers s). \<not> in_handler (ts_dispatchers s ! j)"
    using assms(1,3) unfolding handlers_gone_def owners_ok_def list_all_length by blast+
  from this(1) have "\<not> ts_connected s" using assms(3) by (auto simp: caller_owns_def)
  with dispatcher_step_enters [OF assms(2)] out i have "\<not> in_handler (ts_dispatchers t ! i)" by blast
  with out frame show ?thesis unfolding list_all_length by metis
qed

interpretation gone: kept_by_steps "thread_step n p" "handlers_gone n" for n p
proof
  fix s a t assume s: "handlers_gone n s" "thread_step n p a s = Some t"
  have "ts_pc t = ts_pc s" if "dispatcher_step p i s = Some t" for i
    using that by (auto simp: dispatcher_step_def Let_def
        split: dispatcher_pc.splits if_splits list.splits run.splits)
  then have "ts_pc t \<in> {Forget, Read_Result, Returned} \<longrightarrow> list_all (\<lambda>d. \<not> in_handler d) (ts_dispatchers t)"
    using s handlers_gone_caller handlers_gone_dispatcher
    by (cases a) (auto simp: thread_step_def)
  moreover have "owners_ok n t" "on_node n t"
    using s owners.kept [of n s p a t] on_node_step [of n s p a t] by (auto simp: handlers_gone_def)
  ultimately show "handlers_gone n t" by (simp add: handlers_gone_def)
qed

lemma owners_ok_sent: "owners_ok n (sent_state w outstanding sources)"
  by (simp add: owners_ok_def caller_owns_def dispatcher_owns_def holds_waiter_def sent_state_def split_def)

lemma on_node_sent: "on_node n (sent_state w outstanding sources) \<longleftrightarrow> list_all (\<lambda>(m, es). m = n) sources"
  by (auto simp: on_node_def sent_state_def list_all_iff)

text \<open>C7. The waiter is a local variable of the caller, and the handlers of \<open>responded\<close> write to it. When the
  caller looks at the waiter at the end, no thread is in a handler, and none enters one afterwards: any
  number of threads may dispatch responses to the request on its node, in any interleaving with the caller,
  whether the wait ended by a response or by the deadline. Disconnecting the handler is not enough for
  this; it is the mutex of the node, which a dispatcher keeps while it emits and which the caller takes to
  invalidate the request.\<close>

theorem waiter_outlives_handlers:
  assumes "list_all (\<lambda>(m, es). m = n) sources"
    and "run_steps (thread_step n p) as (sent_state w outstanding sources) = Some s"
    and "ts_pc s \<in> {Read_Result, Returned}"
  shows "list_all (\<lambda>d. \<not> in_handler d) (ts_dispatchers s)"
proof -
  have "handlers_gone n (sent_state w outstanding sources)"
    using assms(1) by (simp add: handlers_gone_def owners_ok_sent on_node_sent) (simp add: sent_state_def)
  from gone.kept_by_run [OF this assms(2)] assms(3) show ?thesis by (auto simp: handlers_gone_def)
qed

text \<open>A run in which the handler is entered before the deadline and writes after it.\<close>

definition late_response :: "wait_action list" where
  "late_response = map Caller_Step [True, True] @ replicate 2 (Dispatcher_Step 0) @
     map Caller_Step [False, True, True, True] @ replicate 5 (Dispatcher_Step 0) @ map Caller_Step [True, True, True]"

lemma late_response_run:
  assumes "p \<in> set (outstanding n)" and "w_rcode w = G_MAXUINT" and "handle_responded_signal e w = Ret v"
  obtains s where "run_steps (thread_step n p) late_response (sent_state w outstanding [(n, [e])]) = Some s"
    "ts_pc s = Returned" "ts_cleared s" "ts_waiter s = v"
  using assms by (simp add: late_response_def step_defs numeral_eq_Suc)

definition sample_written :: waiter where
  "sample_written = \<lparr>w_rcode = 0, w_request_tstamp = 0x1234, w_response_tstamp = 0x1240, w_frame = [1, 2, 0, 0],
     w_length = 2\<rparr>"

lemma sample_write: "handle_responded_signal (sample_response 0 [1, 2]) (new_waiter [0, 0, 0, 0] 4) = Ret sample_written"
  by (simp add: handle_responded_signal_def new_waiter_def sample_response_def sample_written_def memcpy_def
      min_def)

theorem waiter_outlives_handlers_witness:
  "\<exists>s. run_steps (thread_step 2 7) late_response
      (sent_state (new_waiter [0, 0, 0, 0] 4) ((\<lambda>_. [])(2 := [7])) [(2, [sample_response 0 [1, 2]])]) = Some s \<and>
    ts_pc s = Returned \<and> ts_waiter s = sample_written \<and> list_all (\<lambda>d. \<not> in_handler d) (ts_dispatchers s)"
proof -
  obtain s where s: "run_steps (thread_step 2 7) late_response
      (sent_state (new_waiter [0, 0, 0, 0] 4) ((\<lambda>_. [])(2 := [7])) [(2, [sample_response 0 [1, 2]])]) = Some s"
    "ts_pc s = Returned" "ts_waiter s = sample_written"
    by (rule late_response_run [OF _ _ sample_write, of 7 "(\<lambda>_. [])(2 := [7])" 2]) simp_all
  with waiter_outlives_handlers [OF _ s(1)] show ?thesis by auto
qed

section \<open>The schedules are all there is\<close>

subsection \<open>How often a response can still be written\<close>

text \<open>The responses that dispatchers have taken for the request and not written yet, and the registrations
  that are left: together they bound what can still be written to the waiter.\<close>

definition carried :: "dispatcher \<Rightarrow> responded list" where
  "carried d = (case d_pc d of Emit e \<Rightarrow> [e] | Invoked e \<Rightarrow> [e] | Write_Waiter e \<Rightarrow> [e] | _ \<Rightarrow> [])"

definition budget :: "obj_id \<Rightarrow> obj_id \<Rightarrow> wait_state \<Rightarrow> nat" where
  "budget n p s = sum_list (map (length \<circ> carried) (ts_dispatchers s)) + count_list (ts_lists s n) p"

lemma sum_list_replace:
  fixes f :: "'a \<Rightarrow> nat"
  assumes "i < length xs"
  shows "sum_list (map f (xs[i := x])) + f (xs ! i) = sum_list (map f xs) + f x"
  using assms
proof (induction xs arbitrary: i)
  case (Cons y ys)
  then show ?case by (cases i) fastforce+
qed simp

lemma count_list_remove1: "count_list (remove1 p xs) p = count_list xs p - 1"
  by (simp flip: count_mset)

definition writing :: "nat \<Rightarrow> wait_state \<Rightarrow> responded list" where
  "writing i s = (case d_pc (ts_dispatchers s ! i) of Write_Waiter e \<Rightarrow> [e] | _ \<Rightarrow> [])"

lemma dispatcher_step_waiter:
  "dispatcher_step p i s = Some t \<Longrightarrow> deliver (writing i s) (ts_waiter s) = Ret (ts_waiter t)"
  by (auto simp: dispatcher_step_def writing_def Let_def
      split: dispatcher_pc.splits if_splits list.splits run.splits)

lemma dispatcher_step_carried:
  assumes "dispatcher_step p i s = Some t" and "d_node (ts_dispatchers s ! i) = n"
  shows "length (carried (ts_dispatchers t ! i)) + count_list (ts_lists t n) p + length (writing i s) \<le>
      length (carried (ts_dispatchers s ! i)) + count_list (ts_lists s n) p"
    and "set (carried (ts_dispatchers t ! i) @ d_events (ts_dispatchers t ! i)) \<subseteq>
      set (carried (ts_dispatchers s ! i) @ d_events (ts_dispatchers s ! i))"
    and "ts_dispatchers t = (ts_dispatchers s)[i := ts_dispatchers t ! i]" "i < length (ts_dispatchers s)"
  using assms count_list_0_iff [of "ts_lists s n" p]
  by (auto simp: dispatcher_step_def writing_def carried_def count_list_remove1 Let_def
      split: dispatcher_pc.splits if_splits list.splits run.splits)

lemma budget_dispatcher:
  assumes "dispatcher_step p i s = Some t" and "on_node n s"
  shows "budget n p t + length (writing i s) \<le> budget n p s"
proof -
  have i: "i < length (ts_dispatchers s)"
    using assms(1) by (simp add: dispatcher_step_def split: if_splits)
  then have n: "d_node (ts_dispatchers s ! i) = n" using assms(2) by (simp add: on_node_def list_all_length)
  note step = dispatcher_step_carried [OF assms(1) n]
  have "sum_list (map (length \<circ> carried) (ts_dispatchers t)) + length (carried (ts_dispatchers s ! i)) =
      sum_list (map (length \<circ> carried) (ts_dispatchers s)) + length (carried (ts_dispatchers t ! i))"
    using sum_list_replace [OF i, of "length \<circ> carried" "ts_dispatchers t ! i"] step(3) by simp
  with step(1) show ?thesis by (simp add: budget_def)
qed

lemma budget_caller:
  assumes "caller_step n p b s = Some t"
  shows "budget n p t \<le> budget n p s" "ts_waiter t = ts_waiter s"
  using assms
  by (auto simp: caller_step_def budget_def count_list_remove1 split: caller_pc.splits if_splits)

subsection \<open>The schedule of a run\<close>

text \<open>The loop has run through the wake-ups \<open>xs\<close>, none of which found a response code before.\<close>

primrec woken :: "responded list list \<Rightarrow> waiter \<Rightarrow> waiter \<Rightarrow> bool" where
  "woken [] w v \<longleftrightarrow> v = w"
| "woken (x # xs) w v \<longleftrightarrow> w_rcode w = G_MAXUINT \<and> (\<exists>u. deliver x w = Ret u \<and> woken xs u v)"

lemma wait_woken: "woken xs w v \<Longrightarrow> wait_response (xs @ ys) timeout w = wait_response ys timeout v"
  by (induction xs arbitrary: w) auto

lemma woken_snoc:
  "woken xs w v \<Longrightarrow> w_rcode v = G_MAXUINT \<Longrightarrow> deliver x v = Ret u \<Longrightarrow> woken (xs @ [x]) w u"
  by (induction xs arbitrary: w) auto

text \<open>What was written before the caller had the mutex, at each wake-up, since then, and after the loop; \<open>v\<close> is
  the waiter after the wake-ups and \<open>w\<close> the waiter now.\<close>

definition phase_ok :: "caller_pc \<Rightarrow> waiter \<Rightarrow> responded list list \<Rightarrow> responded list \<Rightarrow> responded list \<Rightarrow> waiter \<Rightarrow> bool"
  where
  "phase_ok pc v wakes since late w \<longleftrightarrow>
     (case pc of
        Lock_Waiter \<Rightarrow> wakes = [] \<and> since = [] \<and> late = [] \<and> w = v
      | Check_Rcode \<Rightarrow> since = [] \<and> late = [] \<and> w = v
      | Cond_Wait \<Rightarrow> late = [] \<and> w_rcode v = G_MAXUINT \<and> deliver since v = Ret w
      | _ \<Rightarrow> bind_run (wait_response [] since v) (deliver late) = Ret w)"

definition explains ::
    "waiter \<Rightarrow> wait_state \<Rightarrow> responded list \<Rightarrow> responded list list \<Rightarrow> responded list \<Rightarrow> responded list \<Rightarrow> bool" where
  "explains w0 s before wakes since late \<longleftrightarrow>
     (\<exists>u v. deliver before w0 = Ret u \<and> woken wakes u v \<and> phase_ok (ts_pc s) v wakes since late (ts_waiter s))"

lemma phase_ok_caller:
  assumes "phase_ok (ts_pc s) v wakes since late (ts_waiter s)" and "caller_step n p b s = Some t"
    and "\<not> (ts_pc s = Cond_Wait \<and> b)"
  shows "phase_ok (ts_pc t) v wakes since late (ts_waiter t)"
proof (cases "ts_pc s")
qed (use assms in \<open>auto simp: phase_ok_def caller_step_def split: if_splits\<close>)

lemma explains_caller:
  assumes "explains w0 s before wakes since late" and "caller_step n p b s = Some t"
  shows "\<exists>wakes' since'. explains w0 t before wakes' since' late \<and> concat wakes' @ since' = concat wakes @ since"
proof -
  obtain u v where v: "deliver before w0 = Ret u" "woken wakes u v"
    and pc: "phase_ok (ts_pc s) v wakes since late (ts_waiter s)"
    using assms(1) by (auto simp: explains_def)
  show ?thesis
  proof (cases "ts_pc s = Cond_Wait \<and> b")
    case True
    then have "ts_pc t = Check_Rcode" "ts_waiter t = ts_waiter s" "late = []"
      "w_rcode v = G_MAXUINT" "deliver since v = Ret (ts_waiter s)"
      using pc assms(2) by (auto simp: phase_ok_def caller_step_def split: if_splits)
    with v woken_snoc [OF v(2)] have "explains w0 t before (wakes @ [since]) [] late"
      by (simp add: explains_def phase_ok_def)
    then show ?thesis by (intro exI [of _ "wakes @ [since]"] exI [of _ "[]"]) simp
  next
    case False
    from v phase_ok_caller [OF pc assms(2) False] have "explains w0 t before wakes since late"
      by (auto simp: explains_def)
    then show ?thesis by blast
  qed
qed

text \<open>A handler writes: to what was written before, since the last wake-up, or after the loop.\<close>

lemma explains_write:
  assumes "explains w0 s before wakes since late" and "deliver ws (ts_waiter s) = Ret (ts_waiter t)"
    and "ts_pc t = ts_pc s"
    and "ws \<noteq> [] \<Longrightarrow> ts_pc s \<notin> {Check_Rcode, Disconnect, Clear_Cond, Unlock_Waiter}"
  shows "\<exists>before' since' late'. explains w0 t before' wakes since' late' \<and>
    mset (before' @ since' @ late') = mset (before @ since @ late) + mset ws"
proof -
  obtain u v where v: "deliver before w0 = Ret u" "woken wakes u v"
    and pc: "phase_ok (ts_pc s) v wakes since late (ts_waiter s)"
    using assms(1) by (auto simp: explains_def)
  consider (silent) "ws = []" | (locking) "ts_pc s = Lock_Waiter" | (waiting) "ts_pc s = Cond_Wait"
    | (leaving) "ts_pc s \<in> {Lock_Node, Forget, Read_Result, Returned}"
    using assms(4) by (cases "ts_pc s") auto
  then show ?thesis
  proof cases
    case silent
    then have "ts_waiter t = ts_waiter s" using assms(2) by simp
    with silent assms(1,3) have "explains w0 t before wakes since late" by (simp add: explains_def)
    moreover have "mset (before @ since @ late) = mset (before @ since @ late) + mset ws" by (simp add: silent)
    ultimately show ?thesis by blast
  next
    case locking
    then have "deliver (before @ ws) w0 = Ret (ts_waiter t)" "wakes = []" "since = []" "late = []"
      using v pc assms(2) by (auto simp: phase_ok_def deliver_append)
    with locking assms(3) have "explains w0 t (before @ ws) wakes since late"
      by (simp add: explains_def phase_ok_def)
    then show ?thesis by (intro exI [of _ "before @ ws"] exI [of _ since] exI [of _ late]) simp
  next
    case waiting
    then have "phase_ok (ts_pc t) v wakes (since @ ws) late (ts_waiter t)"
      using pc assms(2,3) by (simp add: phase_ok_def deliver_append)
    with v have "explains w0 t before wakes (since @ ws) late" by (auto simp: explains_def)
    then show ?thesis by (intro exI [of _ before] exI [of _ "since @ ws"] exI [of _ late]) simp
  next
    case leaving
    then have "bind_run (wait_response [] since v) (deliver late) = Ret (ts_waiter s)"
      using pc by (auto simp: phase_ok_def)
    then have "bind_run (wait_response [] since v) (deliver (late @ ws)) = Ret (ts_waiter t)"
      using assms(2) by (cases "wait_response [] since v") (simp_all add: deliver_append)
    with leaving assms(3) have "phase_ok (ts_pc t) v wakes since (late @ ws) (ts_waiter t)"
      by (auto simp: phase_ok_def)
    with v have "explains w0 t before wakes since (late @ ws)" by (auto simp: explains_def)
    then show ?thesis by (intro exI [of _ before] exI [of _ since] exI [of _ "late @ ws"]) simp
  qed
qed

text \<open>Whatever has been written is among the responses \<open>E\<close> that were read, at most \<open>k\<close> times in all.\<close>

definition explained :: "obj_id \<Rightarrow> obj_id \<Rightarrow> waiter \<Rightarrow> responded set \<Rightarrow> nat \<Rightarrow> wait_state \<Rightarrow> bool" where
  "explained n p w0 E k s \<longleftrightarrow> owners_ok n s \<and> on_node n s \<and>
     list_all (\<lambda>d. set (carried d @ d_events d) \<subseteq> E) (ts_dispatchers s) \<and>
     (\<exists>before wakes since late. explains w0 s before wakes since late \<and>
        set (before @ concat wakes @ since @ late) \<subseteq> E \<and>
        length (before @ concat wakes @ since @ late) + budget n p s \<le> k)"

lemma explained_caller:
  assumes "explained n p w0 E k s" and "caller_step n p b s = Some t"
  shows "explained n p w0 E k t"
proof -
  have step: "thread_step n p (Caller_Step b) s = Some t" using assms(2) by (simp add: thread_step_def)
  obtain before wakes since late where e: "explains w0 s before wakes since late"
      "set (before @ concat wakes @ since @ late) \<subseteq> E"
      "length (before @ concat wakes @ since @ late) + budget n p s \<le> k"
    using assms(1) by (auto simp: explained_def)
  obtain wakes' since' where e': "explains w0 t before wakes' since' late"
      "concat wakes' @ since' = concat wakes @ since"
    using explains_caller [OF e(1) assms(2)] by blast
  have same: "before @ concat wakes' @ since' @ late = before @ concat wakes @ since @ late"
    using e'(2) by (metis append.assoc)
  have "owners_ok n t" "on_node n t"
    using assms(1) owners.kept [OF _ step] on_node_step [OF _ step] by (auto simp: explained_def)
  moreover have "ts_dispatchers t = ts_dispatchers s"
    using assms caller_step_frame(2) by (auto simp: explained_def owners_ok_def)
  moreover have "set (before @ concat wakes' @ since' @ late) \<subseteq> E"
    "length (before @ concat wakes' @ since' @ late) + budget n p t \<le> k"
    using e(2,3) budget_caller(1) [OF assms(2)] unfolding same by linarith+
  ultimately show ?thesis using assms(1) e'(1) unfolding explained_def by metis
qed

lemma explained_dispatcher:
  assumes "explained n p w0 E k s" and "dispatcher_step p i s = Some t"
  shows "explained n p w0 E k t"
proof -
  have step: "thread_step n p (Dispatcher_Step i) s = Some t" using assms(2) by (simp add: thread_step_def)
  obtain before wakes since late where e: "explains w0 s before wakes since late"
      "set (before @ concat wakes @ since @ late) \<subseteq> E"
      "length (before @ concat wakes @ since @ late) + budget n p s \<le> k"
    using assms(1) by (auto simp: explained_def)
  have ok: "owners_ok n s" "on_node n s" using assms(1) by (auto simp: explained_def)
  have i: "i < length (ts_dispatchers s)"
    using assms(2) by (simp add: dispatcher_step_def split: if_splits)
  then have own: "dispatcher_owns s i" and node: "d_node (ts_dispatchers s ! i) = n"
    using ok by (simp_all add: owners_ok_def on_node_def list_all_length)
  have "ts_pc s \<notin> {Check_Rcode, Disconnect, Clear_Cond, Unlock_Waiter}" if "writing i s \<noteq> []"
    using that own ok(1) by (auto simp: writing_def dispatcher_owns_def holds_waiter_def owners_ok_def
        caller_owns_def split: dispatcher_pc.splits)
  from explains_write [OF e(1) dispatcher_step_waiter [OF assms(2)] dispatcher_step_frame(4) [OF assms(2) own] this]
  obtain before' since' late' where e': "explains w0 t before' wakes since' late'"
      "mset (before' @ since' @ late') = mset (before @ since @ late) + mset (writing i s)"
    by blast
  have from_E: "set (carried (ts_dispatchers s ! i) @ d_events (ts_dispatchers s ! i)) \<subseteq> E"
    using assms(1) i by (simp add: explained_def list_all_length)
  have "set (writing i s) \<subseteq> set (carried (ts_dispatchers s ! i))"
    by (simp add: writing_def carried_def split: dispatcher_pc.splits)
  with from_E e(2) have "set (before @ since @ late @ writing i s) \<subseteq> E" by auto
  then have "set (before' @ since' @ late') \<subseteq> E"
    using mset_eq_setD [of "before' @ since' @ late'" "before @ since @ late @ writing i s"] e'(2) by simp
  with e(2) have "set (before' @ concat wakes @ since' @ late') \<subseteq> E" by simp
  moreover have "length (before' @ concat wakes @ since' @ late') + budget n p t \<le> k"
    using mset_eq_length [of "before' @ since' @ late'" "before @ since @ late @ writing i s"] e'(2) e(3)
      budget_dispatcher [OF assms(2) ok(2)] by simp
  moreover have "list_all (\<lambda>d. set (carried d @ d_events d) \<subseteq> E) (ts_dispatchers t)"
    using assms(1) dispatcher_step_carried(2-4) [OF assms(2) node] from_E
    unfolding explained_def list_all_length by (metis length_list_update nth_list_update_neq subset_trans)
  ultimately show ?thesis
    using e'(1) ok owners.kept [OF _ step] on_node_step [OF _ step] unfolding explained_def by blast
qed

interpretation explanation: kept_by_steps "thread_step n p" "explained n p w0 E k" for n p w0 E k
  by unfold_locales (auto simp: thread_step_def split: wait_action.splits
      intro: explained_caller explained_dispatcher)

subsection \<open>The result of a run\<close>

definition responses :: "(obj_id \<times> responded list) list \<Rightarrow> responded set" where
  "responses sources = set (concat (map snd sources))"

lemma explained_sent:
  assumes "list_all (\<lambda>(m, es). m = n) sources"
  shows "explained n p w (responses sources) (count_list (outstanding n) p) (sent_state w outstanding sources)"
proof -
  let ?s = "sent_state w outstanding sources"
  have "explains w ?s [] [] [] []" by (simp add: explains_def phase_ok_def sent_state_def)
  moreover have "sum_list (map (length \<circ> carried) (ts_dispatchers ?s)) = 0"
    by (auto simp: sent_state_def carried_def split_def)
  then have "budget n p ?s = count_list (outstanding n) p" by (simp add: budget_def sent_state_def)
  moreover have "list_all (\<lambda>d. set (carried d @ d_events d) \<subseteq> responses sources) (ts_dispatchers ?s)"
    by (force simp: list_all_iff carried_def sent_state_def responses_def)
  ultimately show ?thesis
    using assms by (auto simp: explained_def owners_ok_sent on_node_sent intro!: exI [of _ "[]"])
qed

text \<open>Any number of registrations: the waiter at the end is the one the loop leaves, with what handlers write
  after the loop on top.\<close>

lemma waiter_of_run:
  assumes "list_all (\<lambda>(m, es). m = n) sources"
    and "run_steps (thread_step n p) as (sent_state w outstanding sources) = Some s"
    and "ts_pc s \<in> {Read_Result, Returned}"
  obtains before wakes since late where
    "bind_run (bind_run (deliver before w) (wait_response wakes since)) (deliver late) = Ret (ts_waiter s)"
    "set (before @ concat wakes @ since @ late) \<subseteq> responses sources"
    "length (before @ concat wakes @ since @ late) \<le> count_list (outstanding n) p"
proof -
  from explanation.kept_by_run [OF explained_sent [OF assms(1)] assms(2)]
  obtain before wakes since late where e: "explains w s before wakes since late"
      "set (before @ concat wakes @ since @ late) \<subseteq> responses sources"
      "length (before @ concat wakes @ since @ late) + budget n p s \<le> count_list (outstanding n) p"
    by (auto simp: explained_def)
  obtain u v where v: "deliver before w = Ret u" "woken wakes u v"
    and pc: "bind_run (wait_response [] since v) (deliver late) = Ret (ts_waiter s)"
    using e(1) assms(3) by (auto simp: explains_def phase_ok_def)
  have "bind_run (bind_run (deliver before w) (wait_response wakes since)) (deliver late) = Ret (ts_waiter s)"
    using v(1) pc wait_woken [OF v(2), of "[]" since] by simp
  then show ?thesis using e(2,3) by (intro that [of before wakes since late]) simp_all
qed

text \<open>One registration: there is nothing on top.\<close>

lemma schedule_of_run:
  assumes "list_all (\<lambda>(m, es). m = n) sources" and "count_list (outstanding n) p = 1"
    and "run_steps (thread_step n p) as (sent_state w outstanding sources) = Some s"
    and "ts_pc s \<in> {Read_Result, Returned}" and "w_rcode w = G_MAXUINT"
  obtains before wakes timeout where
    "bind_run (deliver before w) (wait_response wakes timeout) = Ret (ts_waiter s)"
    "set (before @ concat wakes @ timeout) \<subseteq> responses sources" "length (before @ concat wakes @ timeout) \<le> 1"
proof -
  obtain before wakes since late where e:
    "bind_run (bind_run (deliver before w) (wait_response wakes since)) (deliver late) = Ret (ts_waiter s)"
    "set (before @ concat wakes @ since @ late) \<subseteq> responses sources"
    "length (before @ concat wakes @ since @ late) \<le> count_list (outstanding n) p"
    using waiter_of_run [OF assms(1,3,4)] by blast
  show ?thesis
  proof (cases late)
    case Nil
    have "bind_run (deliver before w) (wait_response wakes since) = Ret (ts_waiter s)"
      using e(1) Nil by (cases "bind_run (deliver before w) (wait_response wakes since)") simp_all
    with Nil e(2,3) assms(2) show ?thesis by (intro that [of before wakes since]) simp_all
  next
    case (Cons x xs)
    then have empty: "before = []" "concat wakes @ since = []" "xs = []" using e(3) assms(2) by auto
    then have "deliver late w = Ret (ts_waiter s)"
      using e(1) wait_response_silent [of wakes since w] by simp
    with Cons empty e(2) assms(5) show ?thesis by (intro that [of "[]" "[]" late]) simp_all
  qed
qed

text \<open>The list of the node at the end.\<close>

definition list_kept :: "obj_id \<Rightarrow> obj_id \<Rightarrow> obj_id list \<Rightarrow> wait_state \<Rightarrow> bool" where
  "list_kept n p ps s \<longleftrightarrow> ts_lists s n \<in> {ps, remove1 p ps} \<and>
     (ts_pc s \<in> {Read_Result, Returned} \<longrightarrow> ts_lists s n = remove1 p ps)"

lemma remove1_twice: "count_list ps p \<le> 1 \<Longrightarrow> remove1 p (remove1 p ps) = remove1 p ps"
proof -
  assume "count_list ps p \<le> 1"
  then have "p \<notin> set (remove1 p ps)" by (simp flip: count_list_0_iff add: count_list_remove1)
  then show ?thesis by (simp add: remove1_idem)
qed

interpretation lists: kept_by_steps "thread_step n p" "\<lambda>s. list_kept n p ps s \<and> count_list ps p \<le> 1" for n p ps
proof
  fix s a t assume s: "list_kept n p ps s \<and> count_list ps p \<le> 1" "thread_step n p a s = Some t"
  then have "remove1 p (remove1 p ps) = remove1 p ps" by (simp add: remove1_twice)
  with s show "list_kept n p ps t \<and> count_list ps p \<le> 1"
    by (cases a) (auto simp: list_kept_def thread_step_def caller_step_def dispatcher_step_def Let_def
        split: caller_pc.splits dispatcher_pc.splits if_splits list.splits run.splits)
qed

text \<open>C6. The schedules against which \<open>Fw_Req\<close> runs a blocking transaction are all there is, as long as the
  request is outstanding once: take any run of the caller and of any number of threads that dispatch
  responses on its node, step by step, with wake-ups for no reason and with handlers that run after the
  deadline but before the request is invalidated. If the caller returns, then it returns exactly what the
  transaction returns for some schedule with at most one response, which is one of those dispatched,
  and the list of the node is the one in its result.\<close>

theorem interleavings_are_schedules:
  assumes request: "hinawa_fw_req_request c K self (Some n) tcode addr len (Some fr) (Some fsize) err =
      Ret (True, Some n', err', io)"
    and once: "count_list (transactions n') self = 1" and node: "list_all (\<lambda>(m, es). m = a) sources"
    and run: "run_steps (thread_step a self) as
      (sent_state (new_waiter fr fsize) (outstanding(a := transactions n')) sources) = Some s"
    and "ts_pc s = Returned"
  shows "\<exists>sch r. set (deliveries sch) \<subseteq> responses sources \<and> length (deliveries sch) \<le> 1 \<and>
    hinawa_fw_req_transaction_with_tstamp c K sch self (Some n) tcode addr len (Some fr) (Some fsize)
      True err = Ret (Some r) \<and>
    r = conclude_transaction c self fsize (Some n') err' io (ts_waiter s) \<and>
    tx_node r = Some (n'\<lparr>transactions := ts_lists s a\<rparr>)"
proof -
  let ?s = "sent_state (new_waiter fr fsize) (outstanding(a := transactions n')) sources"
  obtain before wakes timeout where sch:
    "bind_run (deliver before (new_waiter fr fsize)) (wait_response wakes timeout) = Ret (ts_waiter s)"
    "set (before @ concat wakes @ timeout) \<subseteq> responses sources" "length (before @ concat wakes @ timeout) \<le> 1"
    using schedule_of_run [OF node _ run] assms(5) once by auto
  let ?sch = "\<lparr>sch_before = before, sch_wakes = wakes, sch_timeout = timeout, sch_node = (\<lambda>n. n)\<rparr>"
  let ?r = "conclude_transaction c self fsize (Some n') err' io (ts_waiter s)"
  have "hinawa_fw_req_transaction_with_tstamp c K ?sch self (Some n) tcode addr len (Some fr) (Some fsize)
      True err = Ret (Some ?r)"
    using transaction_eq [OF request, of ?sch] sch(1) by simp
  moreover have "list_kept a self (transactions n') ?s" by (simp add: list_kept_def sent_state_def)
  then have "ts_lists s a = remove1 self (transactions n')"
    using lists.kept_by_run [of a self "transactions n'" ?s as s] run once assms(5) by (simp add: list_kept_def)
  then have "tx_node ?r = Some (n'\<lparr>transactions := ts_lists s a\<rparr>)"
    by (simp add: conclude_transaction_def Let_def hinawa_fw_node_invalidate_transaction_def remove1_idem
        split: option.split)
  ultimately show ?thesis
    using sch(2,3) by (intro exI [of _ ?sch] exI [of _ ?r]) (simp add: deliveries_def)
qed

text \<open>Conversely every schedule with at most one response is the one of a run.\<close>

lemma schedule_has_run:
  assumes "p \<in> set (outstanding n)" and "w_rcode w = G_MAXUINT" and "length ds \<le> 1"
    and "deliver ds w = Ret v"
  shows "\<exists>as s. run_steps (thread_step n p) as (sent_state w outstanding [(n, ds)]) = Some s \<and>
    ts_pc s = Returned \<and> ts_waiter s = v"
proof (cases ds)
  case Nil
  have "\<exists>s. run_steps (thread_step n p) timed_out (sent_state w outstanding [(n, ds)]) = Some s \<and>
      ts_pc s = Returned \<and> ts_waiter s = v"
    using assms Nil by (simp add: timed_out_def step_defs)
  then show ?thesis by blast
next
  case (Cons e es)
  then have e: "ds = [e]" "handle_responded_signal e w = Ret v"
    using assms(3,4) by (auto simp: run_simps)
  let ?as = "replicate 7 (Dispatcher_Step 0) @
    (if w_rcode v = G_MAXUINT then timed_out else map Caller_Step [True, True, True, True, True, True, True, True])"
  have "\<exists>s. run_steps (thread_step n p) ?as (sent_state w outstanding [(n, ds)]) = Some s \<and>
      ts_pc s = Returned \<and> ts_waiter s = v"
    using assms(1,2) e by (simp add: timed_out_def step_defs numeral_eq_Suc)
  then show ?thesis by blast
qed

theorem interleavings_are_schedules_witness:
  "\<exists>sch r. hinawa_fw_req_transaction_with_tstamp numbered_constants granting_kernel sch 7 (Some sample_node)
      HINAWA_FW_TCODE_READ_QUADLET_REQUEST 0xfffff0000400 4 (Some [0, 0, 0, 0]) (Some 4) True (Err None) =
      Ret (Some r) \<and> set (deliveries sch) \<subseteq> {sample_response 0 [1, 2]} \<and> tx_ok r \<and> tx_frame r = [1, 2, 0, 0]"
proof -
  let ?n = "register_transaction 7 sample_node"
  have n: "transactions ?n = [7]" by (simp add: register_transaction_def sample_node_def hinawa_fw_node_init_def)
  have l: "request_length HINAWA_FW_TCODE_READ_QUADLET_REQUEST 0xfffff0000400 4 (Some [0, 0, 0, 0]) (Some 4)
      (Err None) = Some 4"
    by (simp add: request_length_def aligned_tcodes_def read_write_tcodes_def)
  obtain io where req: "hinawa_fw_req_request numbered_constants granting_kernel 7 (Some sample_node)
      HINAWA_FW_TCODE_READ_QUADLET_REQUEST 0xfffff0000400 4 (Some [0, 0, 0, 0]) (Some 4) (Err None) =
      Ret (True, Some ?n, Err None, io)"
    using request_issued [OF errno_ok_granting _ l, of sample_node numbered_constants 7]
    by (simp add: sample_node_def granting_kernel_def)
  obtain s where s: "run_steps (thread_step 2 7) late_response
      (sent_state (new_waiter [0, 0, 0, 0] 4) ((\<lambda>_. [])(2 := [7])) [(2, [sample_response 0 [1, 2]])]) = Some s"
    "ts_pc s = Returned" "ts_waiter s = sample_written"
    by (rule late_response_run [OF _ _ sample_write, of 7 "(\<lambda>_. [])(2 := [7])" 2]) simp_all
  have "rcode_error numbered_constants 0 = None" by (simp add: rcode_error_def numbered_constants_def)
  then have "tx_ok (conclude_transaction numbered_constants 7 4 (Some ?n) (Err None) io sample_written)"
    "tx_frame (conclude_transaction numbered_constants 7 4 (Some ?n) (Err None) io sample_written) = [1, 2, 0, 0]"
    by (simp_all add: conclude_transaction_def sample_written_def Let_def)
  moreover have "responses [(2, [sample_response 0 [1, 2]])] = {sample_response 0 [1, 2]}"
    by (simp add: responses_def)
  ultimately show ?thesis
    using interleavings_are_schedules [OF req, where a = 2 and outstanding = "\<lambda>_. []" and as = late_response and
        s = s and sources = "[(2, [sample_response 0 [1, 2]])]"] s n
    by auto
qed

section \<open>What the mutex of the node does not protect\<close>

text \<open>A handler that has been entered when the deadline passes waits for the mutex of the waiter. The caller
  disconnects it, clears the condition and gives the mutex back: the handler then writes to the waiter, which
  is still there, and signals the condition, which has been cleared.\<close>

lemma condition_signalled_after_clear:
  assumes "p \<in> set (outstanding n)" and "w_rcode w = G_MAXUINT" and "handle_responded_signal e w = Ret v"
  shows "\<exists>as s. run_steps (thread_step n p) as (sent_state w outstanding [(n, [e])]) = Some s \<and>
    ts_cleared s \<and> d_pc (ts_dispatchers s ! 0) = Signal_Cond"
proof -
  let ?as = "map Caller_Step [True, True] @ replicate 2 (Dispatcher_Step 0) @
    map Caller_Step [False, True, True, True] @ replicate 2 (Dispatcher_Step 0)"
  have "\<exists>s. run_steps (thread_step n p) ?as (sent_state w outstanding [(n, [e])]) = Some s \<and>
    ts_cleared s \<and> d_pc (ts_dispatchers s ! 0) = Signal_Cond"
    using assms by (simp add: step_defs numeral_eq_Suc)
  then show ?thesis by blast
qed

text \<open>C18. A request that is used for transactions on two nodes at the same time: the handler of each transaction
  hears the responses of both. When the response from the other node is dispatched while the deadline of
  this transaction passes, the caller takes the mutex of its own node, which the other dispatcher does
  not hold, and returns; the handler then writes through a pointer to a local variable that is gone.\<close>

theorem foreign_response_outlives_waiter:
  assumes "m \<noteq> n" and "p \<in> set (outstanding m)" and "w_rcode w = G_MAXUINT"
    and "handle_responded_signal e w = Ret v"
  shows "\<exists>as s t. run_steps (thread_step n p) as (sent_state w outstanding [(m, [e])]) = Some s \<and>
    ts_pc s = Returned \<and> d_pc (ts_dispatchers s ! 0) = Write_Waiter e \<and>
    dispatcher_step p 0 s = Some t \<and> ts_waiter t = v"
proof -
  let ?as = "replicate 2 (Dispatcher_Step 0) @ timed_out @ [Dispatcher_Step 0]"
  have "\<exists>s t. run_steps (thread_step n p) ?as (sent_state w outstanding [(m, [e])]) = Some s \<and>
    ts_pc s = Returned \<and> d_pc (ts_dispatchers s ! 0) = Write_Waiter e \<and>
    dispatcher_step p 0 s = Some t \<and> ts_waiter t = v"
    using assms by (simp add: step_defs timed_out_def numeral_eq_Suc)
  then show ?thesis by blast
qed

theorem foreign_response_outlives_waiter_witness:
  "\<exists>as s t. run_steps (thread_step 2 7) as
      (sent_state (new_waiter [0, 0, 0, 0] 4) ((\<lambda>_. [])(3 := [7])) [(3, [sample_response 0 [1, 2]])]) = Some s \<and>
    ts_pc s = Returned \<and> dispatcher_step 7 0 s = Some t \<and> ts_waiter t = sample_written"
  using foreign_response_outlives_waiter [OF _ _ _ sample_write, of 3 2 7 "(\<lambda>_. [])(3 := [7])"] by auto

end
