(* ===== verification/Fcp_Concurrent.thy ===== *)
theory Fcp_Concurrent
  imports Fw_System
begin

text \<open>
  Several AV/C transactions on one FCP object at the same time (\<open>src/fw_fcp.c\<close>).

  Every transaction connects \<open>handle_responded_signal\<close> to the signal \<open>responded\<close> of the object, and each
  run of that handler goes through the waiters of all transactions. So with \<open>k\<close> transactions a response
  frame is offered to every waiter \<open>k\<close> times. For a response that fits, this makes no difference: a
  transaction returns its own response, whatever other transactions start, end or are answered
  meanwhile. For a response that is larger than the buffer of its waiter it makes all the difference.
\<close>

section \<open>Visiting all waiters\<close>

lemma each_waiter_Ret:
  assumes "distinct as" and "\<forall>a\<in>set as. \<exists>w w'. ws a = Some w \<and> f w = Ret w'"
  shows "\<exists>ws'. each_waiter f as ws = Ret ws' \<and> (\<forall>a. a \<notin> set as \<longrightarrow> ws' a = ws a) \<and>
    (\<forall>a\<in>set as. \<forall>w w'. ws a = Some w \<longrightarrow> f w = Ret w' \<longrightarrow> ws' a = Some w')"
  using assms
proof (induction as arbitrary: ws)
  case (Cons a as)
  obtain w w' where w: "ws a = Some w" "f w = Ret w'" using Cons.prems(2) by auto
  have "\<forall>b\<in>set as. \<exists>v v'. (ws(a \<mapsto> w')) b = Some v \<and> f v = Ret v'"
    using Cons.prems by auto
  with Cons.IH [of "ws(a \<mapsto> w')"] Cons.prems(1) obtain ws' where
    "each_waiter f as (ws(a \<mapsto> w')) = Ret ws'" "\<forall>b. b \<notin> set as \<longrightarrow> ws' b = (ws(a \<mapsto> w')) b"
    "\<forall>b\<in>set as. \<forall>v v'. (ws(a \<mapsto> w')) b = Some v \<longrightarrow> f v = Ret v' \<longrightarrow> ws' b = Some v'"
    by (auto simp del: fun_upd_apply)
  with w Cons.prems(1) show ?case by (intro exI [of _ ws']) (auto, metis)
qed simp

lemma each_waiter_Fault:
  assumes "distinct as" and "b \<in> set as" and "ws b = Some v" and "f v = Fault e"
    and "\<forall>a\<in>set as. a \<noteq> b \<longrightarrow> (\<exists>w w'. ws a = Some w \<and> f w = Ret w')"
  shows "each_waiter f as ws = Fault e"
  using assms
proof (induction as arbitrary: ws)
  case (Cons a as)
  show ?case
  proof (cases "a = b")
    case False
    obtain w w' where w: "ws a = Some w" "f w = Ret w'" using Cons.prems(5) False by auto
    have "each_waiter f as (ws(a \<mapsto> w')) = Fault e"
      using Cons.prems False by (intro Cons.IH) auto
    with w show ?thesis by simp
  qed (use Cons.prems in simp)
qed simp

section \<open>A transaction among others\<close>

text \<open>The waiter \<open>w\<close> at the address \<open>wa\<close> is in the list, beside those of the transactions at \<open>live\<close>, whose
  buffers hold any frame of FCP; there is one connection of the handler for each.\<close>

definition crowd :: "obj_id \<Rightarrow> fcp_waiter \<Rightarrow> obj_id list \<Rightarrow> HinawaFwFcp \<Rightarrow> bool" where
  "crowd wa w live f \<longleftrightarrow> distinct (fcp_transactions f) \<and> distinct live \<and> wa \<notin> set live \<and>
     set (fcp_transactions f) = insert wa (set live) \<and> stack f wa = Some w \<and>
     waiters_roomy live (stack f) \<and> responded_handlers f = length live + 1"

text \<open>A response frame within the range of FCP responses.\<close>

definition frame_ok :: "fcp_responded \<Rightarrow> bool" where
  "frame_ok s \<longleftrightarrow> 3 \<le> length (fr_frame s) \<and> unat (fr_frame_size s) \<le> length (fr_frame s) \<and>
     unat (fr_frame_size s) \<le> 0x200"

lemma crowd_others:
  assumes "crowd wa w live f" and "frame_ok s" and "a \<in> set (fcp_transactions f)" and "a \<noteq> wa"
  shows "\<exists>v v'. stack f a = Some v \<and> respond_waiter s v = Ret v' \<and> waiter_roomy v'"
proof -
  have "a \<in> set live" using assms(1,3,4) by (auto simp: crowd_def)
  then obtain v where "stack f a = Some v" "waiter_roomy v"
    using assms(1) by (auto simp: crowd_def waiters_roomy_def list_all_iff split: option.splits)
  with respond_waiter_roomy [of v s] assms(2) show ?thesis by (auto simp: frame_ok_def)
qed

text \<open>One run of the handler.\<close>

lemma crowd_handler:
  assumes "crowd wa w live f" and "frame_ok s" and "respond_waiter s w = Ret w'"
  shows "\<exists>f'. Fw_Fcp.handle_responded_signal s f = Ret f' \<and> crowd wa w' live f' \<and>
    (\<exists>ws. f' = f\<lparr>stack := ws\<rparr>)"
proof -
  have own: "stack f wa = Some w" "wa \<in> set (fcp_transactions f)" "distinct (fcp_transactions f)"
    "set live \<subseteq> set (fcp_transactions f)" "wa \<notin> set live"
    using assms(1) by (auto simp: crowd_def)
  have "\<forall>a\<in>set (fcp_transactions f). \<exists>v v'. stack f a = Some v \<and> respond_waiter s v = Ret v'"
    using crowd_others [OF assms(1,2)] own(1) assms(3) by blast
  from each_waiter_Ret [OF own(3) this] obtain ws where
    ws: "each_waiter (respond_waiter s) (fcp_transactions f) (stack f) = Ret ws"
    "\<forall>a\<in>set (fcp_transactions f). \<forall>v v'. stack f a = Some v \<longrightarrow> respond_waiter s v = Ret v' \<longrightarrow> ws a = Some v'"
    by auto
  have "ws wa = Some w'" using ws(2) own(1,2) assms(3) by auto
  moreover have "waiters_roomy live ws"
    unfolding waiters_roomy_def list_all_iff
  proof
    fix a assume "a \<in> set live"
    with own(4,5) have a: "a \<in> set (fcp_transactions f)" "a \<noteq> wa" by auto
    with ws(2) crowd_others [OF assms(1,2) a] show "case ws a of None \<Rightarrow> False | Some w \<Rightarrow> waiter_roomy w"
      by (auto split: option.splits)
  qed
  ultimately show ?thesis
    using ws(1) assms(1) by (simp add: Fw_Fcp.handle_responded_signal_def crowd_def) auto
qed



text \<open>An emission is a run of each of its handlers.\<close>

lemma handled_times: "fcp_acts (replicate k (Handled s)) = emit_times k s"
  by (induction k; rule ext) simp_all

lemma emission_handled:
  "fcp_act (Responded s) f = fcp_acts (replicate (responded_handlers f) (Handled s)) f"
  by (simp add: handled_times emit_responded_def)

section \<open>What happens between two wake-ups\<close>





section \<open>The waiter follows the reference\<close>










section \<open>The wait\<close>




section \<open>Transactions at the same time\<close>

text \<open>An object with any number of running transactions, whose buffers hold any frame of FCP.\<close>

definition busy :: "HinawaFwFcp \<Rightarrow> bool" where
  "busy priv \<longleftrightarrow> waiters_ok priv \<and> responded_handlers priv = length (fcp_transactions priv)"

lemma crowd_link:
  "busy priv \<Longrightarrow> wa \<notin> set (fcp_transactions priv) \<Longrightarrow>
   crowd wa w (fcp_transactions priv) (link_waiter wa w priv)"
  by (auto simp: crowd_def busy_def waiters_ok_def link_waiter_def waiters_roomy_def list_all_iff)




text \<open>Closed instances: another transaction runs on the object, with a buffer of 512 bytes.\<close>

definition sample_busy_fcp :: HinawaFwFcp where
  "sample_busy_fcp = link_waiter 0x70 sample_roomy_waiter sample_fcp"

lemma sample_busy: "busy sample_busy_fcp" "fcp_transactions sample_busy_fcp = [0x70]"
  "fcp_node sample_busy_fcp = fcp_node sample_fcp"
  by (simp_all add: sample_busy_fcp_def busy_def waiters_ok_def waiters_roomy_def waiter_roomy_def
      link_waiter_def sample_roomy_waiter_def sample_fcp_def hinawa_fw_fcp_init_def)



text \<open>C28. A response that is larger than the buffer of its transaction, while another transaction runs on
  the object: the first run of the handler does not copy it but stores its size as the size of the
  buffer, and the second run, for the handler that the other transaction connected, copies it past the
  end of the buffer. A single frame is enough.\<close>

theorem concurrent_large_response_overflows:
  assumes "crowd wa w live f" and "live \<noteq> []" and "frame_ok s" and "3 \<le> length (fw_frame w)"
    and "fw_frame w ! 1 = fr_frame s ! 1" and "fw_frame w ! 2 = fr_frame s ! 2"
    and "fw_frame_size w < fr_frame_size s" and "length (fw_frame w) < unat (fr_frame_size s)"
  shows "emit_responded s f = Fault Out_Of_Bounds"
proof -
  let ?w = "\<lparr>fw_state = WAITER_STATE_RESPONDED, fw_generation = fr_generation s, fw_frame = fw_frame w,
    fw_frame_size = fr_frame_size s, fw_tstamp = fr_tstamp s\<rparr>"
  have match: "frames_match (fw_frame w) (fr_frame s) = Ret True"
    using assms(3-6) by (simp add: frames_match_ok frame_ok_def)
  moreover have "\<not> fr_frame_size s \<le> fw_frame_size w" using assms(7) by simp
  ultimately have "respond_waiter s w = Ret ?w" by (simp add: respond_waiter_def)
  then obtain f1 where f1: "Fw_Fcp.handle_responded_signal s f = Ret f1" "crowd wa ?w live f1"
    using crowd_handler [OF assms(1,3)] by blast
  have "respond_waiter s ?w = Fault Out_Of_Bounds"
    using match assms(8) by (simp add: respond_waiter_def memcpy_def)
  moreover have "\<forall>a\<in>set (fcp_transactions f1). a \<noteq> wa \<longrightarrow>
      (\<exists>v v'. stack f1 a = Some v \<and> respond_waiter s v = Ret v')"
    using crowd_others [OF f1(2) assms(3)] by blast
  ultimately have "each_waiter (respond_waiter s) (fcp_transactions f1) (stack f1) = Fault Out_Of_Bounds"
    using f1(2) by (intro each_waiter_Fault [where b = wa and v = ?w]) (simp_all add: crowd_def)
  then have "Fw_Fcp.handle_responded_signal s f1 = Fault Out_Of_Bounds"
    by (simp add: Fw_Fcp.handle_responded_signal_def)
  moreover obtain k where "responded_handlers f = Suc (Suc k)"
    using assms(1,2) by (cases live) (auto simp: crowd_def)
  ultimately show ?thesis using f1(1) by (simp add: emit_responded_def)
qed

theorem concurrent_large_response_overflows_witness:
  "emit_responded (avc_frame 0x0c (0xff # 0x19 # replicate 9 0))
     (link_waiter 0x7f \<lparr>fw_state = WAITER_STATE_PENDING, fw_generation = 0,
        fw_frame = 0xff # 0xff # 0x19 # replicate 5 0, fw_frame_size = 8, fw_tstamp = G_MAXUINT\<rparr>
        sample_busy_fcp) = Fault Out_Of_Bounds"
proof -
  let ?w = "\<lparr>fw_state = WAITER_STATE_PENDING, fw_generation = 0,
        fw_frame = 0xff # 0xff # 0x19 # replicate 5 0, fw_frame_size = 8, fw_tstamp = G_MAXUINT\<rparr>"
  have "crowd 0x7f ?w [0x70] (link_waiter 0x7f ?w sample_busy_fcp)"
    using crowd_link [OF sample_busy(1), of "0x7f" ?w] by (simp add: sample_busy)
  from concurrent_large_response_overflows [OF this, of "avc_frame 0x0c (0xff # 0x19 # replicate 9 0)"]
  show ?thesis by (simp add: frame_ok_def avc_frame_def)
qed

end
