(* ===== verification/Fcp_Window.thy ===== *)
theory Fcp_Window
  imports Fw_Source
begin

text \<open>
  Binding an FCP object while the dispatcher runs.

  \<open>hinawa_fw_fcp_bind\<close> of \<open>src/fw_fcp.c\<close> first reserves the range of FCP responses, and then, in separate
  steps, stores the card, resets the history and inserts the identity of the node, and stores the node.
  From the reservation on the kernel delivers requests in the range, and no mutex keeps the dispatcher away
  from the object until the last step. \<open>Fw_Fcp\<close> has the call as a whole; here it is its sequence of steps,
  with a dispatch in between.
\<close>

section \<open>The steps\<close>

definition bind_card :: "HinawaFwNode \<Rightarrow> HinawaFwFcp \<Rightarrow> HinawaFwFcp" where
  "bind_card n f = f\<lparr>fcp_card_id := card_id n\<rparr>"

definition bind_history :: "HinawaFwNode \<Rightarrow> HinawaFwFcp \<Rightarrow> HinawaFwFcp run" where
  "bind_history n f =
     bind_run (node_history_insert_record
         \<lparr>nr_generation = br_generation (generation n), nr_src_node_id = br_node_id (generation n)\<rparr>
         (node_history_reset (history f)))
       (\<lambda>h. Ret (f\<lparr>history := h\<rparr>))"

definition bind_node :: "obj_id option \<Rightarrow> HinawaFwFcp \<Rightarrow> HinawaFwFcp" where
  "bind_node node f = f\<lparr>fcp_node := node\<rparr>"

text \<open>Without anything in between, the steps are the call.\<close>

lemma bind_in_steps:
  assumes "fcp_node priv = None" and "node \<noteq> None" and "error_unset error"
  shows "hinawa_fw_fcp_bind K self priv ns node error =
    bind_run (hinawa_fw_resp_reserve K self (priv\<lparr>fcp_transactions := []\<rparr>) ns node FCP_RESPOND_ADDR
        FCP_MAXIMUM_FRAME_BYTES error)
      (\<lambda>(reserved, f, ns, error, io).
        if \<not> reserved then Ret (False, f, ns, error, io)
        else case node_at ns node of
            None \<Rightarrow> Fault Null_Deref
          | Some n \<Rightarrow> bind_run (bind_history n (bind_card n f)) (\<lambda>f.
              Ret (True, bind_node node f, ns, error, io)))"
proof -
  obtain a where "node = Some a" using assms(2) by blast
  with assms(1,3) show ?thesis
    unfolding hinawa_fw_fcp_bind_def
    by (simp, intro arg_cong2 [where f = bind_run] ext refl)
       (auto simp: bind_history_def bind_card_def bind_node_def bind_run_assoc split: option.split)
qed

section \<open>A response frame in between\<close>

text \<open>A history that was never reset has slots but no cursor.\<close>

lemma insert_before_reset:
  assumes "r \<noteq> zero_record"
  shows "node_history_insert_record r node_history_init = Fault Null_Deref"
    and "node_history_detect_record r node_history_init = Ret False"
proof -
  obtain found where "node_history_find_record node_history_init r = Ret found" "found = None"
    using find_record_from_eq [of "node_record_iterator_init node_history_init" r] assms
    by (auto simp: node_history_find_record_def node_record_iterator_init_def node_history_init_def)
  then show "node_history_insert_record r node_history_init = Fault Null_Deref"
    "node_history_detect_record r node_history_init = Ret False"
    by (simp_all add: node_history_insert_record_def node_history_detect_record_def)
      (simp add: node_history_init_def)
qed

lemma accept_before_reset:
  assumes "fcp_event c self sig" and "history self = node_history_init" and "fcp_node self = None"
    and "source_record sig \<noteq> zero_record" and "uninit \<noteq> zero_record"
    and "nr_generation uninit \<noteq> rd_generation sig"
  shows "accept_response c uninit sig self ns = Fault Null_Deref"
  using assms insert_before_reset [OF assms(4)] insert_before_reset [OF assms(5)]
  by (simp add: accept_response_def fcp_event_def source_record_def current_record_def node_at_def)

text \<open>What the reservation leaves of an FCP object.\<close>

lemma reserved_for_fcp:
  assumes K: "errno_ok K" "allocate_ok K" and n: "node_at ns node = Some n" "0 \<le> fd n"
    and ok: "resp_ok priv" "hinawa_fw_resp_reserve K self priv ns node FCP_RESPOND_ADDR
        FCP_MAXIMUM_FRAME_BYTES (Err None) = Ret (True, f, ns', p, io)"
  shows "ns' = ns \<and> serving (f, ns) \<and> width f = FCP_MAXIMUM_FRAME_BYTES \<and>
    history f = history priv \<and> fcp_node f = fcp_node priv"
proof -
  let ?a = "allocate_request self FCP_RESPOND_ADDR
    (FCP_RESPOND_ADDR + ucast FCP_MAXIMUM_FRAME_BYTES) FCP_MAXIMUM_FRAME_BYTES"
  have w: "0 < FCP_MAXIMUM_FRAME_BYTES" by (simp add: FCP_MAXIMUM_FRAME_BYTES_def)
  have free: "resp_node priv = None"
    using ok(2) by (auto simp: hinawa_fw_resp_reserve_def hinawa_fw_resp_reserve_within_region_def
        split: if_splits)
  from ok(2) reserve_eq [OF K(1) w free n, of self FCP_RESPOND_ADDR
      "FCP_RESPOND_ADDR + ucast FCP_MAXIMUM_FRAME_BYTES"]
  obtain b where b: "f = granted_range node (allocate_arg ?a b) priv" "ns' = ns"
    by (auto simp: hinawa_fw_resp_reserve_def split: sum.splits)
  have node: "node \<noteq> None" using n(1) by (cases node) (simp_all add: node_at_def)
  have "width f = FCP_MAXIMUM_FRAME_BYTES" "resp_node f = node"
    using reserve_exact_address [OF K _ n ok(2)]
    by (simp_all add: FCP_RESPOND_ADDR_def FCP_MAXIMUM_FRAME_BYTES_def)
  with b n granted_range_ok [OF ok(1) free node] show ?thesis
    by (simp add: serving_def) (simp add: granted_range_def)
qed

lemma answer_request_fault:
  assumes "serving (priv, ns)" and "\<not> width priv < rd_length sig" and "E sig (cleared priv, ns) = Fault x"
  shows "answer_request c K E sig handle (priv, ns) = Fault x"
proof -
  have "resp_ok priv" "resp_node priv \<noteq> None" using assms(1) by (auto elim: servingE)
  then show ?thesis using assms(2,3) by (auto simp: answer_request_def clear_frame_ok cleared_def Let_def)
qed

text \<open>A block write to the address of FCP responses at the card of the node.\<close>

definition window_event :: "fw_constants \<Rightarrow> HinawaFwNode \<Rightarrow> fw_cdev_event_request3 \<Rightarrow> bool" where
  "window_event c n e \<longleftrightarrow> rq3_offset e = FCP_RESPOND_ADDR \<and>
     rq3_tcode e = TCODE c HINAWA_FW_TCODE_WRITE_BLOCK_REQUEST \<and> rq3_card e = card_id n \<and>
     rq3_length e \<le> FCP_MAXIMUM_FRAME_BYTES \<and>
     \<lparr>nr_generation = rq3_generation e, nr_src_node_id = rq3_source_node_id e\<rparr> \<noteq> zero_record"

lemma window_event_faults:
  assumes sv: "serving (f, ns)" "width f = FCP_MAXIMUM_FRAME_BYTES"
    and f: "history f = node_history_init" "fcp_node f = None" "fcp_card_id f = card_id n"
    and ev: "window_event (env_constants env) n e"
    and un: "env_uninit_record env \<noteq> zero_record" "nr_generation (env_uninit_record env) \<noteq> rq3_generation e"
  shows "handle_resp_event env (fcp_requested (env_constants env) (env_uninit_record env))
    (FW_CDEV_EVENT_REQUEST3 e) (f, ns) = Fault Null_Deref"
proof -
  let ?c = "env_constants env"
  let ?sig = "\<lparr>rd_tcode = rq3_tcode e, rd_offset = rq3_offset e, rd_src_node_id = rq3_source_node_id e,
    rd_dst_node_id = rq3_destination_node_id e, rd_card_id = rq3_card e,
    rd_generation = rq3_generation e, rd_tstamp = rq3_tstamp e, rd_frame = rq3_data e,
    rd_length = rq3_length e\<rparr>"
  have "accept_response ?c (env_uninit_record env) ?sig (cleared f) ns = Fault Null_Deref"
    using f ev un
    by (intro accept_before_reset) (simp_all add: fcp_event_def source_record_def window_event_def)
  then have "fcp_requested ?c (env_uninit_record env) ?sig (cleared f, ns) = Fault Null_Deref"
    by (simp add: fcp_requested_def handle_requested_signal_def)
  with answer_request_fault [OF sv(1)] sv(2) ev show ?thesis
    by (simp add: handle_resp_event_def hinawa_fw_resp_handle_request3_def window_event_def not_less)
qed

text \<open>C19. A response frame in the middle of the first call of \<open>hinawa_fw_fcp_bind\<close> on an object: the range is
  reserved and the card stored, but the history has not been reset yet and the node is not stored. A
  block write to the range that the dispatcher reads then is compared with an uninitialised local
  variable, since the properties of a null node are asked for; unless that happens to hold the
  generation of the frame or zeros, its content is inserted into the history through the null cursor,
  and the process crashes. Any node of the bus can send such a frame.\<close>

theorem frame_during_bind_crashes:
  assumes env: "abi_ok (env_abi env)" "errno_ok (env_ioctl env)" "allocate_ok (env_ioctl env)"
    and src: "source_ok src" "opened objs (src_self src)"
    and n: "node_at (obj_nodes objs) node = Some n" "0 \<le> fd n"
    and priv: "resp_ok priv" "history priv = node_history_init" "fcp_node priv = None"
    and step: "hinawa_fw_resp_reserve (env_ioctl env) p (priv\<lparr>fcp_transactions := []\<rparr>) (obj_nodes objs) node
        FCP_RESPOND_ADDR FCP_MAXIMUM_FRAME_BYTES (Err None) = Ret (True, f, ns', err, io)"
    and p: "obj_fcps objs p = Some (bind_card n f)" "p \<noteq> 0" "obj_nodes objs p = None"
    and ev: "rq3_closure e = p" "window_event (env_constants env) n e"
    and un: "env_uninit_record env \<noteq> zero_record" "nr_generation (env_uninit_record env) \<noteq> rq3_generation e"
  shows "dispatch_src env src False (kernel_read (env_abi env) (FW_CDEV_EVENT_REQUEST3 e)) objs =
    Fault Null_Deref"
proof -
  let ?e = "FW_CDEV_EVENT_REQUEST3 e" and ?f = "bind_card n f"
  obtain m where m: "obj_nodes objs (src_self src) = Some m" "0 \<le> fd m" using src(2) by (rule openedE)
  obtain buf where buf: "src_buf src = Some buf" using src(1) by (rule source_okE)
  define s where "s = e\<lparr>rq3_data := drop (length (event_header (env_abi env) ?e)) (buffer_after (env_abi env) buf ?e)\<rparr>"
  have "resp_ok (priv\<lparr>fcp_transactions := []\<rparr>)" using priv(1) by (simp add: resp_ok_def split: option.splits)
  from reserved_for_fcp [OF env(2,3) n this step] priv
  have "serving (?f, obj_nodes objs)" "width ?f = FCP_MAXIMUM_FRAME_BYTES" "history ?f = node_history_init"
    "fcp_node ?f = None" "fcp_card_id ?f = card_id n"
    by (auto simp: bind_card_def serving_def resp_ok_def split: option.splits)
  moreover have "window_event (env_constants env) n s" "rq3_generation s = rq3_generation e" "rq3_closure s = p"
    using ev by (simp_all add: s_def window_event_def)
  ultimately have "dispatch_decoded env src False (\<lambda>_ _. Inr (FW_CDEV_EVENT_REQUEST3 s)) objs = Fault Null_Deref"
    using window_event_faults [of ?f "obj_nodes objs" n env s] un p m
    by (simp add: dispatch_event_read dispatch_event_def object_type_of_def handle_resp_object_def)
  moreover have "seen (env_abi env) buf ?e = FW_CDEV_EVENT_REQUEST3 s" by (simp add: seen_def s_def)
  moreover have "wire_event ?e" by (simp add: wire_event_def)
  ultimately show ?thesis using dispatch_src_read [OF env(1) _ src(1) m buf, of ?e] by simp
qed

text \<open>A closed instance: the local variable holds the generation 1.\<close>

definition window_env :: environment where
  "window_env = sample_env\<lparr>env_ioctl := first_fit_kernel 5,
     env_uninit_record := \<lparr>nr_generation = 1, nr_src_node_id = 0\<rparr>\<rparr>"

theorem frame_during_bind_crashes_witness:
  "\<exists>f io. hinawa_fw_resp_reserve (first_fit_kernel 5) 7 (hinawa_fw_fcp_init\<lparr>fcp_transactions := []\<rparr>)
      sample_fcp_nodes (Some 2) FCP_RESPOND_ADDR FCP_MAXIMUM_FRAME_BYTES (Err None) =
      Ret (True, f, sample_fcp_nodes, Err None, io) \<and>
    dispatch_src window_env sample_src False
      (kernel_read (env_abi window_env) (FW_CDEV_EVENT_REQUEST3 sample_fcp_response))
      (sample_objects\<lparr>obj_nodes := sample_fcp_nodes, obj_fcps := [7 \<mapsto> bind_card sample_fcp_node f]\<rparr>) =
    Fault Null_Deref"
proof -
  have n: "node_at sample_fcp_nodes (Some 2) = Some sample_fcp_node" "0 \<le> fd sample_fcp_node"
    by (simp_all add: sample_fcp_nodes_def node_at_def sample_fcp_node_def)
  have w: "0 < FCP_MAXIMUM_FRAME_BYTES" by (simp add: FCP_MAXIMUM_FRAME_BYTES_def)
  have i: "resp_node (hinawa_fw_fcp_init\<lparr>fcp_transactions := []\<rparr>) = None" "fcp_node hinawa_fw_fcp_init = None"
    "history hinawa_fw_fcp_init = node_history_init" "resp_ok hinawa_fw_fcp_init"
    by (simp_all add: hinawa_fw_fcp_init_def resp_ok_def)
  obtain f io where f: "hinawa_fw_resp_reserve (first_fit_kernel 5) 7 (hinawa_fw_fcp_init\<lparr>fcp_transactions := []\<rparr>)
      sample_fcp_nodes (Some 2) FCP_RESPOND_ADDR FCP_MAXIMUM_FRAME_BYTES (Err None) =
      Ret (True, f, sample_fcp_nodes, Err None, io)"
    using reserve_eq [OF first_fit_ok(2) w i(1) n, of 5 7 FCP_RESPOND_ADDR
        "FCP_RESPOND_ADDR + ucast FCP_MAXIMUM_FRAME_BYTES"]
    by (simp add: hinawa_fw_resp_reserve_def first_fit_kernel_def allocate_request_def FCP_RESPOND_ADDR_def
        FCP_MAXIMUM_FRAME_BYTES_def)
  let ?objs = "sample_objects\<lparr>obj_nodes := sample_fcp_nodes, obj_fcps := [7 \<mapsto> bind_card sample_fcp_node f]\<rparr>"
  have env: "env_ioctl window_env = first_fit_kernel 5" "env_constants window_env = numbered_constants"
    "env_uninit_record window_env = \<lparr>nr_generation = 1, nr_src_node_id = 0\<rparr>" "abi_ok (env_abi window_env)"
    by (simp_all add: window_env_def sample_env_def env_abi_def abi_ok_def)
  have "opened ?objs (src_self sample_src)"
    by (simp add: opened_def sample_src_def sample_fcp_nodes_def sample_fcp_node_def)
  moreover have "window_event numbered_constants sample_fcp_node sample_fcp_response"
    by (simp add: window_event_def sample_fcp_response_def numbered_constants_def sample_fcp_node_def
        FCP_MAXIMUM_FRAME_BYTES_def zero_record_def)
  ultimately show ?thesis
    using frame_during_bind_crashes [of window_env, unfolded env(1-3), OF env(4) first_fit_ok(2,1)
        sample_source_ok, of ?objs "Some 2" sample_fcp_node hinawa_fw_fcp_init 7 f _ _ _ sample_fcp_response]
      n i f
    by (auto simp: sample_fcp_nodes_def sample_fcp_response_def zero_record_def)
qed

end
