(* ===== verification/Lock_Order.thy ===== *)
theory Lock_Order
  imports Hinawa_Prelude
begin

text \<open>
  Threads that take and release mutexes. A thread is the sequence of locking operations it still has
  to perform; a state is the owner of each mutex and the rest of each thread. The locale \<open>lock_order\<close>
  is the contract that excludes deadlock: every thread takes mutexes in the order of a rank and gives
  back what it took. \<open>g_cond_wait_until\<close> gives its mutex back and takes it again when it returns,
  which it does at the deadline at the latest, so it is an \<open>Unlock\<close> followed by a \<open>Lock\<close>.
\<close>

subsection \<open>Steps\<close>

datatype 'm instr = Lock 'm | Unlock 'm

type_synonym 'm threads = "('m \<Rightarrow> nat option) \<times> 'm instr list list"

inductive lock_step :: "'m threads \<Rightarrow> 'm threads \<Rightarrow> bool" where
  acquire: "i < length rs \<Longrightarrow> rs ! i = Lock m # is \<Longrightarrow> own m = None \<Longrightarrow>
    lock_step (own, rs) (own(m \<mapsto> i), rs[i := is])"
| release: "i < length rs \<Longrightarrow> rs ! i = Unlock m # is \<Longrightarrow> own m = Some i \<Longrightarrow>
    lock_step (own, rs) (own(m := None), rs[i := is])"

inductive_cases lock_stepE: "lock_step (own, rs) s'"

abbreviation lock_steps :: "'m threads \<Rightarrow> 'm threads \<Rightarrow> bool" where
  "lock_steps \<equiv> lock_step\<^sup>*\<^sup>*"

definition all_done :: "'m threads \<Rightarrow> bool" where
  "all_done s \<longleftrightarrow> list_all (\<lambda>is. is = []) (snd s)"

text \<open>No thread can do anything although not every thread is done.\<close>

definition deadlocked :: "'m threads \<Rightarrow> bool" where
  "deadlocked s \<longleftrightarrow> \<not> all_done s \<and> (\<forall>s'. \<not> lock_step s s')"

definition not_started :: "'m instr list list \<Rightarrow> 'm threads" where
  "not_started progs = (\<lambda>_. None, progs)"

text \<open>Each step is one operation: runs are finite.\<close>

definition pending_work :: "'m threads \<Rightarrow> nat" where
  "pending_work s = sum_list (map length (snd s))"

lemma sum_list_length_update:
  assumes "i < length rs" and "rs ! i = x # is"
  shows "Suc (sum_list (map length (rs[i := is]))) = sum_list (map length rs)"
  using assms
proof (induction rs arbitrary: i)
  case (Cons r rs)
  then show ?case by (cases i) auto
qed simp

lemma lock_step_work: "lock_step s s' \<Longrightarrow> Suc (pending_work s') = pending_work s"
  by (induction rule: lock_step.induct) (simp_all add: pending_work_def sum_list_length_update)

lemma lock_step_threads: "lock_step s s' \<Longrightarrow> length (snd s') = length (snd s)"
  by (induction rule: lock_step.induct) simp_all

subsection \<open>Threads that respect an order\<close>

primrec ordered :: "('m \<Rightarrow> nat) \<Rightarrow> 'm set \<Rightarrow> 'm instr list \<Rightarrow> bool" where
  "ordered rank held [] \<longleftrightarrow> held = {}"
| "ordered rank held (x # xs) \<longleftrightarrow>
     (case x of
        Lock m \<Rightarrow> (\<forall>h \<in> held. rank h < rank m) \<and> ordered rank (insert m held) xs
      | Unlock m \<Rightarrow> m \<in> held \<and> ordered rank (held - {m}) xs)"

lemma ordered_append:
  "ordered rank {} xs \<Longrightarrow> ordered rank {} ys \<Longrightarrow> ordered rank {} (xs @ ys)"
proof -
  have "ordered rank held xs \<Longrightarrow> ordered rank {} ys \<Longrightarrow> ordered rank held (xs @ ys)" for held
    by (induction xs arbitrary: held) (auto split: instr.splits)
  then show "ordered rank {} xs \<Longrightarrow> ordered rank {} ys \<Longrightarrow> ordered rank {} (xs @ ys)" .
qed

lemma ordered_concat: "list_all (ordered rank {}) xss \<Longrightarrow> ordered rank {} (concat xss)"
  by (induction xss) (simp_all add: ordered_append)

text \<open>What thread \<open>i\<close> holds.\<close>

definition held_by :: "('m \<Rightarrow> nat option) \<Rightarrow> nat \<Rightarrow> 'm set" where
  "held_by own i = {m. own m = Some i}"

definition in_order :: "('m \<Rightarrow> nat) \<Rightarrow> 'm threads \<Rightarrow> bool" where
  "in_order rank s \<longleftrightarrow>
     (\<forall>i < length (snd s). ordered rank (held_by (fst s) i) (snd s ! i)) \<and>
     (\<forall>m i. fst s m = Some i \<longrightarrow> i < length (snd s))"

lemma held_by_acquire:
  "own m = None \<Longrightarrow> held_by (own(m \<mapsto> i)) j = (if j = i then insert m (held_by own j) else held_by own j)"
  by (auto simp: held_by_def)

lemma held_by_release:
  "own m = Some i \<Longrightarrow> held_by (own(m := None)) j = (if j = i then held_by own j - {m} else held_by own j)"
  by (auto simp: held_by_def)

lemma in_orderD: "in_order rank (own, rs) \<Longrightarrow> i < length rs \<Longrightarrow> ordered rank (held_by own i) (rs ! i)"
  by (simp add: in_order_def)

lemma in_order_step:
  assumes "lock_step s s'" and "in_order rank s"
  shows "in_order rank s'"
  using assms
proof (induction rule: lock_step.induct)
  case (acquire i rs m "is" own)
  have "ordered rank (held_by own i) (Lock m # is)"
    using in_orderD [OF acquire.prems acquire.hyps(1)] acquire.hyps(2) by simp
  with acquire show ?case
    by (auto simp: in_order_def held_by_acquire nth_list_update)
next
  case (release i rs m "is" own)
  have "ordered rank (held_by own i) (Unlock m # is)"
    using in_orderD [OF release.prems release.hyps(1)] release.hyps(2) by simp
  with release show ?case
    by (auto simp: in_order_def held_by_release nth_list_update)
qed

lemma in_order_steps: "lock_steps s s' \<Longrightarrow> in_order rank s \<Longrightarrow> in_order rank s'"
  by (induction rule: rtranclp_induct) (auto intro: in_order_step)

text \<open>A thread that is not done and cannot step waits for a mutex of another thread, which is not done
  and waits for a mutex of a higher rank, if it waits.\<close>

lemma blocked_thread:
  assumes ok: "in_order rank (own, rs)" and stuck: "\<And>s'. \<not> lock_step (own, rs) s'"
    and i: "i < length rs" "rs ! i \<noteq> []"
  obtains m j where "hd (rs ! i) = Lock m" "own m = Some j" "j < length rs" "rs ! j \<noteq> []"
    "\<And>h. h \<in> held_by own i \<Longrightarrow> rank h < rank m"
proof -
  obtain x xs where x: "rs ! i = x # xs" using i(2) by (meson neq_Nil_conv)
  have ord: "ordered rank (held_by own i) (x # xs)" using in_orderD [OF ok i(1)] x by simp
  show ?thesis
  proof (cases x)
    case (Unlock m)
    then have "own m = Some i" using ord by (simp add: held_by_def)
    then have "lock_step (own, rs) (own(m := None), rs[i := xs])"
      using i(1) x Unlock by (intro lock_step.release) simp_all
    with stuck show ?thesis by blast
  next
    case (Lock m)
    have "own m \<noteq> None"
    proof
      assume "own m = None"
      then have "lock_step (own, rs) (own(m \<mapsto> i), rs[i := xs])"
        using i(1) x Lock by (intro lock_step.acquire) simp_all
      with stuck show False by blast
    qed
    then obtain j where j: "own m = Some j" by blast
    with ok have "j < length rs" by (simp add: in_order_def)
    moreover have "rs ! j \<noteq> []"
    proof
      assume "rs ! j = []"
      with ok \<open>j < length rs\<close> have "held_by own j = {}" by (auto simp: in_order_def)
      with j show False by (auto simp: held_by_def)
    qed
    ultimately show ?thesis using that [of m j] Lock x ord j by auto
  qed
qed

lemma in_order_not_deadlocked:
  assumes "in_order rank s"
  shows "\<not> deadlocked s"
proof
  obtain own rs where s: "s = (own, rs)" by (cases s)
  assume "deadlocked s"
  then have stuck: "\<And>s'. \<not> lock_step (own, rs) s'" and "\<exists>i < length rs. rs ! i \<noteq> []"
    by (auto simp: deadlocked_def all_done_def s list_all_length)
  then obtain i where i: "i < length rs" "rs ! i \<noteq> []" by blast
  let ?W = "{i. i < length rs \<and> rs ! i \<noteq> []}"
  define waits where "waits i = (case hd (rs ! i) of Lock m \<Rightarrow> rank m | Unlock m \<Rightarrow> 0)" for i
  have "finite ?W" by simp
  moreover have "?W \<noteq> {}" using i by blast
  ultimately obtain i where i: "i \<in> ?W" and most: "\<forall>j \<in> ?W. waits j \<le> waits i"
    using Max_in [of "waits ` ?W"] Max_ge [of "waits ` ?W"] by fastforce
  from blocked_thread [OF assms [unfolded s] stuck] i obtain m j where
    m: "hd (rs ! i) = Lock m" "own m = Some j" and j: "j \<in> ?W" by blast
  from blocked_thread [OF assms [unfolded s] stuck] j obtain m' where
    m': "hd (rs ! j) = Lock m'" "\<And>h. h \<in> held_by own j \<Longrightarrow> rank h < rank m'" by blast
  have "rank m < rank m'" using m(2) by (intro m'(2)) (simp add: held_by_def)
  with most j m(1) m'(1) show False by (fastforce simp: waits_def)
qed

locale lock_order =
  fixes rank :: "'m \<Rightarrow> nat"
    and program :: "'m instr list \<Rightarrow> bool"
  assumes program_ordered: "program is \<Longrightarrow> ordered rank {} is"
begin

text \<open>Any number of threads that run programs of the contract: whatever the interleaving, there is no
  deadlock, every run is at most as long as the programs together, and one that cannot be continued has
  ended every thread.\<close>

lemma start_in_order: "list_all program progs \<Longrightarrow> in_order rank (not_started progs)"
  by (simp add: in_order_def not_started_def held_by_def list_all_length program_ordered)

lemma never_deadlocked:
  "list_all program progs \<Longrightarrow> lock_steps (not_started progs) s \<Longrightarrow> \<not> deadlocked s"
  using in_order_not_deadlocked in_order_steps start_in_order by blast

lemma runs_finish:
  assumes "list_all program progs" and "lock_steps (not_started progs) s"
  shows "\<exists>s'. lock_steps s s' \<and> all_done s'"
  using assms(2)
proof (induction "pending_work s" arbitrary: s rule: less_induct)
  case less
  show ?case
  proof (cases "all_done s")
    case False
    with never_deadlocked [OF assms(1) less.prems] obtain s' where s': "lock_step s s'"
      unfolding deadlocked_def by blast
    have "lock_steps (not_started progs) s'" using less.prems s' by simp
    with less.hyps [of s'] lock_step_work [OF s'] obtain s'' where "lock_steps s' s''" "all_done s''"
      by auto
    with s' show ?thesis by (meson converse_rtranclp_into_rtranclp)
  qed blast
qed

end

end
