(* ===== verification/Fw_Locks.thy ===== *)
theory Fw_Locks
  imports Lock_Order Fw_Cdev
begin

text \<open>
  The mutexes of the library and the order in which each function takes and releases them. The loops
  over waiters are unfolded for a given list of waiters, the waiting loops for a given number of
  returns of \<open>g_cond_wait_until\<close>. Handlers that users connect to signals are assumed to take none of
  these mutexes.
\<close>

subsection \<open>Mutexes\<close>

datatype mutex =
    Node_Mutex obj_id
  | Node_Transactions obj_id
  | Req_Waiter obj_id
  | Fcp_History obj_id
  | Fcp_Transactions obj_id
  | Avc_Waiter obj_id

type_synonym locking = "mutex instr list"

text \<open>One return of \<open>g_cond_wait_until\<close> after the other.\<close>

definition cond_waits :: "mutex \<Rightarrow> nat \<Rightarrow> locking" where
  "cond_waits m k = concat (replicate k [Unlock m, Lock m])"

subsection \<open>Nodes and requests\<close>

definition get_property_locks :: "obj_id \<Rightarrow> locking" where
  "get_property_locks n = [Lock (Node_Mutex n), Unlock (Node_Mutex n)]"

definition handle_update_locks :: "obj_id \<Rightarrow> locking" where
  "handle_update_locks n = [Lock (Node_Mutex n), Unlock (Node_Mutex n)]"

definition invalidate_transaction_locks :: "obj_id \<Rightarrow> locking" where
  "invalidate_transaction_locks n = [Lock (Node_Transactions n), Unlock (Node_Transactions n)]"

definition req_responded_locks :: "obj_id \<Rightarrow> locking" where
  "req_responded_locks w = [Lock (Req_Waiter w), Unlock (Req_Waiter w)]"

text \<open>\<open>hinawa_fw_req_transaction_with_tstamp\<close> on the node \<open>n\<close> with its waiter at \<open>w\<close>: the generation is
  read in \<open>hinawa_fw_req_request\<close>.\<close>

definition transaction_locks :: "obj_id \<Rightarrow> obj_id \<Rightarrow> nat \<Rightarrow> locking" where
  "transaction_locks n w k =
     get_property_locks n @ [Lock (Req_Waiter w)] @ cond_waits (Req_Waiter w) k @
     [Unlock (Req_Waiter w)] @ invalidate_transaction_locks n"

text \<open>\<open>dispatch_src\<close> for a response to a request with the waiters \<open>ws\<close> connected.\<close>

definition dispatch_response_locks :: "obj_id \<Rightarrow> obj_id list \<Rightarrow> locking" where
  "dispatch_response_locks n ws =
     [Lock (Node_Transactions n)] @ concat (map req_responded_locks ws) @ [Unlock (Node_Transactions n)]"

subsection \<open>The function control protocol\<close>

text \<open>The body of the loops over the waiters of an FCP object.\<close>

definition visit_waiter :: "obj_id \<Rightarrow> locking" where
  "visit_waiter a = [Lock (Avc_Waiter a), Unlock (Avc_Waiter a)]"

definition fcp_responded_locks :: "obj_id \<Rightarrow> obj_id list \<Rightarrow> locking" where
  "fcp_responded_locks f as =
     [Lock (Fcp_Transactions f)] @ concat (map visit_waiter as) @ [Unlock (Fcp_Transactions f)]"

definition node_history_lock :: "obj_id \<Rightarrow> locking" where
  [simp]: "node_history_lock f = [Lock (Fcp_History f)]"

definition node_history_unlock :: "obj_id \<Rightarrow> locking" where
  [simp]: "node_history_unlock f = [Unlock (Fcp_History f)]"

text \<open>\<open>handle_requested_signal\<close>: the history is consulted, with the node's properties in the worst case,
  and \<open>responded\<close> runs its handler once for each of \<open>k\<close> connections.\<close>

definition fcp_requested_locks :: "obj_id \<Rightarrow> obj_id \<Rightarrow> nat \<Rightarrow> obj_id list \<Rightarrow> locking" where
  "fcp_requested_locks f n k as =
     node_history_lock f @ get_property_locks n @ get_property_locks n @ node_history_unlock f @
     concat (replicate k (fcp_responded_locks f as))"

definition bind_locks :: "obj_id \<Rightarrow> obj_id \<Rightarrow> locking" where
  "bind_locks f n =
     [Lock (Fcp_Transactions f), Unlock (Fcp_Transactions f)] @
     get_property_locks n @ get_property_locks n @ get_property_locks n @
     node_history_lock f @ node_history_unlock f"

definition unbind_locks :: "obj_id \<Rightarrow> obj_id list \<Rightarrow> locking" where
  "unbind_locks f as =
     [Lock (Fcp_Transactions f)] @ concat (map visit_waiter as) @ [Unlock (Fcp_Transactions f)]"

text \<open>An AV/C transaction on the FCP object \<open>f\<close> with its waiter at \<open>a\<close>, whose command succeeds: the part
  before the command, the command, the wait for the response and the end.\<close>

definition avc_enter_locks :: "obj_id \<Rightarrow> obj_id \<Rightarrow> obj_id \<Rightarrow> locking" where
  "avc_enter_locks f n a =
     [Lock (Avc_Waiter a), Lock (Fcp_Transactions f), Unlock (Fcp_Transactions f)] @ get_property_locks n"

definition avc_leave_locks :: "obj_id \<Rightarrow> obj_id \<Rightarrow> locking" where
  "avc_leave_locks f a =
     [Lock (Fcp_Transactions f), Unlock (Fcp_Transactions f), Unlock (Avc_Waiter a)]"

definition avc_transaction_locks :: "obj_id \<Rightarrow> obj_id \<Rightarrow> obj_id \<Rightarrow> obj_id \<Rightarrow> nat \<Rightarrow> nat \<Rightarrow> locking" where
  "avc_transaction_locks f n a w k j =
     avc_enter_locks f n a @ transaction_locks n w k @ cond_waits (Avc_Waiter a) j @ avc_leave_locks f a"

subsection \<open>Everything but AV/C transactions\<close>

text \<open>The threads that run any sequence of the other functions.\<close>

inductive plain_locking :: "locking \<Rightarrow> bool" where
  nothing: "plain_locking []"
| property: "plain_locking (get_property_locks n)"
| update: "plain_locking (handle_update_locks n)"
| transaction: "plain_locking (transaction_locks n w k)"
| response: "plain_locking (dispatch_response_locks n ws)"
| requested: "plain_locking (fcp_requested_locks f n k as)"
| bind: "plain_locking (bind_locks f n)"
| unbind: "plain_locking (unbind_locks f as)"
| sequence: "plain_locking xs \<Longrightarrow> plain_locking ys \<Longrightarrow> plain_locking (xs @ ys)"

fun lock_rank :: "mutex \<Rightarrow> nat" where
  "lock_rank (Node_Transactions n) = 0"
| "lock_rank (Req_Waiter w) = 1"
| "lock_rank (Fcp_History f) = 1"
| "lock_rank (Fcp_Transactions f) = 2"
| "lock_rank (Avc_Waiter a) = 3"
| "lock_rank (Node_Mutex n) = 4"

lemma ordered_under:
  assumes "list_all (\<lambda>xs. \<exists>m. xs = [Lock m, Unlock m] \<and> lock_rank h < lock_rank m) xss"
  shows "ordered lock_rank {} ([Lock h] @ concat xss @ [Unlock h])"
proof -
  have "ordered lock_rank {h} (concat xss @ [Unlock h])"
    using assms
  proof (induction xss)
    case (Cons xs xss)
    then obtain m where m: "xs = [Lock m, Unlock m]" "lock_rank h < lock_rank m" by auto
    then have "insert m {h} - {m} = {h}" by auto
    with Cons m show ?case by simp
  qed simp
  then show ?thesis by simp
qed

lemma ordered_pair: "ordered lock_rank {} [Lock m, Unlock m]"
  by simp

lemma ordered_waits: "ordered lock_rank {} ([Lock m] @ cond_waits m k @ [Unlock m])"
proof -
  have "ordered lock_rank {m} (cond_waits m k @ [Unlock m])"
    by (induction k) (simp_all add: cond_waits_def)
  then show ?thesis by simp
qed

lemma ordered_visits:
  "ordered lock_rank {} ([Lock (Fcp_Transactions f)] @ concat (map visit_waiter as) @ [Unlock (Fcp_Transactions f)])"
  by (rule ordered_under) (simp add: list_all_iff visit_waiter_def)

lemma ordered_responses:
  "ordered lock_rank {} (dispatch_response_locks n ws)"
  unfolding dispatch_response_locks_def
  by (rule ordered_under) (simp add: list_all_iff req_responded_locks_def)

lemma ordered_requested: "ordered lock_rank {} (fcp_requested_locks f n k as)"
proof -
  have responded: "ordered lock_rank {} (concat (replicate k (fcp_responded_locks f as)))"
    by (rule ordered_concat) (simp add: list_all_iff fcp_responded_locks_def ordered_visits [simplified])
  have "ordered lock_rank {} ([Lock (Fcp_History f)] @ concat [get_property_locks n, get_property_locks n] @
      [Unlock (Fcp_History f)])"
    by (rule ordered_under) (simp add: get_property_locks_def)
  from ordered_append [OF this responded] show ?thesis by (simp add: fcp_requested_locks_def)
qed

interpretation library_locks: lock_order lock_rank plain_locking
proof
  fix "is" assume "plain_locking is"
  then show "ordered lock_rank {} is"
  proof induction
    case (transaction n w k)
    have "ordered lock_rank {} (get_property_locks n @ ([Lock (Req_Waiter w)] @ cond_waits (Req_Waiter w) k @
        [Unlock (Req_Waiter w)]) @ invalidate_transaction_locks n)"
      unfolding get_property_locks_def invalidate_transaction_locks_def
      by (intro ordered_append ordered_pair ordered_waits)
    then show ?case by (simp add: transaction_locks_def)
  qed (simp_all add: get_property_locks_def handle_update_locks_def bind_locks_def unbind_locks_def
      ordered_visits [simplified] ordered_responses ordered_requested ordered_append)
qed

text \<open>C14. No deadlock without AV/C transactions: any number of threads, each running any sequence of
  transactions, dispatches of responses, requests and bus resets, reads of properties, binding and
  unbinding, in any interleaving. No reachable state is deadlocked, and from each of them every thread
  can be run to its end.\<close>

lemma plain_threads_finish:
  assumes "list_all plain_locking progs" and "lock_steps (not_started progs) s"
  shows "\<not> deadlocked s \<and> (\<exists>s'. lock_steps s s' \<and> all_done s')"
  using library_locks.never_deadlocked [OF assms] library_locks.runs_finish [OF assms] by blast

lemma plain_threads_finish_witness:
  "\<exists>s. lock_steps (not_started [transaction_locks 2 0x70 1, transaction_locks 2 0x71 0,
       dispatch_response_locks 2 [0x70] @ fcp_requested_locks 7 2 1 [0x7f], unbind_locks 7 [0x7f]]) s \<and>
     all_done s"
proof -
  let ?ps = "[transaction_locks 2 0x70 1, transaction_locks 2 0x71 0,
     dispatch_response_locks 2 [0x70] @ fcp_requested_locks 7 2 1 [0x7f], unbind_locks 7 [0x7f]]"
  have "list_all plain_locking ?ps" by (simp add: plain_locking.intros)
  from plain_threads_finish [OF this rtranclp.rtrancl_refl] show ?thesis by blast
qed

subsection \<open>AV/C transactions\<close>

text \<open>A thread that runs alone.\<close>

primrec exec :: "nat \<Rightarrow> locking \<Rightarrow> (mutex \<Rightarrow> nat option) \<Rightarrow> (mutex \<Rightarrow> nat option) option" where
  "exec i [] own = Some own"
| "exec i (x # xs) own =
     (case x of
        Lock m \<Rightarrow> if own m = None then exec i xs (own(m \<mapsto> i)) else None
      | Unlock m \<Rightarrow> if own m = Some i then exec i xs (own(m := None)) else None)"

lemma exec_steps:
  assumes "i < length rs" and "rs ! i = xs @ ys" and "exec i xs own = Some own'"
  shows "lock_steps (own, rs) (own', rs[i := ys])"
  using assms
proof (induction xs arbitrary: rs own)
  case Nil
  then show ?case by (auto simp: list_update_same_conv)
next
  case (Cons x xs)
  let ?rs = "rs[i := xs @ ys]"
  obtain own1 where own1: "lock_step (own, rs) (own1, ?rs)" "exec i xs own1 = Some own'"
    using Cons.prems
    by (auto split: instr.splits if_splits intro: lock_step.acquire lock_step.release)
  have "lock_steps (own1, ?rs) (own', ?rs[i := ys])"
    using Cons.prems(1) own1(2) by (intro Cons.IH) simp_all
  with own1(1) show ?case by (simp add: converse_rtranclp_into_rtranclp)
qed

lemma exec_append: "exec i (xs @ ys) own = Option.bind (exec i xs own) (exec i ys)"
  by (induction xs arbitrary: own) (auto split: instr.splits)

lemma exec_waits: "own m = Some i \<Longrightarrow> exec i (cond_waits m k) own = Some own"
  by (induction k) (auto simp: cond_waits_def map_upd_triv)

lemma exec_transaction:
  assumes "own (Node_Mutex n) = None" and "own (Req_Waiter w) = None" and "own (Node_Transactions n) = None"
  shows "exec i (transaction_locks n w k) own = Some own"
  using assms
  by (simp add: transaction_locks_def exec_append get_property_locks_def invalidate_transaction_locks_def
      exec_waits fun_upd_idem)

text \<open>C15. An AV/C transaction can deadlock with the dispatcher, whatever the number of wake-ups: when the
  wait is over, the caller takes \<open>transactions_mutex\<close> of the object while it holds the mutex of its
  waiter; the handler of \<open>responded\<close> takes the two the other way round. In the state reached here the
  caller has entered its waiter into the list and not yet removed it, as the handler requires, each of
  the two holds the mutex the other waits for, and neither has a timeout.\<close>

lemma avc_deadlock_reachable:
  "\<exists>own. lock_steps (not_started [avc_transaction_locks f n a w k j, fcp_responded_locks f [a]])
       (own, [avc_leave_locks f a, visit_waiter a @ [Unlock (Fcp_Transactions f)]]) \<and>
     own (Avc_Waiter a) = Some 0 \<and> own (Fcp_Transactions f) = Some 1 \<and>
     deadlocked (own, [avc_leave_locks f a, visit_waiter a @ [Unlock (Fcp_Transactions f)]])"
proof -
  let ?p = "avc_enter_locks f n a @ transaction_locks n w k @ cond_waits (Avc_Waiter a) j"
  let ?rest = "visit_waiter a @ [Unlock (Fcp_Transactions f)]"
  let ?own = "[Avc_Waiter a \<mapsto> 0 :: nat]"
  let ?own' = "?own(Fcp_Transactions f \<mapsto> 1)"
  let ?s = "(?own', [avc_leave_locks f a, ?rest])"
  have "exec 0 (avc_enter_locks f n a) Map.empty = Some ?own"
    by (auto simp: avc_enter_locks_def get_property_locks_def)
  then have "exec 0 ?p Map.empty = Some ?own"
    by (simp add: exec_append exec_transaction exec_waits)
  then have "lock_steps (not_started [avc_transaction_locks f n a w k j, fcp_responded_locks f [a]])
      (?own, [avc_leave_locks f a, fcp_responded_locks f [a]])"
    using exec_steps [of 0 "[avc_transaction_locks f n a w k j, fcp_responded_locks f [a]]" ?p
        "avc_leave_locks f a" Map.empty ?own]
    by (simp add: not_started_def avc_transaction_locks_def)
  moreover have "lock_step (?own, [avc_leave_locks f a, fcp_responded_locks f [a]]) ?s"
    using lock_step.acquire [of 1 "[avc_leave_locks f a, fcp_responded_locks f [a]]" "Fcp_Transactions f"
        ?rest ?own]
    by (simp add: fcp_responded_locks_def)
  ultimately have "lock_steps (not_started [avc_transaction_locks f n a w k j, fcp_responded_locks f [a]]) ?s"
    by simp
  moreover have "\<not> lock_step ?s s'" for s'
    by (auto elim!: lock_stepE simp: avc_leave_locks_def visit_waiter_def less_Suc_eq)
  then have "deadlocked ?s" by (auto simp: deadlocked_def all_done_def avc_leave_locks_def)
  ultimately show ?thesis by (intro exI [of _ ?own']) simp
qed

text \<open>The caller is in the first part \<open>c\<close> of its program, in which it keeps the mutex of its waiter, and
  the dispatcher has not got past that mutex.\<close>

definition awaiting_caller :: "obj_id \<Rightarrow> obj_id \<Rightarrow> locking \<Rightarrow> locking \<Rightarrow> mutex threads \<Rightarrow> bool" where
  "awaiting_caller f a later dispatcher s \<longleftrightarrow>
     (\<exists>c r. snd s = [c @ later, r] \<and> fst s (Avc_Waiter a) = Some 0 \<and>
        (\<forall>x \<in> set c. x \<noteq> Lock (Avc_Waiter a) \<and> x \<noteq> Unlock (Avc_Waiter a)) \<and>
        r \<in> {fcp_responded_locks f [a] @ dispatcher, tl (fcp_responded_locks f [a]) @ dispatcher})"

definition caller_past :: "locking \<Rightarrow> mutex threads \<Rightarrow> bool" where
  "caller_past later s \<longleftrightarrow> length (snd s) = 2 \<and> length (snd s ! 0) < length later"

lemma caller_past_step: "lock_step s s' \<Longrightarrow> caller_past later s \<Longrightarrow> caller_past later s'"
  by (induction rule: lock_step.induct) (auto simp: caller_past_def nth_list_update)

lemma awaiting_caller_step:
  assumes "lock_step s s'" and "awaiting_caller f a later dispatcher s"
  shows "awaiting_caller f a later dispatcher s' \<or> caller_past later s'"
proof -
  obtain own where s: "s = (own, snd s)" and own: "own (Avc_Waiter a) = Some 0"
    using assms(2) by (cases s) (auto simp: awaiting_caller_def)
  obtain c r where c: "snd s = [c @ later, r]"
      "\<forall>x \<in> set c. x \<noteq> Lock (Avc_Waiter a) \<and> x \<noteq> Unlock (Avc_Waiter a)"
    and r: "r \<in> {fcp_responded_locks f [a] @ dispatcher, tl (fcp_responded_locks f [a]) @ dispatcher}"
    using assms(2) by (auto simp: awaiting_caller_def)
  have "lock_step (own, [c @ later, r]) s'" using assms(1) s c(1) by simp
  then show ?thesis
  proof cases
    case (acquire i m xs)
    show ?thesis
    proof (cases "i = 0")
      case True
      then show ?thesis
        using acquire c(2) own r
        by (cases c) (auto simp: awaiting_caller_def caller_past_def intro!: exI)
    next
      case False
      then show ?thesis
        using acquire c(2) own r
        by (auto simp: awaiting_caller_def fcp_responded_locks_def visit_waiter_def less_Suc_eq)
    qed
  next
    case (release i m xs)
    show ?thesis
    proof (cases "i = 0")
      case True
      then show ?thesis
        using release c(2) own r
        by (cases c) (auto simp: awaiting_caller_def caller_past_def intro!: exI)
    next
      case False
      then show ?thesis
        using release own r by (auto simp: fcp_responded_locks_def visit_waiter_def less_Suc_eq)
    qed
  qed
qed

lemma awaiting_caller_steps:
  assumes "lock_steps s s'" and "awaiting_caller f a later dispatcher s"
  shows "awaiting_caller f a later dispatcher s' \<or> caller_past later s'"
  using assms
proof (induction rule: rtranclp_induct)
  case (step s' s'')
  then show ?case using awaiting_caller_step caller_past_step by blast
qed simp

text \<open>Until the second of two threads makes a step, the first runs alone.\<close>

lemma lock_step_pair:
  assumes "lock_step (own, [p, r]) s'"
  obtains (first) x p' own' where "p = x # p'" "exec 0 [x] own = Some own'" "s' = (own', [p', r])"
  | (second) x r' own' where "r = x # r'" "s' = (own', [p, r'])"
  using assms
proof cases
  case (acquire i m xs)
  with first second show ?thesis by (cases "i = 0") (auto simp: less_Suc_eq)
next
  case (release i m xs)
  with first second show ?thesis by (cases "i = 0") (auto simp: less_Suc_eq)
qed

lemma lock_steps_pair:
  assumes "lock_steps (own, [p, r]) s'"
  shows "\<exists>own' p' r'. s' = (own', [p', r']) \<and> length r' \<le> length r \<and>
    (length r' = length r \<longrightarrow> r' = r \<and> (\<exists>xs. p = xs @ p' \<and> exec 0 xs own = Some own'))"
  using assms
proof (induction rule: rtranclp_induct)
  case base
  then show ?case by (auto intro: exI [of _ "[]"])
next
  case (step s' s'')
  then obtain own' p' r' where s': "s' = (own', [p', r'])" "length r' \<le> length r"
      "length r' = length r \<longrightarrow> r' = r \<and> (\<exists>xs. p = xs @ p' \<and> exec 0 xs own = Some own')" by blast
  have "lock_step (own', [p', r']) s''" using step.hyps(2) s'(1) by simp
  then show ?case
  proof (cases rule: lock_step_pair)
    case (first x p'' own'')
    have "p = (xs @ [x]) @ p'' \<and> exec 0 (xs @ [x]) own = Some own''"
      if "p = xs @ p'" "exec 0 xs own = Some own'" for xs
      unfolding exec_append that(2) using that(1) first(1,2) by (simp del: exec.simps)
    with s'(3) have "length r' = length r \<longrightarrow> r' = r \<and> (\<exists>ys. p = ys @ p'' \<and> exec 0 ys own = Some own'')"
      by metis
    with s'(2) first(3) show ?thesis by simp
  next
    case (second x r'' own'')
    with s'(2) show ?thesis by auto
  qed
qed

text \<open>The caller that has come to its command holds the mutex of its waiter and no other.\<close>

lemma command_under_waiter:
  assumes "lock_steps (not_started [avc_transaction_locks f n a w k j, r])
    (own, [transaction_locks n w k @ cond_waits (Avc_Waiter a) j @ avc_leave_locks f a, r])"
  shows "own = [Avc_Waiter a \<mapsto> 0]"
proof -
  from lock_steps_pair [of Map.empty "avc_transaction_locks f n a w k j" r] assms
  have "exec 0 (avc_enter_locks f n a) Map.empty = Some own"
    by (auto simp: not_started_def avc_transaction_locks_def)
  moreover have "exec 0 (avc_enter_locks f n a) Map.empty = Some [Avc_Waiter a \<mapsto> 0]"
    by (auto simp: avc_enter_locks_def get_property_locks_def)
  ultimately show ?thesis by simp
qed

lemma starved_from_command:
  assumes "lock_steps ([Avc_Waiter a \<mapsto> 0], [transaction_locks n w k @ later,
      fcp_responded_locks f [a] @ dispatch_response_locks n [w]]) (own, [r0, r1])"
    and "length r1 \<le> length (dispatch_response_locks n [w])"
  shows "length r0 < length later"
proof -
  have "\<forall>x \<in> set (cond_waits (Req_Waiter w) k). x \<noteq> Lock (Avc_Waiter a) \<and> x \<noteq> Unlock (Avc_Waiter a)"
    by (induction k) (simp_all add: cond_waits_def)
  then have "\<forall>x \<in> set (transaction_locks n w k). x \<noteq> Lock (Avc_Waiter a) \<and> x \<noteq> Unlock (Avc_Waiter a)"
    by (auto simp: transaction_locks_def get_property_locks_def invalidate_transaction_locks_def)
  then have "awaiting_caller f a later (dispatch_response_locks n [w])
      ([Avc_Waiter a \<mapsto> 0], [transaction_locks n w k @ later,
        fcp_responded_locks f [a] @ dispatch_response_locks n [w]])"
    by (auto simp: awaiting_caller_def)
  from awaiting_caller_steps [OF assms(1) this] show ?thesis
    using assms(2) by (auto simp: awaiting_caller_def caller_past_def fcp_responded_locks_def visit_waiter_def)
qed

text \<open>C16. The response to the command of an AV/C transaction is stuck behind its response frame. The caller
  runs \<open>hinawa_fw_fcp_avc_transaction_with_tstamp\<close> from its start; the dispatcher has the response frame
  to deliver and then the response to the command, and begins when the caller has come to its command
  (\<open>own0\<close> is whatever the caller then holds). In every state in which the dispatcher has got to
  delivering the response to the command, the caller is past the command and in its wait for the
  frame or later: the command has not been ended by that response but by its timeout.\<close>

lemma command_response_starves:
  defines "dispatcher \<equiv> \<lambda>f n a w. fcp_responded_locks f [a] @ dispatch_response_locks n [w]"
    and "later \<equiv> \<lambda>f a j. cond_waits (Avc_Waiter a) j @ avc_leave_locks f a"
  assumes "lock_steps (not_started [avc_transaction_locks f n a w k j, dispatcher f n a w])
      (own0, [transaction_locks n w k @ later f a j, dispatcher f n a w])"
    and "lock_steps (own0, [transaction_locks n w k @ later f a j, dispatcher f n a w]) (own, [r0, r1])"
    and "length r1 \<le> length (dispatch_response_locks n [w])"
  shows "length r0 < length (later f a j)"
proof -
  have "own0 = [Avc_Waiter a \<mapsto> 0]"
    using assms(3) unfolding later_def by (rule command_under_waiter)
  with starved_from_command [OF _ assms(5)] assms(4) show ?thesis unfolding dispatcher_def by blast
qed

lemma command_response_starves_witness:
  "\<exists>own0 own. lock_steps (not_started [avc_transaction_locks 7 2 0x7f 0x70 1 0,
       fcp_responded_locks 7 [0x7f] @ dispatch_response_locks 2 [0x70]])
      (own0, [transaction_locks 2 0x70 1 @ avc_leave_locks 7 0x7f,
       fcp_responded_locks 7 [0x7f] @ dispatch_response_locks 2 [0x70]]) \<and>
    lock_steps (own0, [transaction_locks 2 0x70 1 @ avc_leave_locks 7 0x7f,
       fcp_responded_locks 7 [0x7f] @ dispatch_response_locks 2 [0x70]])
      (own, [[], dispatch_response_locks 2 [0x70]]) \<and>
    length ([] :: locking) < length (avc_leave_locks 7 0x7f)"
proof -
  let ?p = "transaction_locks 2 0x70 1 @ avc_leave_locks 7 0x7f"
  let ?r = "fcp_responded_locks 7 [0x7f]" and ?d = "dispatch_response_locks 2 [0x70]"
  let ?a = "avc_transaction_locks 7 2 0x7f 0x70 1 0"
  have "exec 0 (avc_enter_locks 7 2 0x7f) Map.empty = Some [Avc_Waiter 0x7f \<mapsto> 0]"
    by (auto simp: avc_enter_locks_def get_property_locks_def)
  then have start: "lock_steps (not_started [?a, ?r @ ?d]) ([Avc_Waiter 0x7f \<mapsto> 0], [?p, ?r @ ?d])"
    using exec_steps [of 0 "[?a, ?r @ ?d]" "avc_enter_locks 7 2 0x7f" ?p Map.empty]
    by (simp add: not_started_def avc_transaction_locks_def cond_waits_def)
  have "exec 0 ?p [Avc_Waiter 0x7f \<mapsto> 0] = Some Map.empty"
    by (simp add: exec_append exec_transaction avc_leave_locks_def)
  then have "lock_steps ([Avc_Waiter 0x7f \<mapsto> 0], [?p, ?r @ ?d]) (Map.empty, [[], ?r @ ?d])"
    using exec_steps [of 0 "[?p, ?r @ ?d]" ?p "[]" "[Avc_Waiter 0x7f \<mapsto> 0]" Map.empty] by simp
  moreover have "exec 1 ?r Map.empty = Some Map.empty"
    by (simp add: fcp_responded_locks_def visit_waiter_def)
  then have "lock_steps (Map.empty, [[], ?r @ ?d]) (Map.empty, [[], ?d])"
    using exec_steps [of 1 "[[], ?r @ ?d]" ?r ?d Map.empty Map.empty] by simp
  ultimately have run: "lock_steps ([Avc_Waiter 0x7f \<mapsto> 0], [?p, ?r @ ?d]) (Map.empty, [[], ?d])"
    by (rule rtranclp_trans)
  have "length ([] :: locking) < length (cond_waits (Avc_Waiter 0x7f) 0 @ avc_leave_locks 7 0x7f)"
    using command_response_starves [where f = 7 and n = 2 and a = "0x7f" and w = "0x70" and k = 1 and j = 0 and
        own = Map.empty and ?r0.0 = "[]" and ?r1.0 = ?d and ?own0.0 = "[Avc_Waiter 0x7f \<mapsto> 0]"] start run
    by (simp add: cond_waits_def)
  with start run show ?thesis by (auto simp: cond_waits_def)
qed

end
