(* ===== verification/Fw_Classes.thy ===== *)
theory Fw_Classes
  imports Fw_Dispatch
begin

text \<open>
  What the classes register with GObject (\<open>hinawa_fw_node_class_init\<close>, \<open>hinawa_fw_req_class_init\<close>,
  \<open>hinawa_fw_resp_class_init\<close>, \<open>hinawa_fw_fcp_class_init\<close>): the specification of each property under
  its identifier, and each signal with its marshaller, its return type and the types of its arguments;
  and how GObject uses them: a property is read by its name, a signal is emitted with a list of values.
\<close>

subsection \<open>Values\<close>

datatype gtype =
    G_TYPE_NONE
  | G_TYPE_BOOLEAN
  | G_TYPE_UINT
  | G_TYPE_UINT64
  | G_TYPE_POINTER
  | HINAWA_TYPE_FW_TCODE
  | HINAWA_TYPE_FW_RCODE

datatype gvalue =
    V_Boolean bool
  | V_Uint u32
  | V_Uint64 u64
  | V_Pointer bytes
  | V_Tcode u32
  | V_Rcode u32

primrec gvalue_type :: "gvalue \<Rightarrow> gtype" where
  "gvalue_type (V_Boolean b) = G_TYPE_BOOLEAN"
| "gvalue_type (V_Uint w) = G_TYPE_UINT"
| "gvalue_type (V_Uint64 w) = G_TYPE_UINT64"
| "gvalue_type (V_Pointer d) = G_TYPE_POINTER"
| "gvalue_type (V_Tcode t) = HINAWA_TYPE_FW_TCODE"
| "gvalue_type (V_Rcode r) = HINAWA_TYPE_FW_RCODE"

text \<open>Specifications of properties, with the range of the numeric ones and the default.\<close>

datatype param_spec =
    Param_Boolean string bool
  | Param_Uint string u32 u32 u32
  | Param_Uint64 string u64 u64 u64

primrec param_name :: "param_spec \<Rightarrow> string" where
  "param_name (Param_Boolean name def) = name"
| "param_name (Param_Uint name lo hi def) = name"
| "param_name (Param_Uint64 name lo hi def) = name"

primrec param_default :: "param_spec \<Rightarrow> gvalue" where
  "param_default (Param_Boolean name def) = V_Boolean def"
| "param_default (Param_Uint name lo hi def) = V_Uint def"
| "param_default (Param_Uint64 name lo hi def) = V_Uint64 def"

fun param_accepts :: "param_spec \<Rightarrow> gvalue \<Rightarrow> bool" where
  "param_accepts (Param_Boolean name def) (V_Boolean b) = True"
| "param_accepts (Param_Uint name lo hi def) (V_Uint w) = (lo \<le> w \<and> w \<le> hi)"
| "param_accepts (Param_Uint64 name lo hi def) (V_Uint64 w) = (lo \<le> w \<and> w \<le> hi)"
| "param_accepts _ _ = False"

text \<open>The marshallers: \<open>g_cclosure_marshal_VOID__VOID\<close> of GLib and those generated from
  \<open>hinawa_sigs_marshal.list\<close>.\<close>

datatype marshal_type = VOID | ENUM | UINT | UINT64 | POINTER | BOOLEAN

type_synonym marshaller = "marshal_type \<times> marshal_type list"

definition marshallers :: "marshaller list" where
  "marshallers =
     [(VOID, []),
      (VOID, [ENUM, UINT, UINT, POINTER, UINT]),
      (VOID, [UINT, UINT, POINTER, UINT]),
      (ENUM, [ENUM, UINT64, UINT, UINT, UINT, UINT, UINT, POINTER, UINT])]"

primrec marshal_of :: "gtype \<Rightarrow> marshal_type" where
  "marshal_of G_TYPE_NONE = VOID"
| "marshal_of G_TYPE_BOOLEAN = BOOLEAN"
| "marshal_of G_TYPE_UINT = UINT"
| "marshal_of G_TYPE_UINT64 = UINT64"
| "marshal_of G_TYPE_POINTER = POINTER"
| "marshal_of HINAWA_TYPE_FW_TCODE = ENUM"
| "marshal_of HINAWA_TYPE_FW_RCODE = ENUM"

record signal_spec =
  sig_name :: string
  sig_marshaller :: marshaller
  sig_return :: gtype
  sig_params :: "gtype list"

text \<open>What a class registers: properties and signals under their enumerators.\<close>

record ('id, 'sig) class_spec =
  class_props :: "('id \<times> param_spec) list"
  class_signals :: "('sig \<times> signal_spec) list"

datatype fw_node_sig_type = FW_NODE_SIG_TYPE_BUS_UPDATE | FW_NODE_SIG_TYPE_DISCONNECTED

datatype fw_req_sig_type = FW_REQ_SIG_TYPE_RESPONDED

datatype fw_resp_sig_type = FW_RESP_SIG_TYPE_REQ

datatype fw_fcp_sig_type = FW_FCP_SIG_TYPE_RESPONDED

subsection \<open>The classes\<close>

definition hinawa_fw_node_class_init :: "(fw_node_prop_type, fw_node_sig_type) class_spec" where
  "hinawa_fw_node_class_init = \<lparr>
     class_props =
       [(FW_NODE_PROP_TYPE_NODE_ID, Param_Uint ''node-id'' 0 G_MAXUINT 0),
        (FW_NODE_PROP_TYPE_LOCAL_NODE_ID, Param_Uint ''local-node-id'' 0 G_MAXUINT 0),
        (FW_NODE_PROP_TYPE_BUS_MANAGER_NODE_ID, Param_Uint ''bus-manager-node-id'' 0 G_MAXUINT 0),
        (FW_NODE_PROP_TYPE_IR_MANAGER_NODE_ID, Param_Uint ''ir-manager-node-id'' 0 G_MAXUINT 0),
        (FW_NODE_PROP_TYPE_ROOT_NODE_ID, Param_Uint ''root-node-id'' 0 G_MAXUINT 0),
        (FW_NODE_PROP_TYPE_GENERATION, Param_Uint ''generation'' 0 G_MAXUINT 0),
        (FW_NODE_PROP_TYPE_CARD_ID, Param_Uint ''card-id'' 0 G_MAXUINT 0)],
     class_signals =
       [(FW_NODE_SIG_TYPE_BUS_UPDATE,
         \<lparr>sig_name = ''bus-update'', sig_marshaller = (VOID, []), sig_return = G_TYPE_NONE, sig_params = []\<rparr>),
        (FW_NODE_SIG_TYPE_DISCONNECTED,
         \<lparr>sig_name = ''disconnected'', sig_marshaller = (VOID, []), sig_return = G_TYPE_NONE, sig_params = []\<rparr>)]\<rparr>"

definition hinawa_fw_req_class_init :: "(unit, fw_req_sig_type) class_spec" where
  "hinawa_fw_req_class_init = \<lparr>
     class_props = [],
     class_signals =
       [(FW_REQ_SIG_TYPE_RESPONDED, \<lparr>sig_name = ''responded'', sig_marshaller = (VOID, [ENUM, UINT, UINT, POINTER, UINT]),
         sig_return = G_TYPE_NONE,
         sig_params = [HINAWA_TYPE_FW_RCODE, G_TYPE_UINT, G_TYPE_UINT, G_TYPE_POINTER, G_TYPE_UINT]\<rparr>)]\<rparr>"

definition hinawa_fw_resp_class_init :: "(fw_resp_prop_type, fw_resp_sig_type) class_spec" where
  "hinawa_fw_resp_class_init = \<lparr>
     class_props =
       [(FW_RESP_PROP_TYPE_IS_RESERVED, Param_Boolean ''is-reserved'' False),
        (FW_RESP_PROP_TYPE_OFFSET, Param_Uint64 ''offset'' 0 (- 1) 0),
        (FW_RESP_PROP_TYPE_WIDTH, Param_Uint ''width'' 0 G_MAXUINT 0)],
     class_signals =
       [(FW_RESP_SIG_TYPE_REQ, \<lparr>sig_name = ''requested'',
         sig_marshaller = (ENUM, [ENUM, UINT64, UINT, UINT, UINT, UINT, UINT, POINTER, UINT]),
         sig_return = HINAWA_TYPE_FW_RCODE,
         sig_params = [HINAWA_TYPE_FW_TCODE, G_TYPE_UINT64, G_TYPE_UINT, G_TYPE_UINT, G_TYPE_UINT,
           G_TYPE_UINT, G_TYPE_UINT, G_TYPE_POINTER, G_TYPE_UINT]\<rparr>)]\<rparr>"

definition hinawa_fw_fcp_class_init :: "(fw_fcp_prop_type, fw_fcp_sig_type) class_spec" where
  "hinawa_fw_fcp_class_init = \<lparr>
     class_props = [(FW_FCP_PROP_TYPE_IS_BOUND, Param_Boolean ''is-bound'' False)],
     class_signals =
       [(FW_FCP_SIG_TYPE_RESPONDED, \<lparr>sig_name = ''responded'', sig_marshaller = (VOID, [UINT, UINT, POINTER, UINT]),
         sig_return = G_TYPE_NONE,
         sig_params = [G_TYPE_UINT, G_TYPE_UINT, G_TYPE_POINTER, G_TYPE_UINT]\<rparr>)]\<rparr>"

subsection \<open>Reading properties and emitting signals\<close>

text \<open>\<open>g_object_get\<close> for one property: the name is looked up among the installed specifications and the
  getter of the class is called with the identifier.\<close>

definition g_object_get :: "('id, 'sig) class_spec \<Rightarrow> ('id \<Rightarrow> gvalue option) \<Rightarrow> string \<Rightarrow> gvalue option" where
  "g_object_get cls getter name =
     (case List.find (\<lambda>(pid, spec). param_name spec = name) (class_props cls) of
        None \<Rightarrow> None
      | Some (pid, spec) \<Rightarrow> getter pid)"

definition node_getter :: "HinawaFwNode \<Rightarrow> fw_node_prop_type \<Rightarrow> gvalue option" where
  "node_getter n pid = map_option V_Uint (fw_node_get_property n pid)"

primrec resp_prop_value :: "fw_resp_prop \<Rightarrow> gvalue" where
  "resp_prop_value (Reserved b) = V_Boolean b"
| "resp_prop_value (Offset w) = V_Uint64 w"
| "resp_prop_value (Width w) = V_Uint w"

definition resp_getter :: "HinawaFwResp \<Rightarrow> fw_resp_prop_type \<Rightarrow> gvalue option" where
  "resp_getter r pid = map_option resp_prop_value (fw_resp_get_property r pid)"

definition fcp_getter :: "HinawaFwFcp \<Rightarrow> fw_fcp_prop_type \<Rightarrow> gvalue option" where
  "fcp_getter f pid = map_option V_Boolean (fw_fcp_get_property f pid)"

text \<open>The arguments of the emissions.\<close>

definition req_responded_args :: "responded \<Rightarrow> gvalue list" where
  "req_responded_args s =
     [V_Rcode (rp_rcode s), V_Uint (rp_request_tstamp s), V_Uint (rp_response_tstamp s),
      V_Pointer (rp_frame s), V_Uint (rp_frame_size s)]"

definition requested_args :: "requested \<Rightarrow> gvalue list" where
  "requested_args s =
     [V_Tcode (rd_tcode s), V_Uint64 (rd_offset s), V_Uint (rd_src_node_id s), V_Uint (rd_dst_node_id s),
      V_Uint (rd_card_id s), V_Uint (rd_generation s), V_Uint (rd_tstamp s), V_Pointer (rd_frame s),
      V_Uint (rd_length s)]"

definition fcp_responded_args :: "fcp_responded \<Rightarrow> gvalue list" where
  "fcp_responded_args s =
     [V_Uint (fr_generation s), V_Uint (fr_tstamp s), V_Pointer (fr_frame s), V_Uint (fr_frame_size s)]"

text \<open>\<open>g_signal_emit\<close> with the number stored under an enumerator: whether the values are of the types that
  the signal was registered with.\<close>

definition emission_typed :: "('id, 'sig) class_spec \<Rightarrow> 'sig \<Rightarrow> gvalue list \<Rightarrow> bool" where
  "emission_typed cls sid args =
     (case map_of (class_signals cls) sid of None \<Rightarrow> False | Some sg \<Rightarrow> map gvalue_type args = sig_params sg)"

subsection \<open>Well-formed classes\<close>

text \<open>Every identifier and every name is used once, defaults are in range, and each signal has a marshaller
  that exists and is for exactly its types.\<close>

definition class_ok :: "('id, 'sig) class_spec \<Rightarrow> bool" where
  "class_ok cls \<longleftrightarrow> distinct (map fst (class_props cls)) \<and>
     distinct (map (param_name \<circ> snd) (class_props cls)) \<and>
     list_all (\<lambda>(pid, spec). param_accepts spec (param_default spec)) (class_props cls) \<and>
     distinct (map fst (class_signals cls)) \<and>
     list_all (\<lambda>(sid, sg). sig_marshaller sg \<in> set marshallers \<and>
       sig_marshaller sg = (marshal_of (sig_return sg), map marshal_of (sig_params sg))) (class_signals cls)"

text \<open>A getter gives an acceptable value for every installed property.\<close>

definition getter_ok :: "('id, 'sig) class_spec \<Rightarrow> ('id \<Rightarrow> gvalue option) \<Rightarrow> bool" where
  "getter_ok cls getter \<longleftrightarrow> list_all (\<lambda>(pid, spec).
     case getter pid of None \<Rightarrow> False | Some v \<Rightarrow> param_accepts spec v) (class_props cls)"

text \<open>An object that was not used yet has the default of every property.\<close>

definition defaults_ok :: "('id, 'sig) class_spec \<Rightarrow> ('id \<Rightarrow> gvalue option) \<Rightarrow> bool" where
  "defaults_ok cls getter \<longleftrightarrow>
     list_all (\<lambda>(pid, spec). getter pid = Some (param_default spec)) (class_props cls)"

lemma g_object_get_accepted:
  assumes "getter_ok cls getter" and "g_object_get cls getter name = Some v"
  obtains pid spec where "(pid, spec) \<in> set (class_props cls)" "param_name spec = name" "param_accepts spec v"
proof -
  obtain x where x: "List.find (\<lambda>(pid, spec). param_name spec = name) (class_props cls) = Some x"
    "getter (fst x) = Some v"
    using assms(2) by (auto simp: g_object_get_def split: option.splits)
  then have "x \<in> set (class_props cls)" "param_name (snd x) = name"
    by (auto simp: find_Some_iff split_beta)
  moreover from this(1) assms(1) x(2) have "param_accepts (snd x) v"
    by (auto simp: getter_ok_def list_all_iff)
  ultimately show ?thesis using that [of "fst x" "snd x"] by simp
qed

lemma le_G_MAXUINT [simp]: "(w :: u32) \<le> G_MAXUINT"
proof -
  have "unat w < 2 ^ 32" using unsigned_less [of w] by simp
  then show ?thesis by (simp add: word_le_nat_alt)
qed

lemma classes_ok:
  "class_ok hinawa_fw_node_class_init" "class_ok hinawa_fw_req_class_init"
  "class_ok hinawa_fw_resp_class_init" "class_ok hinawa_fw_fcp_class_init"
  by (simp_all add: class_ok_def hinawa_fw_node_class_init_def hinawa_fw_req_class_init_def
      hinawa_fw_resp_class_init_def hinawa_fw_fcp_class_init_def marshallers_def)

lemma getters_ok:
  "getter_ok hinawa_fw_node_class_init (node_getter n)"
  "getter_ok hinawa_fw_resp_class_init (resp_getter r)"
  "getter_ok hinawa_fw_fcp_class_init (fcp_getter f)"
  by (simp_all add: getter_ok_def hinawa_fw_node_class_init_def hinawa_fw_resp_class_init_def
      hinawa_fw_fcp_class_init_def node_getter_def resp_getter_def fcp_getter_def)

lemmas class_init_defs = hinawa_fw_node_class_init_def hinawa_fw_req_class_init_def
  hinawa_fw_resp_class_init_def hinawa_fw_fcp_class_init_def

text \<open>The interface the library registers with GObject fits what it does: in each class identifiers
  and names are unique, defaults are in range and each signal has a marshaller for exactly its types;
  each getter gives every installed property a value of its type and range, a fresh object has the
  declared defaults; the properties of a node that the library itself reads by name are the fields the
  request and the FCP code work with; and every emission passes values of the declared types.\<close>

lemma object_interface_well_typed:
  "class_ok hinawa_fw_node_class_init \<and> class_ok hinawa_fw_req_class_init \<and>
   class_ok hinawa_fw_resp_class_init \<and> class_ok hinawa_fw_fcp_class_init \<and>
   getter_ok hinawa_fw_node_class_init (node_getter n) \<and>
   getter_ok hinawa_fw_resp_class_init (resp_getter r) \<and>
   getter_ok hinawa_fw_fcp_class_init (fcp_getter f) \<and>
   defaults_ok hinawa_fw_node_class_init (node_getter hinawa_fw_node_init) \<and>
   defaults_ok hinawa_fw_resp_class_init (resp_getter hinawa_fw_resp_init) \<and>
   defaults_ok hinawa_fw_fcp_class_init (fcp_getter hinawa_fw_fcp_init) \<and>
   g_object_get hinawa_fw_node_class_init (node_getter n) ''generation'' =
     Some (V_Uint (sr_generation (send_request_arg c req n tcode addr len frame))) \<and>
   g_object_get hinawa_fw_node_class_init (node_getter n) ''generation'' =
     Some (V_Uint (nr_generation (current_record uninit [a \<mapsto> n] (Some a)))) \<and>
   g_object_get hinawa_fw_node_class_init (node_getter n) ''node-id'' =
     Some (V_Uint (nr_src_node_id (current_record uninit [a \<mapsto> n] (Some a)))) \<and>
   g_object_get hinawa_fw_node_class_init (node_getter n) ''card-id'' = Some (V_Uint (card_id n)) \<and>
   emission_typed hinawa_fw_node_class_init FW_NODE_SIG_TYPE_BUS_UPDATE [] \<and>
   emission_typed hinawa_fw_node_class_init FW_NODE_SIG_TYPE_DISCONNECTED [] \<and>
   emission_typed hinawa_fw_req_class_init FW_REQ_SIG_TYPE_RESPONDED (req_responded_args s1) \<and>
   emission_typed hinawa_fw_resp_class_init FW_RESP_SIG_TYPE_REQ (requested_args s2) \<and>
   emission_typed hinawa_fw_fcp_class_init FW_FCP_SIG_TYPE_RESPONDED (fcp_responded_args s3)"
proof -
  have "g_object_get hinawa_fw_node_class_init (node_getter n) ''generation'' =
      Some (V_Uint (br_generation (generation n)))"
    "g_object_get hinawa_fw_node_class_init (node_getter n) ''node-id'' =
      Some (V_Uint (br_node_id (generation n)))"
    "g_object_get hinawa_fw_node_class_init (node_getter n) ''card-id'' = Some (V_Uint (card_id n))"
    by (simp_all add: g_object_get_def class_init_defs node_getter_def)
  moreover have "defaults_ok hinawa_fw_node_class_init (node_getter hinawa_fw_node_init)"
    "defaults_ok hinawa_fw_resp_class_init (resp_getter hinawa_fw_resp_init)"
    "defaults_ok hinawa_fw_fcp_class_init (fcp_getter hinawa_fw_fcp_init)"
    by (auto simp: defaults_ok_def class_init_defs node_getter_def resp_getter_def fcp_getter_def
        hinawa_fw_node_init_def hinawa_fw_resp_init_def hinawa_fw_fcp_init_def)
  moreover have "emission_typed hinawa_fw_node_class_init FW_NODE_SIG_TYPE_BUS_UPDATE []"
    "emission_typed hinawa_fw_node_class_init FW_NODE_SIG_TYPE_DISCONNECTED []"
    "emission_typed hinawa_fw_req_class_init FW_REQ_SIG_TYPE_RESPONDED (req_responded_args s1)"
    "emission_typed hinawa_fw_resp_class_init FW_RESP_SIG_TYPE_REQ (requested_args s2)"
    "emission_typed hinawa_fw_fcp_class_init FW_FCP_SIG_TYPE_RESPONDED (fcp_responded_args s3)"
    by (simp_all add: emission_typed_def class_init_defs req_responded_args_def requested_args_def
        fcp_responded_args_def)
  ultimately show ?thesis
    by (simp add: classes_ok getters_ok send_request_arg_def current_record_def node_at_def)
qed

end
