(* ===== verification/Iso_Control.thy ===== *)
theory Iso_Control
  imports Hinawa_Prelude
begin

unbundle bit_operations_syntax

text \<open>
  The remaining macros of \<open>include/linux/firewire-cdev.h\<close>: the flags of isochronous contexts, which the library
  itself does not use, and the control word of an isochronous packet, which the macros \<open>FW_CDEV_ISO_*\<close> fill in.
  The header documents where the fields of that word are; here they are read from there.
\<close>

section \<open>Flags\<close>

definition FW_CDEV_LONG_RESET :: u32 where "FW_CDEV_LONG_RESET = 0"

definition FW_CDEV_SHORT_RESET :: u32 where "FW_CDEV_SHORT_RESET = 1"

datatype iso_context_type =
    FW_CDEV_ISO_CONTEXT_TRANSMIT | FW_CDEV_ISO_CONTEXT_RECEIVE | FW_CDEV_ISO_CONTEXT_RECEIVE_MULTICHANNEL

primrec iso_context_code :: "iso_context_type \<Rightarrow> u32" where
  "iso_context_code FW_CDEV_ISO_CONTEXT_TRANSMIT = 0"
| "iso_context_code FW_CDEV_ISO_CONTEXT_RECEIVE = 1"
| "iso_context_code FW_CDEV_ISO_CONTEXT_RECEIVE_MULTICHANNEL = 2"

text \<open>The masks \<open>FW_CDEV_ISO_CONTEXT_MATCH_TAG0\<close> to \<open>TAG3\<close>, and all of them.\<close>

definition match_tags :: "u32 list" where
  "match_tags = [1, 2, 4, 8]"

definition FW_CDEV_ISO_CONTEXT_MATCH_ALL_TAGS :: u32 where
  "FW_CDEV_ISO_CONTEXT_MATCH_ALL_TAGS = 15"

lemma match_all_tags:
  "FW_CDEV_ISO_CONTEXT_MATCH_ALL_TAGS = fold (OR) match_tags 0"
  "map (\<lambda>tag. push_bit tag 1) [0 ..< 4] = match_tags"
  by (simp_all add: FW_CDEV_ISO_CONTEXT_MATCH_ALL_TAGS_def match_tags_def upt_rec)

section \<open>The control word\<close>

definition FW_CDEV_ISO_PAYLOAD_LENGTH :: "u32 \<Rightarrow> u32" where "FW_CDEV_ISO_PAYLOAD_LENGTH v = v"

definition FW_CDEV_ISO_INTERRUPT :: u32 where "FW_CDEV_ISO_INTERRUPT = push_bit 16 1"

definition FW_CDEV_ISO_SKIP :: u32 where "FW_CDEV_ISO_SKIP = push_bit 17 1"

definition FW_CDEV_ISO_SYNC :: u32 where "FW_CDEV_ISO_SYNC = push_bit 17 1"

definition FW_CDEV_ISO_TAG :: "u32 \<Rightarrow> u32" where "FW_CDEV_ISO_TAG v = push_bit 18 v"

definition FW_CDEV_ISO_SY :: "u32 \<Rightarrow> u32" where "FW_CDEV_ISO_SY v = push_bit 20 v"

definition FW_CDEV_ISO_HEADER_LENGTH :: "u32 \<Rightarrow> u32" where "FW_CDEV_ISO_HEADER_LENGTH v = push_bit 24 v"

lemmas iso_control_defs = FW_CDEV_ISO_PAYLOAD_LENGTH_def FW_CDEV_ISO_INTERRUPT_def FW_CDEV_ISO_SKIP_def
  FW_CDEV_ISO_SYNC_def FW_CDEV_ISO_TAG_def FW_CDEV_ISO_SY_def FW_CDEV_ISO_HEADER_LENGTH_def

text \<open>The word as a sum: the fields do not overlap when the values are within their widths.\<close>

definition iso_control :: "u32 \<Rightarrow> bool \<Rightarrow> bool \<Rightarrow> u32 \<Rightarrow> u32 \<Rightarrow> u32 \<Rightarrow> u32" where
  "iso_control len interrupt skip tag sy header =
     FW_CDEV_ISO_PAYLOAD_LENGTH len OR (if interrupt then FW_CDEV_ISO_INTERRUPT else 0) OR
     (if skip then FW_CDEV_ISO_SKIP else 0) OR FW_CDEV_ISO_TAG tag OR FW_CDEV_ISO_SY sy OR
     FW_CDEV_ISO_HEADER_LENGTH header"

lemma bit_flag: "j < 32 \<Longrightarrow> bit (push_bit j 1 :: u32) k \<longleftrightarrow> k = j"
  by (auto simp: bit_simps)

lemma bit_flags:
  "bit FW_CDEV_ISO_INTERRUPT k \<longleftrightarrow> k = 16" "bit FW_CDEV_ISO_SKIP k \<longleftrightarrow> k = 17" "bit FW_CDEV_ISO_SYNC k \<longleftrightarrow> k = 17"
  unfolding FW_CDEV_ISO_INTERRUPT_def FW_CDEV_ISO_SKIP_def FW_CDEV_ISO_SYNC_def by (rule bit_flag, simp)+

lemma bit_shifted:
  "bit (FW_CDEV_ISO_PAYLOAD_LENGTH v) k \<longleftrightarrow> bit v k"
  "bit (FW_CDEV_ISO_TAG v) k \<longleftrightarrow> 18 \<le> k \<and> k < 32 \<and> bit v (k - 18)"
  "bit (FW_CDEV_ISO_SY v) k \<longleftrightarrow> 20 \<le> k \<and> k < 32 \<and> bit v (k - 20)"
  "bit (FW_CDEV_ISO_HEADER_LENGTH v) k \<longleftrightarrow> 24 \<le> k \<and> k < 32 \<and> bit v (k - 24)"
  by (auto simp: iso_control_defs bit_push_bit_iff)

lemma bit_iso_control:
  "bit (iso_control len interrupt skip tag sy header) k \<longleftrightarrow>
     bit len k \<or> interrupt \<and> k = 16 \<or> skip \<and> k = 17 \<or> 18 \<le> k \<and> k < 32 \<and> bit tag (k - 18) \<or>
      20 \<le> k \<and> k < 32 \<and> bit sy (k - 20) \<or> 24 \<le> k \<and> k < 32 \<and> bit header (k - 24)"
  by (auto simp: iso_control_def bit_or_iff bit_flags bit_shifted)

lemma bit_below: "take_bit w (v :: u32) = v \<Longrightarrow> bit v k \<Longrightarrow> k < w"
  by (metis bit_take_bit_iff)

text \<open>Each field of the word is read back from where the header says it is, whatever the others are.\<close>

theorem iso_control_fields:
  fixes interrupt skip
  assumes "take_bit 16 len = len" and "take_bit 2 tag = tag" and "take_bit 4 sy = sy" and "take_bit 8 header = header"
  defines "control \<equiv> iso_control len interrupt skip tag sy header"
  shows "take_bit 16 control = len \<and> (bit control 16 \<longleftrightarrow> interrupt) \<and> (bit control 17 \<longleftrightarrow> skip) \<and>
    take_bit 2 (drop_bit 18 control) = tag \<and> take_bit 4 (drop_bit 20 control) = sy \<and> drop_bit 24 control = header"
proof -
  note below = bit_below [OF assms(1)] bit_below [OF assms(2)] bit_below [OF assms(3)] bit_below [OF assms(4)]
  have "take_bit 16 control = len"
    by (rule bit_eqI) (auto simp: control_def bit_take_bit_iff bit_iso_control dest: below)
  moreover have "bit control 16 \<longleftrightarrow> interrupt" "bit control 17 \<longleftrightarrow> skip"
    by (auto simp: control_def bit_iso_control dest: below)
  moreover have "take_bit 2 (drop_bit 18 control) = tag"
    by (rule bit_eqI) (auto simp: control_def bit_take_bit_iff bit_drop_bit_eq bit_iso_control dest: below)
  moreover have "take_bit 4 (drop_bit 20 control) = sy"
    by (rule bit_eqI) (auto simp: control_def bit_take_bit_iff bit_drop_bit_eq bit_iso_control dest: below)
  moreover have "drop_bit 24 control = header"
    by (rule bit_eqI) (auto simp: control_def bit_drop_bit_eq bit_iso_control dest: below)
  ultimately show ?thesis by blast
qed

end
