(* ===== verification/Spec2Isabelle.thy ===== *)
theory Spec2Isabelle
  imports Fw_Lifecycle Fw_Outstanding Fw_Race Req_Threads Fcp_Concurrent Fcp_Window Fw_Locks Fw_Classes Iso_Control
begin

text \<open>
  A verification of libhinawa, the user-space library for IEEE 1394 (FireWire) of the ALSA project.

  \<^bold>\<open>The program.\<close> The library wraps the Linux FireWire character device in GObject classes. A
  \<^emph>\<open>node\<close> (\<open>src/fw_node.c\<close>) opens the device, caches the generation of the bus and the configuration
  ROM, and dispatches the events it reads from the descriptor. A \<^emph>\<open>request\<close> (\<open>src/fw_req.c\<close>) sends
  request subactions through the node and waits for the response, which the dispatcher delivers by the
  signal \<open>responded\<close>. A \<^emph>\<open>responder\<close> (\<open>src/fw_resp.c\<close>) reserves a range of addresses and answers the
  requests that arrive there with what the handlers of the signal \<open>requested\<close> return. An \<^emph>\<open>FCP object\<close>
  (\<open>src/fw_fcp.c\<close>) is a responder at the address of FCP responses of a bound node; it sends commands
  with a request of its own and waits for response frames (AV/C transactions). \<open>src/cycle_time.c\<close>
  decodes the cycle timer.

  \<^bold>\<open>Theories and sources.\<close>

  \<^item> \<open>Hinawa_Prelude\<close>: machine integers, runs that may fault (\<open>run\<close>: a null pointer, an access out of
    bounds, a freed object), \<open>memcpy\<close>, \<open>memset\<close>, array accesses, shared lemmas.
  \<^item> \<open>Cycle_Time\<close>: \<open>cycle_time.c\<close>. The fields of the register recompose it; the time stamp computation is
    right exactly when no stale bit survives an \<open>OR\<close>.
  \<^item> \<open>Hinawa_Types\<close>: \<open>hinawa_enum_types.h\<close>, error reports. The numbers of the enumerators are in a kernel
    header that is not in the repository: they are the parameter \<open>fw_constants\<close>, with \<open>constants_ok\<close>.
  \<^item> \<open>Fw_Cdev\<close>: the events and ioctl arguments of \<open>include/linux/firewire-cdev.h\<close> that the library uses. The
    kernel is a parameter (\<open>sys_ioctl\<close>, \<open>sys_get_info\<close>); \<open>errno_ok\<close>, \<open>allocate_ok\<close>, \<open>info_ok\<close> are what
    it documents.
  \<^item> \<open>C_Layout\<close>, \<open>Cdev_Layout\<close>: how C lays out a structure for a byte order and an alignment of 64-bit
    integers (\<open>abi\<close>), and every structure and ioctl request of \<open>firewire-cdev.h\<close>. No member is preceded by
    padding on either alignment; the request codes are pairwise different.
  \<^item> \<open>Iso_Control\<close>: the flags and the control word of isochronous contexts in the same header.
  \<^item> \<open>Event_Wire\<close>: events as bytes. What the dispatcher reads through the union is what the kernel wrote.
  \<^item> \<open>Hinawa_Interfaces\<close>: the contracts between the components, as locales: a registry of outstanding
    requests, the ioctl wrapper, a responder that answers each event once, a history of recent records.
  \<^item> \<open>Config_Rom\<close>, \<open>Fw_Node\<close>: the node without its event source. The configuration ROM is handed out in
    big-endian order on either byte order of the host, opening leaks no descriptor, no access leaves the
    ROM buffer.
  \<^item> \<open>Fw_Req\<close>: requests and blocking transactions: the exact result for every response code and for no
    response, memory safety for every schedule, the argument checks.
  \<^item> \<open>Req_Threads\<close>: a blocking transaction and the threads that dispatch its responses, step by step with
    their mutexes. The schedules of \<open>Fw_Req\<close> are all there is; the waiter of the caller outlives every
    handler, unless the request is used on two nodes at the same time.
  \<^item> \<open>Fw_Resp\<close>: reservation, release and the three versions of the request handler.
  \<^item> \<open>Node_History\<close>: the ring of identities of a bound node, which refines a list of the ten most recent
    ones.
  \<^item> \<open>Fw_Fcp\<close>: binding, the signal handlers, commands and AV/C transactions. The waiters live on the
    stacks of their callers: they are an explicit store, and the list of the object holds addresses.
    A final response that overtakes an interim one is lost when it is larger.
  \<^item> \<open>Fcp_Concurrent\<close>: several AV/C transactions on one object: each gets its own response, whatever the
    others do, when no larger response follows before its caller runs; a response larger than the buffer
    overflows it.
  \<^item> \<open>Fw_Dispatch\<close>: the event source of a node: \<open>check_src\<close>, \<open>dispatch_src\<close>, creation, finalisation. The
    source reads bytes into its buffer (\<open>dispatch_src\<close>); \<open>dispatch_decoded\<close> is the same for events as values.
  \<^item> \<open>Fw_Outstanding\<close>: the list of outstanding requests over any history of requests, invalidations and
    events: it counts each request, and responses are emitted exactly while their request is counted.
  \<^item> \<open>Fw_System\<close>: all objects together: dispatching keeps them well-formed, faults nowhere and answers
    every request.
  \<^item> \<open>Fw_Source\<close>: the dispatcher of bytes refines the one of events, up to the data that the buffer cuts off
    or that earlier events left in it; what it does with responses, late responses, bus resets and
    response frames of FCP.
  \<^item> \<open>Fw_Race\<close>: callers that register requests on one node at the same time, which \<open>hinawa_fw_node_ioctl\<close>
    does without the mutex of the list: one that overlaps another can lose its registration.
  \<^item> \<open>Fcp_Window\<close>: the steps of \<open>hinawa_fw_fcp_bind\<close>, between which the dispatcher may run: a frame in the
    middle of the first bind of an object crashes the process.
  \<^item> \<open>Fw_Calls\<close>: the calls a process makes: constructors and finalisers, the operations of the four classes
    with any location for errors, blocking calls with their schedules, the steps of an AV/C transaction, which
    are shown to make up the function, and the dispatch of events; and when a call is proper.
  \<^item> \<open>Fw_Lifecycle\<close>: no proper call faults in any state that a process reaches by proper calls; an AV/C
    transaction whose command fails is not one, and is shown to leave the object broken.
  \<^item> \<open>Lock_Order\<close>, \<open>Fw_Locks\<close>: which mutexes each function takes in which order, as interleaved threads.
    Everything but AV/C transactions respects an order and cannot deadlock; an AV/C transaction does not
    and can.
  \<^item> \<open>Fw_Classes\<close>: the properties and signals that the classes register with GObject.
  \<^item> This theory: a transaction from the request through the dispatcher and its buffer to its result, and a
    response that is longer than that buffer.

  \<^bold>\<open>How the state and the operations correspond.\<close> A private structure is a record with the fields of the
  source; mutexes and condition variables have no field. A function takes the state of the object and
  returns it updated, with the error location (\<open>gerror_ptr\<close>: null, or the report stored in it, if any)
  and the ioctl requests issued; \<open>g_return_val_if_fail\<close> is an early return. Pointers to objects are
  addresses (\<open>obj_id\<close>) in stores. Emissions are returned in order or run the modelled handlers; the
  handlers users connect to \<open>requested\<close> are a parameter.

  \<^bold>\<open>Waiting.\<close> A wait is a recursion over a schedule: one element for each return of
  \<open>g_cond_wait_until\<close>, with what other threads did meanwhile; the end of the schedule is the deadline.
  The source bounds the wait by a deadline, so a finite schedule covers each execution, and the theorems
  hold for all schedules. No other fuel is used: every other loop recurses over a list or a counter,
  \<open>find_record_from\<close> with a measure. \<open>Fw_Locks\<close> unfolds the waits and the loops over waiters for arbitrary
  numbers. For blocking transactions \<open>Req_Threads\<close> justifies the schedules: every interleaving of the steps
  of the caller with those of the dispatching threads, for a request that is outstanding once, ends as some
  schedule does. For AV/C transactions the elements of a schedule are whole emissions or single runs of a
  handler; a run holds the mutex of the list, and visits each waiter with the mutex of that waiter held.

  \<^bold>\<open>Not modelled.\<close> The macros of GObject for types, quarks and boxed types, and the declarations of the
  header files; reference counts, apart from objects that are gone; the time at which a deadline falls; errors of
  memory allocation, on which GLib aborts; \<open>samples\<close>, \<open>tests\<close> and \<open>doc\<close>, which are scripts and documents.
  The byte level is that of the events: the arguments of an ioctl are records, since the kernel reads
  them from the structure whose layout \<open>Cdev_Layout\<close> has. Outside \<open>Fw_Race\<close> each operation on the list of
  outstanding requests is atomic.
\<close>

section \<open>A transaction from the request to its result\<close>

text \<open>The schedule of a blocking transaction of the request \<open>p\<close> on the node \<open>self\<close> that a run of the
  dispatcher brings about: the emissions of \<open>responded\<close> on that request wake the caller, and the node
  is left as the dispatcher leaves it.\<close>

definition dispatched_schedule ::
    "obj_id \<Rightarrow> obj_id \<Rightarrow> objects \<times> emission list \<times> fw_ioctl list \<Rightarrow> req_schedule" where
  "dispatched_schedule self p res =
     (case res of (objs, sigs, io) \<Rightarrow>
        \<lparr>sch_before = [], sch_wakes = [concat (map (responded_on p) sigs)], sch_timeout = [],
         sch_node = (\<lambda>n. case obj_nodes objs self of None \<Rightarrow> n | Some n' \<Rightarrow> n')\<rparr>)"

lemma forget_registered:
  assumes "p \<notin> set (transactions n)" and "0 < k"
  shows "forget_times k p (register_transaction p n) = n"
proof -
  have "forget_times j p n = n" for j
    by (induction j)
       (simp_all add: forget_times_Suc hinawa_fw_node_invalidate_transaction_def assms(1),
         simp add: forget_times_def)
  moreover have "hinawa_fw_node_invalidate_transaction p (register_transaction p n) = n"
    by (simp add: hinawa_fw_node_invalidate_transaction_def register_transaction_def)
  ultimately show ?thesis using assms(2) by (cases k) (simp_all add: forget_times_Suc)
qed

text \<open>Responses for a request that was just registered: exactly the first one is emitted, with the data
  that the buffer of the source holds, and the node is left as it was before.\<close>

lemma dispatch_outstanding:
  assumes src: "abi_ok (env_abi env)" "source_ok src"
    and n: "obj_nodes objs (src_self src) = Some n" "0 \<le> fd n"
    and p: "live_request objs p" "p \<notin> set (transactions n)"
    and e: "list_all (\<lambda>e. rs2_closure e = p) (e # es)"
  shows "\<exists>d. length d = src_len src - 32 \<and>
    dispatch_reads env (map FW_CDEV_EVENT_RESPONSE2 (e # es)) src
        (put_node (src_self src) (register_transaction p n) objs) =
      Ret (put_node (src_self src) n objs,
        [Req_Responded p (hinawa_fw_req_handle_response2 (e\<lparr>rs2_data := d\<rparr>))], []) \<and>
    (\<forall>k. k \<le> length (rs2_data e) \<and> 32 + k \<le> src_len src \<longrightarrow> take k d = take k (rs2_data e))"
proof -
  let ?n = "register_transaction p n" and ?self = "src_self src"
  let ?objs = "put_node ?self ?n objs"
  have self: "?self \<noteq> p" using p(1) n(1) by (auto simp: live_request_def)
  have fd: "0 \<le> fd ?n" using n(2) by (simp add: register_transaction_def)
  have live: "live_request ?objs p" using p(1) self by (simp add: live_request_def)
  have one: "count_list (transactions ?n) p = 1"
    using p(2) by (simp add: register_transaction_def count_list_0_iff)
  have self_n: "obj_nodes ?objs ?self = Some ?n" by simp
  have "put_node ?self (forget_times (length (e # es)) p ?n) ?objs = put_node ?self n objs"
    using forget_registered [OF p(2), of "length (e # es)"] by simp
  with dispatch_reads_responses [OF src self_n fd live e one] show ?thesis by simp
qed

text \<open>C1. From the request to its result, with the dispatcher and its buffer in between: a caller starts a
  transaction on an opened node with a request that is not outstanding there, the kernel accepts it, and
  writes a response for it, and possibly more of them, into the buffer of the source before the deadline.
  If the bytes the caller has room for fit into that buffer behind the structure of the event, the
  dispatcher delivers exactly the first response; the caller returns true exactly for completion, with
  the bytes, the size and the time stamps of that response, or reports its error code once; and the
  node is left exactly as it was.\<close>

theorem transaction_through_dispatcher:
  fixes env src p n
  assumes c: "constants_ok (env_constants env)" and K: "errno_ok (env_ioctl env)"
    and src: "abi_ok (env_abi env)" "source_ok src"
    and n: "obj_nodes objs (src_self src) = Some n" "0 \<le> fd n"
    and p: "live_request objs p" "p \<notin> set (transactions n)"
    and l: "request_length tcode addr len (Some fr) (Some fsize) (Err None) = Some l"
  defines "arg \<equiv> FW_CDEV_IOC_SEND_REQUEST (send_request_arg (env_constants env) p n tcode addr l (Some fr))"
  assumes accepted: "env_ioctl env (fd n) arg = Inr b"
    and e: "list_all (\<lambda>e. rs2_closure e = p) (e # es)" "rs2_rcode e = RCODE (env_constants env) r"
      "r \<noteq> HINAWA_FW_RCODE_INVALID" "unat (rs2_length e) \<le> length (rs2_data e)"
    and fr: "unat fsize \<le> length fr"
  defines "k \<equiv> min (unat fsize) (unat (rs2_length e))"
  assumes room: "32 + unat (rs2_length e) \<le> src_len src"
  shows "\<exists>res. dispatch_reads env (map FW_CDEV_EVENT_RESPONSE2 (e # es)) src
      (put_node (src_self src) (register_transaction p n) objs) = Ret res \<and>
    hinawa_fw_req_transaction_with_tstamp (env_constants env) (env_ioctl env)
      (dispatched_schedule (src_self src) p res) p (Some n) tcode addr len (Some fr) (Some fsize) True
      (Err None) =
    Ret (Some \<lparr>tx_ok = (r = HINAWA_FW_RCODE_COMPLETE),
      tx_frame = take k (rs2_data e) @ drop k fr,
      tx_frame_size = (if r = HINAWA_FW_RCODE_COMPLETE then word_of_nat k else fsize),
      tx_tstamp = Some (rs2_request_tstamp e, rs2_response_tstamp e),
      tx_node = Some n,
      tx_error = Err (if r = HINAWA_FW_RCODE_COMPLETE then None
                      else Some (fw_req_error_literal (req_error_of_rcode r))),
      tx_io = [arg]\<rparr>)"
proof -
  let ?self = "src_self src"
  obtain d where d: "length d = src_len src - 32"
      "dispatch_reads env (map FW_CDEV_EVENT_RESPONSE2 (e # es)) src
        (put_node ?self (register_transaction p n) objs) =
       Ret (put_node ?self n objs, [Req_Responded p (hinawa_fw_req_handle_response2 (e\<lparr>rs2_data := d\<rparr>))], [])"
      "take k d = take k (rs2_data e)"
    using dispatch_outstanding [OF src n p e(1)] e(4) room unfolding k_def
    by (metis (no_types, lifting) add_left_mono min.cobounded2 order_trans)
  let ?s = "hinawa_fw_req_handle_response2 (e\<lparr>rs2_data := d\<rparr>)"
  let ?sch = "dispatched_schedule ?self p (put_node ?self n objs, [Req_Responded p ?s], [])"
  have s: "deliveries ?sch = [?s]" "signal_ok ?s" "rp_rcode ?s = RCODE (env_constants env) r"
    using e(2,4) room d(1) by (simp_all add: deliveries_def dispatched_schedule_def signal_ok_def
        hinawa_fw_req_handle_response2_def)
  have "hinawa_fw_node_invalidate_transaction p (sch_node ?sch (register_transaction p n)) = n"
    using p(2) by (simp add: dispatched_schedule_def hinawa_fw_node_invalidate_transaction_def)
  with transaction_answered_eq [OF c K n(2) l accepted [unfolded arg_def] s e(3) fr] d(2,3)
  show ?thesis
    by (intro exI [of _ "(put_node ?self n objs, [Req_Responded p ?s], [])"])
       (simp add: arg_def k_def hinawa_fw_req_handle_response2_def)
qed

theorem transaction_through_dispatcher_witness:
  "\<exists>res r. dispatch_reads sample_env
      (map FW_CDEV_EVENT_RESPONSE2 [sample_response2 0, sample_response2 4]) sample_src
      (put_node 2 (register_transaction 9 sample_node) (sample_objects\<lparr>obj_nodes := [2 \<mapsto> sample_node]\<rparr>)) =
      Ret res \<and>
    hinawa_fw_req_transaction_with_tstamp numbered_constants granting_kernel
      (dispatched_schedule 2 9 res) 9 (Some sample_node) HINAWA_FW_TCODE_READ_QUADLET_REQUEST
      0xfffff0000400 4 (Some [0, 0, 0, 0]) (Some 4) True (Err None) = Ret (Some r) \<and>
    tx_ok r \<and> tx_frame r = [1, 2, 0, 0] \<and> tx_frame_size r = 2 \<and> tx_tstamp r = Some (0x10, 0x12) \<and>
    tx_node r = Some sample_node"
proof -
  let ?objs = "sample_objects\<lparr>obj_nodes := [2 \<mapsto> sample_node]\<rparr>"
  have env: "env_constants sample_env = numbered_constants" "env_ioctl sample_env = granting_kernel"
    "src_self sample_src = 2" "src_len sample_src = 4096"
    by (simp_all add: sample_env_def sample_src_def)
  have n: "obj_nodes ?objs 2 = Some sample_node" "0 \<le> fd sample_node" "9 \<notin> set (transactions sample_node)"
    by (simp_all add: sample_node_def hinawa_fw_node_init_def)
  have p: "live_request ?objs 9" by (simp add: live_request_def sample_objects_def)
  have l: "request_length HINAWA_FW_TCODE_READ_QUADLET_REQUEST 0xfffff0000400 4
      (Some [0, 0, 0, 0]) (Some 4) (Err None) = Some 4"
    by code_simp
  have k: "granting_kernel d a = Inr a" for d a by (simp add: granting_kernel_def)
  have e: "list_all (\<lambda>e. rs2_closure e = 9) [sample_response2 0, sample_response2 4]"
    "rs2_rcode (sample_response2 0) = RCODE numbered_constants HINAWA_FW_RCODE_COMPLETE"
    "unat (rs2_length (sample_response2 0)) \<le> length (rs2_data (sample_response2 0))"
    by (simp_all add: sample_response2_def numbered_constants_def)
  from transaction_through_dispatcher [where env = sample_env and src = sample_src and objs = ?objs,
      unfolded env, OF numbered_constants_ok errno_ok_granting sample_abi_ok sample_source_ok
      n(1,2) p n(3) l k e(1,2) _ e(3)]
  show ?thesis by (auto simp: sample_response2_def)
qed

text \<open>C27. The buffer of the source is one page, and what does not fit is cut off. A response that is longer
  than the buffer has room for, for a caller that has more room than that: the dispatcher emits
  \<open>responded\<close> with the declared length although the bytes end with the buffer, and the handler of the
  waiting transaction reads past its end. With pages of 4096 bytes a block read of 4096 bytes, which
  IEEE 1394 allows at S800 and faster, is enough.\<close>

theorem long_response_overruns_buffer:
  fixes env src p n
  assumes K: "errno_ok (env_ioctl env)"
    and src: "abi_ok (env_abi env)" "source_ok src"
    and n: "obj_nodes objs (src_self src) = Some n" "0 \<le> fd n"
    and p: "live_request objs p" "p \<notin> set (transactions n)"
    and l: "request_length tcode addr len (Some fr) (Some fsize) (Err None) = Some l"
    and e: "rs2_closure e = p"
    and long: "src_len src < 32 + min (unat fsize) (unat (rs2_length e))"
  shows "\<exists>res. dispatch_reads env [FW_CDEV_EVENT_RESPONSE2 e] src
      (put_node (src_self src) (register_transaction p n) objs) = Ret res \<and>
    hinawa_fw_req_transaction_with_tstamp (env_constants env) (env_ioctl env)
      (dispatched_schedule (src_self src) p res) p (Some n) tcode addr len (Some fr) (Some fsize) True
      (Err None) = Fault Out_Of_Bounds"
proof -
  let ?self = "src_self src"
  obtain d where d: "length d = src_len src - 32"
      "dispatch_reads env [FW_CDEV_EVENT_RESPONSE2 e] src
        (put_node ?self (register_transaction p n) objs) =
       Ret (put_node ?self n objs, [Req_Responded p (hinawa_fw_req_handle_response2 (e\<lparr>rs2_data := d\<rparr>))], [])"
    using dispatch_outstanding [OF src n p, of e "[]"] e by auto
  let ?s = "hinawa_fw_req_handle_response2 (e\<lparr>rs2_data := d\<rparr>)"
  have "64 \<le> src_len src" using src(2) by (simp add: source_ok_def)
  then have "length d < min (unat fsize) (unat (rs2_length e))" using long d(1) by linarith
  moreover have "unat (min fsize (ucast (rs2_length e))) = min (unat fsize) (unat (rs2_length e))"
    by (simp add: min_def word_le_nat_alt)
  ultimately have "Fw_Req.handle_responded_signal ?s (new_waiter fr fsize) = Fault Out_Of_Bounds"
    by (simp add: Fw_Req.handle_responded_signal_def hinawa_fw_req_handle_response2_def new_waiter_def
        memcpy_def Let_def min_le_iff_disj)
  with request_issued [OF K n(2) l] d(2) show ?thesis
    by (intro exI [of _ "(put_node ?self n objs, [Req_Responded p ?s], [])"])
       (simp add: hinawa_fw_req_transaction_with_tstamp_def dispatched_schedule_def)
qed

theorem long_response_overruns_buffer_witness:
  "\<exists>res. dispatch_reads sample_env
      [FW_CDEV_EVENT_RESPONSE2 ((sample_response2 0)\<lparr>rs2_length := 4096, rs2_data := replicate 4096 7\<rparr>)]
      sample_src (put_node 2 (register_transaction 9 sample_node)
        (sample_objects\<lparr>obj_nodes := [2 \<mapsto> sample_node]\<rparr>)) = Ret res \<and>
    hinawa_fw_req_transaction_with_tstamp numbered_constants granting_kernel
      (dispatched_schedule 2 9 res) 9 (Some sample_node) HINAWA_FW_TCODE_READ_BLOCK_REQUEST
      0xfffff0000400 4096 (Some (replicate 4096 0)) (Some 4096) True (Err None) = Fault Out_Of_Bounds"
proof -
  let ?objs = "sample_objects\<lparr>obj_nodes := [2 \<mapsto> sample_node]\<rparr>"
  have env: "env_constants sample_env = numbered_constants" "env_ioctl sample_env = granting_kernel"
    "src_self sample_src = 2" "src_len sample_src = 4096"
    by (simp_all add: sample_env_def sample_src_def)
  have n: "obj_nodes ?objs 2 = Some sample_node" "0 \<le> fd sample_node" "9 \<notin> set (transactions sample_node)"
    by (simp_all add: sample_node_def hinawa_fw_node_init_def)
  have p: "live_request ?objs 9" by (simp add: live_request_def sample_objects_def)
  have l: "request_length HINAWA_FW_TCODE_READ_BLOCK_REQUEST 0xfffff0000400 4096
      (Some (replicate 4096 0)) (Some 4096) (Err None) = Some 4096"
    by (simp add: request_length_def read_write_tcodes_def aligned_tcodes_def)
  show ?thesis
    using long_response_overruns_buffer [where env = sample_env and src = sample_src and objs = ?objs and
        p = 9 and n = sample_node, unfolded env, OF errno_ok_granting sample_abi_ok sample_source_ok
        n(1,2) p n(3) l]
    by (simp add: sample_response2_def)
qed

end
